theory Spec2Isabelle
  imports Main
begin

section \<open>Binary nodes, errors and effects\<close>

text \<open>
  A binary node is \<open>{ tag, attrs, content }\<close>. The attributes are an object from
  names to strings; the content is absent, a byte buffer or a list of child nodes.
\<close>

type_synonym bytes = "nat list"

datatype node = Node (tag: string) (attrs: "string \<Rightarrow> string option") (content: ncontent)
  and ncontent = NoContent | Bytes bytes | Children "node list"

text \<open>The child nodes of a node; none when the content is absent or a buffer.\<close>

definition children :: "node \<Rightarrow> node list" where
  "children n = (case content n of Children ns \<Rightarrow> ns | NoContent \<Rightarrow> [] | Bytes b \<Rightarrow> [])"

text \<open>
  What the code throws: a \<open>Boom\<close> with its message, the \<open>TypeError\<close> of reading a
  property of \<open>undefined\<close>, and the rejection of a collaborator's promise.
\<close>

datatype error = Boom string | TypeError | Rejected string

text \<open>
  The socket's collaborators (transport, key store, caches, Signal repository, clock)
  keep a state of their own, \<open>world\<close>, of a type the model leaves open. Beside it the
  model keeps four records of what the modelled code itself did: the nodes it handed to
  \<open>sendNode\<close>, the pairwise encryptions that returned (the JID and the ciphertext
  type returned), the JID lists it handed to \<open>assertSessions\<close>, and the user lists
  of the USync queries it issued.
\<close>

datatype ctype = Msg | Pkmsg

record 'w sys =
  world :: 'w
  sent :: "node list"
  encrypted :: "(string \<times> ctype) list"
  asserted :: "string list list"
  usync :: "string list list"

type_synonym ('a, 'w) io = "'w sys \<Rightarrow> (error + 'a) \<times> 'w sys"

definition ret :: "'a \<Rightarrow> ('a, 'w) io" where
  "ret x = (\<lambda>s. (Inr x, s))"

definition throw :: "error \<Rightarrow> ('a, 'w) io" where
  "throw e = (\<lambda>s. (Inl e, s))"

text \<open>\<open>await m\<close>, then the rest of the function: an error of \<open>m\<close> ends it.\<close>

definition andThen :: "('a, 'w) io \<Rightarrow> ('a \<Rightarrow> ('b, 'w) io) \<Rightarrow> ('b, 'w) io" where
  "andThen m f = (\<lambda>s. case m s of (Inl e, s') \<Rightarrow> (Inl e, s') | (Inr x, s') \<Rightarrow> f x s')"

text \<open>\<open>try { m } catch (err) { h err }\<close>.\<close>

definition tryCatch :: "('a, 'w) io \<Rightarrow> (error \<Rightarrow> ('a, 'w) io) \<Rightarrow> ('a, 'w) io" where
  "tryCatch m h = (\<lambda>s. case m s of (Inl e, s') \<Rightarrow> h e s' | (Inr x, s') \<Rightarrow> (Inr x, s'))"

text \<open>A call on a collaborator: it sees and changes the world only.\<close>

definition call :: "('w \<Rightarrow> (error + 'a) \<times> 'w) \<Rightarrow> ('a, 'w) io" where
  "call f = (\<lambda>s. case f (world s) of (r, w') \<Rightarrow> (r, s\<lparr>world := w'\<rparr>))"

definition reads :: "('w \<Rightarrow> 'a) \<Rightarrow> ('a, 'w) io" where
  "reads f = (\<lambda>s. (Inr (f (world s)), s))"

text \<open>JavaScript's truthiness of a string and of an optional string.\<close>

definition truthy :: "string \<Rightarrow> bool" where
  "truthy x = (x \<noteq> [])"

definition truthyOpt :: "string option \<Rightarrow> bool" where
  "truthyOpt x = (case x of None \<Rightarrow> False | Some v \<Rightarrow> truthy v)"

text \<open>\<open>Number.prototype.toString\<close> on a natural number and on an integer.\<close>

function natToString :: "nat \<Rightarrow> string" where
  "natToString n =
     (if n < 10 then [''0123456789'' ! n]
      else natToString (n div 10) @ [''0123456789'' ! (n mod 10)])"
  by pat_completeness auto
termination
  by (relation "measure id") auto

definition intToString :: "int \<Rightarrow> string" where
  "intToString i = (if i < 0 then CHR ''-'' # natToString (nat (- i)) else natToString (nat i))"

text \<open>
  A JavaScript object used as a dictionary with string keys, as an association list in
  insertion order. \<open>Object.entries\<close> and \<open>for ... in\<close> visit the keys that are
  array indices first, in ascending numeric order, then the others in insertion order.
\<close>

fun objSet :: "(string \<times> 'v) list \<Rightarrow> string \<Rightarrow> 'v \<Rightarrow> (string \<times> 'v) list" where
  "objSet [] k v = [(k, v)]"
| "objSet ((k', v') # kvs) k v = (if k' = k then (k, v) # kvs else (k', v') # objSet kvs k v)"

definition isDigit :: "char \<Rightarrow> bool" where
  "isDigit c = (c \<in> set ''0123456789'')"

definition digitsToNat :: "string \<Rightarrow> nat" where
  "digitsToNat ds = foldl (\<lambda>acc c. 10 * acc + (of_char c - 48)) 0 ds"

definition isArrayIndex :: "string \<Rightarrow> bool" where
  "isArrayIndex k =
     (k \<noteq> [] \<and> list_all isDigit k \<and> (k = ''0'' \<or> hd k \<noteq> CHR ''0'')
      \<and> digitsToNat k < 4294967295)"

definition objEntries :: "(string \<times> 'v) list \<Rightarrow> (string \<times> 'v) list" where
  "objEntries obj =
     sort_key (\<lambda>kv. digitsToNat (fst kv)) (filter (\<lambda>kv. isArrayIndex (fst kv)) obj)
     @ filter (\<lambda>kv. \<not> isArrayIndex (fst kv)) obj"

section \<open>The helpers of WABinary\<close>

text \<open>
  \<open>jidDecode\<close>, \<open>jidEncode\<close>, \<open>jidNormalizedUser\<close>, \<open>isLidUser\<close>, \<open>isPnUser\<close>,
  \<open>isJidGroup\<close>, \<open>areJidsSameUser\<close> and the \<open>getBinaryNodeChild\<close> family are
  imported from module \<open>WABinary\<close>, which is not among the sources. The model takes
  them as a parameter \<open>W\<close>, so that a theorem holds for every implementation of them,
  and says in its hypotheses what it needs of them. A decoded JID keeps the fields the
  code reads; the device is a number when the JID carries one. Where the code hands
  \<open>undefined\<close> to one of the predicates or to \<open>jidDecode\<close>, the model answers
  \<open>False\<close> and \<open>None\<close> without asking \<open>W\<close>.
\<close>

record fulljid =
  fj_user :: string
  fj_server :: string
  fj_device :: "int option"

record wabinary =
  jidDecode :: "string \<Rightarrow> fulljid option"
  jidEncode :: "string option \<Rightarrow> string option \<Rightarrow> int option \<Rightarrow> string"
  jidNormalizedUser :: "string \<Rightarrow> string"
  isLidUser :: "string \<Rightarrow> bool"
  isPnUser :: "string \<Rightarrow> bool"
  isJidGroup :: "string \<Rightarrow> bool"
  areJidsSameUser :: "string \<Rightarrow> string \<Rightarrow> bool"
  getBinaryNodeChild :: "node \<Rightarrow> string \<Rightarrow> node option"
  getBinaryNodeChildren :: "node \<Rightarrow> string \<Rightarrow> node list"
  getBinaryNodeChildString :: "node \<Rightarrow> string \<Rightarrow> string option"

subsection \<open>A reference implementation\<close>

text \<open>
  Modelled from the spec: module \<open>WABinary\<close> is missing from the sources. Section 3
  of the specification gives the parsed form \<open>{ user, server, device?, agent? }\<close> of a
  JID and says that the server tells a phone-number user (\<open>s.whatsapp.net\<close>), a LID
  user (\<open>lid\<close>) and a group (\<open>g.us\<close>) apart; the device loop of \<open>getUSyncDevices\<close>
  takes a JID apart at \<open>@\<close> and then at \<open>:\<close>. The reference reads
  \<open>user[_agent][:device]@server\<close>. It is used where a theorem is run on concrete
  input; no general theorem depends on it.
\<close>

definition endsWith :: "string \<Rightarrow> string \<Rightarrow> bool" where
  "endsWith s suf = (length suf \<le> length s \<and> drop (length s - length suf) s = suf)"

definition refJidDecode :: "string \<Rightarrow> fulljid option" where
  "refJidDecode jid =
     (if CHR ''@'' \<notin> set jid then None
      else
        let userCombined = takeWhile (\<lambda>c. c \<noteq> CHR ''@'') jid;
            srv = tl (dropWhile (\<lambda>c. c \<noteq> CHR ''@'') jid);
            userAgent = takeWhile (\<lambda>c. c \<noteq> CHR '':'') userCombined;
            dev = takeWhile (\<lambda>c. c \<noteq> CHR '':'') (tl (dropWhile (\<lambda>c. c \<noteq> CHR '':'') userCombined));
            usr = takeWhile (\<lambda>c. c \<noteq> CHR ''_'') userAgent
        in Some \<lparr> fj_user = usr, fj_server = srv,
                  fj_device = (if dev \<noteq> [] \<and> list_all isDigit dev
                               then Some (int (digitsToNat dev)) else None) \<rparr>)"

definition refJidEncode :: "string option \<Rightarrow> string option \<Rightarrow> int option \<Rightarrow> string" where
  "refJidEncode usr srv dev =
     (case usr of None \<Rightarrow> [] | Some u \<Rightarrow> u)
     @ (case dev of None \<Rightarrow> [] | Some d \<Rightarrow> if d = 0 then [] else CHR '':'' # intToString d)
     @ CHR ''@'' # (case srv of None \<Rightarrow> ''undefined'' | Some v \<Rightarrow> v)"

definition refJidNormalizedUser :: "string \<Rightarrow> string" where
  "refJidNormalizedUser jid =
     (case refJidDecode jid of
        None \<Rightarrow> []
      | Some d \<Rightarrow>
          refJidEncode (Some (fj_user d))
            (Some (if fj_server d = ''c.us'' then ''s.whatsapp.net'' else fj_server d)) None)"

definition refWABinary :: wabinary where
  "refWABinary =
     \<lparr> jidDecode = refJidDecode,
       jidEncode = refJidEncode,
       jidNormalizedUser = refJidNormalizedUser,
       isLidUser = (\<lambda>jid. endsWith jid ''@lid''),
       isPnUser = (\<lambda>jid. endsWith jid ''@s.whatsapp.net''),
       isJidGroup = (\<lambda>jid. endsWith jid ''@g.us''),
       areJidsSameUser = (\<lambda>a b. map_option fj_user (refJidDecode a) = map_option fj_user (refJidDecode b)),
       getBinaryNodeChild = (\<lambda>n t. find (\<lambda>c. tag c = t) (children n)),
       getBinaryNodeChildren = (\<lambda>n t. filter (\<lambda>c. tag c = t) (children n)),
       getBinaryNodeChildString = (\<lambda>n t. None) \<rparr>"

section \<open>LIDMappingStore (Signal/lid-mapping.ts)\<close>

text \<open>
  The store holds the LRU cache (keys \<open>pn:<user>\<close> and \<open>lid:<user>\<close>) and reads and
  writes the \<open>lid-mapping\<close> namespace of the key store (keys \<open><pnUser>\<close> and
  \<open><lidUser>_reverse\<close>). \<open>warnings\<close> collects the messages given to
  \<open>logger.warn\<close>. The expiry of cache entries with time is not modelled.
\<close>

record lidStore =
  mappingCache :: "string \<Rightarrow> string option"
  lidMappingKeys :: "string \<Rightarrow> string option"
  warnings :: "string list"

text \<open>Lines 41 to 51 and 89 to 99: the cache first, then the key store, which fills the cache.\<close>

definition lookupLidUser :: "lidStore \<Rightarrow> string \<Rightarrow> string option \<times> lidStore" where
  "lookupLidUser st pnUser =
     (let cached = mappingCache st (''pn:'' @ pnUser) in
      if truthyOpt cached then (cached, st)
      else
        (case lidMappingKeys st pnUser of
           None \<Rightarrow> (None, st)
         | Some stored \<Rightarrow>
             if truthy stored
             then (Some stored,
                   st\<lparr>mappingCache := (mappingCache st)
                        (''pn:'' @ pnUser \<mapsto> stored, ''lid:'' @ stored \<mapsto> pnUser)\<rparr>)
             else (Some stored, st)))"

definition invalidMappingWarning :: "string \<times> string \<Rightarrow> string" where
  "invalidMappingWarning p = ''Invalid LID-PN mapping: '' @ fst p @ '', '' @ snd p"

definition validPair :: "wabinary \<Rightarrow> string \<times> string \<Rightarrow> bool" where
  "validPair W p =
     (case p of (lid, pn) \<Rightarrow>
        (isLidUser W lid \<and> isPnUser W pn) \<or> (isPnUser W lid \<and> isLidUser W pn))"

text \<open>
  The loop of lines 26 to 59 over the pairs \<open>(lid, pn)\<close>, with the \<open>pairMap\<close> built so
  far. The first component of the result is \<open>None\<close> when the loop left the function
  through the \<open>return\<close> of line 35.
\<close>

fun storeLoop ::
  "wabinary \<Rightarrow> (string \<times> string) list \<Rightarrow> (string \<times> string) list \<Rightarrow> lidStore
     \<Rightarrow> (string \<times> string) list option \<times> lidStore" where
  "storeLoop W [] pairMap st = (Some pairMap, st)"
| "storeLoop W ((lid, pn) # rest) pairMap st =
     (if \<not> validPair W (lid, pn)
      then storeLoop W rest pairMap
             (st\<lparr>warnings := warnings st @ [invalidMappingWarning (lid, pn)]\<rparr>)
      else
        let lidJid = (if isLidUser W lid then lid else pn);
            pnJid = (if isLidUser W lid then pn else lid)
        in case jidDecode W lidJid of
             None \<Rightarrow> (None, st)
           | Some lidDecoded \<Rightarrow>
               (case jidDecode W pnJid of
                  None \<Rightarrow> (None, st)
                | Some pnDecoded \<Rightarrow>
                    let pnUser = fj_user pnDecoded;
                        lidUser = fj_user lidDecoded;
                        found = lookupLidUser st pnUser
                    in if fst found = Some lidUser
                       then storeLoop W rest pairMap (snd found)
                       else storeLoop W rest (objSet pairMap pnUser lidUser) (snd found)))"

text \<open>The transaction of lines 63 to 75: one \<open>keys.set\<close> and two cache writes per entry.\<close>

fun storeEntries :: "(string \<times> string) list \<Rightarrow> lidStore \<Rightarrow> lidStore" where
  "storeEntries [] st = st"
| "storeEntries ((pnUser, lidUser) # rest) st =
     storeEntries rest
       (st\<lparr>lidMappingKeys := (lidMappingKeys st)
              (pnUser \<mapsto> lidUser, lidUser @ ''_reverse'' \<mapsto> pnUser),
           mappingCache := (mappingCache st)
              (''pn:'' @ pnUser \<mapsto> lidUser, ''lid:'' @ lidUser \<mapsto> pnUser)\<rparr>)"

definition storeLIDPNMappings :: "wabinary \<Rightarrow> (string \<times> string) list \<Rightarrow> lidStore \<Rightarrow> lidStore" where
  "storeLIDPNMappings W pairs st =
     (case storeLoop W pairs [] st of
        (None, st') \<Rightarrow> st'
      | (Some pairMap, st') \<Rightarrow> storeEntries (objEntries pairMap) st')"

definition getLIDForPN :: "wabinary \<Rightarrow> string \<Rightarrow> lidStore \<Rightarrow> string option \<times> lidStore" where
  "getLIDForPN W pn st =
     (if \<not> isPnUser W pn then (None, st)
      else
        (case jidDecode W pn of
           None \<Rightarrow> (None, st)
         | Some decoded \<Rightarrow>
             (case lookupLidUser st (fj_user decoded) of
                (None, st') \<Rightarrow> (None, st')
              | (Some lidUser, st') \<Rightarrow>
                  if \<not> truthy lidUser then (None, st')
                  else (Some (lidUser @ ''@lid''), st'))))"

text \<open>Lines 130 to 143: the reverse direction; only the \<open>lid:\<close> entry is cached.\<close>

definition lookupPnUser :: "lidStore \<Rightarrow> string \<Rightarrow> string option \<times> lidStore" where
  "lookupPnUser st lidUser =
     (let cached = mappingCache st (''lid:'' @ lidUser) in
      if truthyOpt cached then (cached, st)
      else
        (case lidMappingKeys st (lidUser @ ''_reverse'') of
           None \<Rightarrow> (None, st)
         | Some pnUser \<Rightarrow>
             if \<not> truthy pnUser then (None, st)
             else (Some pnUser,
                   st\<lparr>mappingCache := (mappingCache st)(''lid:'' @ lidUser \<mapsto> pnUser)\<rparr>)))"

definition getPNForLID :: "wabinary \<Rightarrow> string \<Rightarrow> lidStore \<Rightarrow> string option \<times> lidStore" where
  "getPNForLID W lid st =
     (if \<not> isLidUser W lid then (None, st)
      else
        (case jidDecode W lid of
           None \<Rightarrow> (None, st)
         | Some decoded \<Rightarrow>
             (case lookupPnUser st (fj_user decoded) of
                (None, st') \<Rightarrow> (None, st')
              | (Some pnUser, st') \<Rightarrow> (Some (pnUser @ ''@s.whatsapp.net''), st'))))"

section \<open>extractGroupMetadata (Socket/groups.ts)\<close>

text \<open>
  A number the code obtains from text: \<open>Plus a\<close> is JavaScript's \<open>+a\<close> for an
  attribute \<open>a\<close> (absent when \<open>None\<close>), kept as written; \<open>Count n\<close> is the length
  of an array.
\<close>

datatype number = Plus "string option" | Count nat

record groupParticipant =
  gp_id :: "string option"
  gp_jid :: "string option"
  gp_phoneNumber :: "string option"
  gp_lid :: "string option"
  gp_admin :: "string option"

record groupMetadata =
  gm_id :: string
  gm_notify :: "string option"
  gm_addressingMode :: string
  gm_subject :: "string option"
  gm_subjectOwner :: "string option"
  gm_subjectOwnerPn :: "string option"
  gm_subjectTime :: number
  gm_size :: number
  gm_creation :: number
  gm_owner :: "string option"
  gm_ownerPn :: "string option"
  gm_owner_country_code :: "string option"
  gm_desc :: "string option"
  gm_descId :: "string option"
  gm_descOwner :: "string option"
  gm_descOwnerPn :: "string option"
  gm_descTime :: "number option"
  gm_linkedParent :: "string option"
  gm_restrict :: bool
  gm_announce :: bool
  gm_isCommunity :: bool
  gm_isCommunityAnnounce :: bool
  gm_joinApprovalMode :: bool
  gm_memberAddMode :: bool
  gm_participants :: "groupParticipant list"
  gm_ephemeralDuration :: "number option"








section \<open>The socket's collaborators (Socket/messages-send.ts)\<close>

text \<open>
  A protobuf message, as far as the relay looks into it: an application message with
  the names of the fields that are set on it (a nested flag by its path, as
  \<open>videoMessage.gifPlayback\<close>) and the rest of its content as a number; the
  \<open>deviceSentMessage\<close> wrapper the relay builds for the sender's other devices; and
  the sender-key distribution message it builds for a group.
\<close>

datatype message =
    Proto "string list" nat
  | DeviceSentMessage string message
  | SenderKeyDistributionMessage bytes string

definition has :: "message \<Rightarrow> string \<Rightarrow> bool" where
  "has m f =
     (case m of
        Proto fs c \<Rightarrow> f \<in> set fs
      | DeviceSentMessage d inner \<Rightarrow> f = ''deviceSentMessage''
      | SenderKeyDistributionMessage k g \<Rightarrow> f = ''senderKeyDistributionMessage'')"

text \<open>
  What \<open>patchMessageBeforeSending\<close> returns: one message for all recipients, or a
  list of \<open>{ recipientJid, message }\<close>.
\<close>

datatype patched = Single message | PerJid "(string \<times> message) list"

text \<open>A resolved device \<open>{ user, device, jid }\<close>.\<close>

record device =
  d_user :: string
  d_device :: "int option"
  d_jid :: string

text \<open>
  One entry of a USync result list (its id, its LID when the server gave one, the rest
  opaque), and one device that \<open>extractDeviceJids\<close> reads off the list.
\<close>

record usyncEntry =
  ue_id :: string
  ue_lid :: "string option"
  ue_devices :: "nat list"

record extracted =
  x_user :: string
  x_device :: "int option"
  x_server :: string
  x_originalJid :: "string option"

text \<open>
  The fields of group metadata the relay reads, as the caller's cache or a fetch gives
  them (\<open>gd_participants\<close> is \<open>None\<close> when the object has no array there), and an
  entry of the groups socket's own cache.
\<close>

record participantRef =
  p_id :: string
  p_lid :: "string option"

record groupData =
  gd_addressingMode :: "string option"
  gd_participants :: "participantRef list option"
  gd_ephemeralDuration :: "int option"
  gd_cachedAt :: "int option"

record cachedGroup =
  cg_participants :: "string list option"
  cg_addressingMode :: "string option"
  cg_updatedAt :: "int option"

record credsMe =
  me_id :: string
  me_lid :: "string option"

text \<open>
  The configuration and the collaborators of the messages socket. A collaborator that
  the code awaits takes the world and returns its result, or the error it rejects
  with, and the new world. \<open>assertSessionsInternal\<close> (lines 436 to 504) talks to the
  session cache, the Signal repository and the server only; the model takes it as a
  collaborator as a whole.
\<close>

record 'w env =
  compatV6GroupSend :: bool
  creds_me :: "credsMe option"
  sendNode :: "node \<Rightarrow> 'w \<Rightarrow> (error + unit) \<times> 'w"
  unixTimestampSeconds :: "'w \<Rightarrow> nat"
  dateNow :: "'w \<Rightarrow> int"
  userDevicesCache_mget :: "(string list \<Rightarrow> 'w \<Rightarrow> (error + (string \<Rightarrow> device list option)) \<times> 'w) option"
  userDevicesCache_get :: "string option \<Rightarrow> 'w \<Rightarrow> (error + device list option) \<times> 'w"
  userDevicesCache_mset :: "((string \<times> device list) list \<Rightarrow> 'w \<Rightarrow> (error + unit) \<times> 'w) option"
  userDevicesCache_set :: "string \<Rightarrow> device list \<Rightarrow> 'w \<Rightarrow> (error + unit) \<times> 'w"
  executeUSyncQuery :: "string list \<Rightarrow> 'w \<Rightarrow> (error + usyncEntry list option) \<times> 'w"
  lidMapping_storeLIDPNMappings :: "(string \<times> string) list \<Rightarrow> 'w \<Rightarrow> (error + unit) \<times> 'w"
  lidMapping_getLIDsForPNs :: "string list \<Rightarrow> 'w \<Rightarrow> (error + (string \<times> string) list option) \<times> 'w"
  extractDeviceJids :: "usyncEntry list \<Rightarrow> string \<Rightarrow> string option \<Rightarrow> bool \<Rightarrow> extracted list"
  keysSetDeviceList :: "(string \<times> string list) list \<Rightarrow> 'w \<Rightarrow> (error + unit) \<times> 'w"
  keysGetSenderKeyMemory :: "string \<Rightarrow> 'w \<Rightarrow> (error + (string \<Rightarrow> bool option) option) \<times> 'w"
  keysSetSenderKeyMemory :: "string \<Rightarrow> (string \<Rightarrow> bool option) \<Rightarrow> 'w \<Rightarrow> (error + unit) \<times> 'w"
  assertSessionsInternal :: "string list \<Rightarrow> 'w \<Rightarrow> (error + bool) \<times> 'w"
  encryptMessage :: "string \<Rightarrow> bytes \<Rightarrow> 'w \<Rightarrow> (error + ctype \<times> bytes) \<times> 'w"
  encryptGroupMessage :: "string \<Rightarrow> bytes \<Rightarrow> string \<Rightarrow> 'w \<Rightarrow> (error + bytes \<times> bytes) \<times> 'w"
  patchMessageBeforeSending :: "(message \<Rightarrow> string list option \<Rightarrow> 'w \<Rightarrow> (error + patched) \<times> 'w) option"
  cachedGroupMetadata :: "(string \<Rightarrow> 'w \<Rightarrow> (error + groupData option) \<times> 'w) option"
  getCachedGroupMetadata :: "(string \<Rightarrow> 'w \<Rightarrow> cachedGroup option) option"
  groupMetadata :: "string \<Rightarrow> 'w \<Rightarrow> (error + groupData) \<times> 'w"
  generateMessageIDV2 :: "string \<Rightarrow> 'w \<Rightarrow> (error + string) \<times> 'w"
  generateParticipantHashV2 :: "string list \<Rightarrow> string"
  encodeWAMessage :: "message \<Rightarrow> bytes"
  encodeNewsletterMessage :: "patched \<Rightarrow> bytes"
  encodeSignedDeviceIdentity :: "'w \<Rightarrow> (error + bytes) \<times> 'w"
  normalizeMessageContent :: "message \<Rightarrow> message option"
  addRecentMessage :: "(string \<Rightarrow> string \<Rightarrow> message \<Rightarrow> 'w \<Rightarrow> (error + unit) \<times> 'w) option"

text \<open>\<open>await sendNode(node)\<close>: the node is handed to the transport, which may reject.\<close>

definition doSendNode :: "'w env \<Rightarrow> node \<Rightarrow> (unit, 'w) io" where
  "doSendNode E n = (\<lambda>s. call (sendNode E n) (s\<lparr>sent := sent s @ [n]\<rparr>))"

text \<open>\<open>sock.executeUSyncQuery\<close> for the users of the list \<open>toFetch\<close>.\<close>

definition doUSyncQuery :: "'w env \<Rightarrow> string list \<Rightarrow> (usyncEntry list option, 'w) io" where
  "doUSyncQuery E toFetch = (\<lambda>s. call (executeUSyncQuery E toFetch) (s\<lparr>usync := usync s @ [toFetch]\<rparr>))"

text \<open>
  \<open>signalRepository.encryptMessage({ jid, data })\<close>; an encryption that returns is
  noted with the ciphertext type it returned.
\<close>

definition doEncryptMessage :: "'w env \<Rightarrow> string \<Rightarrow> bytes \<Rightarrow> (ctype \<times> bytes, 'w) io" where
  "doEncryptMessage E jid data =
     (\<lambda>s. case call (encryptMessage E jid data) s of
             (Inl e, s') \<Rightarrow> (Inl e, s')
           | (Inr r, s') \<Rightarrow> (Inr r, s'\<lparr>encrypted := encrypted s' @ [(jid, fst r)]\<rparr>))"

text \<open>Lines 422 to 434: in the V6 mode an error of the assertion is logged and dropped.\<close>

definition assertSessions :: "'w env \<Rightarrow> string list \<Rightarrow> (bool, 'w) io" where
  "assertSessions E jids =
     (\<lambda>s. (if compatV6GroupSend E
            then tryCatch (call (assertSessionsInternal E jids)) (\<lambda>err. ret False)
            else call (assertSessionsInternal E jids))
           (s\<lparr>asserted := asserted s @ [jids]\<rparr>))"

section \<open>sendReceipt\<close>

text \<open>
  \<open>messageIds\<close> is \<open>None\<close> when the caller passes \<open>undefined\<close>; \<open>rtype\<close> is
  \<open>None\<close> for a delivery receipt.
\<close>

definition receiptItems :: "string list \<Rightarrow> ncontent" where
  "receiptItems remainingMessageIds =
     (if remainingMessageIds \<noteq> []
      then Children [Node ''list'' Map.empty
             (Children (map (\<lambda>i. Node ''item'' [''id'' \<mapsto> i] NoContent) remainingMessageIds))]
      else NoContent)"

definition sendReceipt ::
  "wabinary \<Rightarrow> 'w env \<Rightarrow> string \<Rightarrow> string option \<Rightarrow> string list option \<Rightarrow> string option
     \<Rightarrow> (unit, 'w) io" where
  "sendReceipt W E jid participant messageIds rtype =
     (case messageIds of
        None \<Rightarrow> throw (Boom ''missing ids in receipt'')
      | Some [] \<Rightarrow> throw (Boom ''missing ids in receipt'')
      | Some (id0 # remainingMessageIds) \<Rightarrow>
          andThen
            (if rtype = Some ''read'' \<or> rtype = Some ''read-self''
             then andThen (reads (unixTimestampSeconds E))
                    (\<lambda>now. ret [''id'' \<mapsto> id0, ''t'' \<mapsto> natToString now])
             else ret [''id'' \<mapsto> id0])
            (\<lambda>attrs1.
               let attrs2 =
                     (if rtype = Some ''sender'' \<and> (isPnUser W jid \<or> isLidUser W jid)
                      then attrs1(''recipient'' \<mapsto> jid, ''to'' := participant)
                      else if truthyOpt participant
                        then attrs1(''to'' \<mapsto> jid, ''participant'' := participant)
                        else attrs1(''to'' \<mapsto> jid));
                   attrs3 = (if truthyOpt rtype then attrs2(''type'' := rtype) else attrs2)
               in doSendNode E (Node ''receipt'' attrs3 (receiptItems remainingMessageIds))))"

section \<open>getUSyncDevices\<close>

text \<open>
  Lines 298 to 310: an input whose decoded form has a device number that is at least 0
  and a truthy user is pushed to the result as it is and mapped to \<open>null\<close>.
\<close>

definition explicitDevice :: "wabinary \<Rightarrow> string \<Rightarrow> device option" where
  "explicitDevice W jid =
     (case jidDecode W jid of
        None \<Rightarrow> None
      | Some decoded \<Rightarrow>
          (case fj_device decoded of
             None \<Rightarrow> None
           | Some dev \<Rightarrow>
               if 0 \<le> dev \<and> truthy (fj_user decoded)
               then Some \<lparr> d_user = fj_user decoded, d_device = Some dev, d_jid = jid \<rparr>
               else None))"

text \<open>Lines 312 to 315: the other inputs, normalized unless they are LID users.\<close>

definition jidWithUser :: "wabinary \<Rightarrow> string \<Rightarrow> string \<times> string option" where
  "jidWithUser W jid =
     ((if \<not> isLidUser W jid then jidNormalizedUser W jid else jid),
      map_option fj_user (jidDecode W jid))"

text \<open>The property key that \<open>user\<close> becomes in \<open>mgetDevices[user]\<close>.\<close>

definition userKey :: "string option \<Rightarrow> string" where
  "userKey user = (case user of None \<Rightarrow> ''undefined'' | Some u \<Rightarrow> u)"

text \<open>
  Lines 326 to 340: for each remaining input the cached devices, or the input goes to
  \<open>toFetch\<close>. The result is what the loop adds to \<open>deviceResults\<close> and \<open>toFetch\<close>.
\<close>

fun cachedOrFetch ::
  "'w env \<Rightarrow> bool \<Rightarrow> (string \<Rightarrow> device list option) option \<Rightarrow> (string \<times> string option) list
     \<Rightarrow> (device list \<times> string list, 'w) io" where
  "cachedOrFetch E useCache mgetDevices [] = ret ([], [])"
| "cachedOrFetch E useCache mgetDevices ((jid, user) # rest) =
     andThen
       (if useCache
        then (case (case mgetDevices of None \<Rightarrow> None | Some m \<Rightarrow> m (userKey user)) of
                Some ds \<Rightarrow> ret (Some ds)
              | None \<Rightarrow>
                  (case userDevicesCache_mget E of
                     Some mget \<Rightarrow> ret None
                   | None \<Rightarrow> call (userDevicesCache_get E user)))
        else ret None)
       (\<lambda>devices.
          andThen (cachedOrFetch E useCache mgetDevices rest)
            (\<lambda>more. ret (case devices of
                            Some ds \<Rightarrow> (ds @ fst more, snd more)
                          | None \<Rightarrow> (fst more, jid # snd more))))"

text \<open>\<open>s.split(c)[0]\<close> and \<open>s.split(c)[1]\<close>.\<close>

definition splitFirst :: "char \<Rightarrow> string \<Rightarrow> string" where
  "splitFirst c s = takeWhile (\<lambda>x. x \<noteq> c) s"

definition splitSecond :: "char \<Rightarrow> string \<Rightarrow> string option" where
  "splitSecond c s =
     (if c \<in> set s then Some (takeWhile (\<lambda>x. x \<noteq> c) (tl (dropWhile (\<lambda>x. x \<noteq> c) s)))
      else None)"

text \<open>Lines 371 to 380: the wire JID of an extracted device.\<close>

definition itemWithJid :: "wabinary \<Rightarrow> extracted \<Rightarrow> device" where
  "itemWithJid W item =
     \<lparr> d_user = x_user item,
       d_device = x_device item,
       d_jid =
         (case x_originalJid item of
            Some originalJid \<Rightarrow>
              if truthy originalJid
              then jidEncode W (Some (splitFirst CHR '':'' (splitFirst CHR ''@'' originalJid)))
                     (splitSecond CHR ''@'' originalJid) (x_device item)
              else jidEncode W (Some (x_user item)) (Some (x_server item)) (x_device item)
          | None \<Rightarrow> jidEncode W (Some (x_user item)) (Some (x_server item)) (x_device item)) \<rparr>"

text \<open>Lines 382 and 383: \<open>deviceMap[user]\<close> gets the device appended.\<close>

fun objPush :: "(string \<times> 'v list) list \<Rightarrow> string \<Rightarrow> 'v \<Rightarrow> (string \<times> 'v list) list" where
  "objPush [] k v = [(k, [v])]"
| "objPush ((k', vs) # kvs) k v =
     (if k' = k then (k', vs @ [v]) # kvs else (k', vs) # objPush kvs k v)"

definition deviceMapOf :: "device list \<Rightarrow> (string \<times> device list) list" where
  "deviceMapOf items = foldl (\<lambda>m d. objPush m (d_user d) d) [] items"

text \<open>Lines 393 to 395: one \<open>set\<close> per key when the cache has no \<open>mset\<close>.\<close>

fun cacheSetAll :: "'w env \<Rightarrow> (string \<times> device list) list \<Rightarrow> (unit, 'w) io" where
  "cacheSetAll E [] = ret ()"
| "cacheSetAll E ((k, ds) # rest) =
     andThen (call (userDevicesCache_set E k ds)) (\<lambda>u. cacheSetAll E rest)"

text \<open>Line 402: \<open>d.device?.toString() || '0'\<close>.\<close>

definition deviceNumberString :: "device \<Rightarrow> string" where
  "deviceNumberString d = (case d_device d of None \<Rightarrow> ''0'' | Some n \<Rightarrow> intToString n)"

text \<open>Lines 354 to 417: what is done with a USync result, and what it adds to the devices.\<close>

definition useUSyncResult ::
  "wabinary \<Rightarrow> 'w env \<Rightarrow> bool \<Rightarrow> usyncEntry list \<Rightarrow> (device list, 'w) io" where
  "useUSyncResult W E ignoreZeroDevices lst =
     andThen
       (let lidResults = filter (\<lambda>a. truthyOpt (ue_lid a)) lst in
        if lidResults \<noteq> []
        then call (lidMapping_storeLIDPNMappings E
                     (map (\<lambda>a. (case ue_lid a of None \<Rightarrow> [] | Some l \<Rightarrow> l, ue_id a)) lidResults))
        else ret ())
       (\<lambda>u.
          case creds_me E of
            None \<Rightarrow> throw TypeError
          | Some me \<Rightarrow>
              let items = map (itemWithJid W)
                            (extractDeviceJids E lst (me_id me) (me_lid me) ignoreZeroDevices);
                  deviceMap = objEntries (deviceMapOf items);
                  userDeviceUpdates = map (\<lambda>kv. (fst kv, map deviceNumberString (snd kv)))
                                        (filter (\<lambda>kv. snd kv \<noteq> []) deviceMap)
              in andThen
                   (case userDevicesCache_mset E of
                      Some mset \<Rightarrow> call (mset deviceMap)
                    | None \<Rightarrow> cacheSetAll E deviceMap)
                   (\<lambda>u.
                      andThen
                        (if userDeviceUpdates \<noteq> []
                         then tryCatch (call (keysSetDeviceList E userDeviceUpdates)) (\<lambda>err. ret ())
                         else ret ())
                        (\<lambda>u. ret items)))"

definition getUSyncDevices ::
  "wabinary \<Rightarrow> 'w env \<Rightarrow> string list \<Rightarrow> bool \<Rightarrow> bool \<Rightarrow> (device list, 'w) io" where
  "getUSyncDevices W E jids useCache ignoreZeroDevices =
     (let deviceResults = List.map_filter (explicitDevice W) jids;
          jidsWithUser = map (jidWithUser W) (filter (\<lambda>jid. explicitDevice W jid = None) jids)
      in andThen
           (if useCache
            then (case userDevicesCache_mget E of
                    Some mget \<Rightarrow>
                      andThen
                        (call (mget (List.map_filter
                                       (\<lambda>j. if truthyOpt (snd j) then snd j else None) jidsWithUser)))
                        (\<lambda>m. ret (Some m))
                  | None \<Rightarrow> ret None)
            else ret None)
           (\<lambda>mgetDevices.
              andThen (cachedOrFetch E useCache mgetDevices jidsWithUser)
                (\<lambda>found.
                   if snd found = [] then ret (deviceResults @ fst found)
                   else
                     andThen (doUSyncQuery E (snd found))
                       (\<lambda>result.
                          case result of
                            None \<Rightarrow> ret (deviceResults @ fst found)
                          | Some lst \<Rightarrow>
                              andThen (useUSyncResult W E ignoreZeroDevices lst)
                                (\<lambda>items. ret (deviceResults @ fst found @ items))))))"

section \<open>relayMessage and createParticipantNodes\<close>

subsection \<open>What the relay reads off a message (lines 1122 to 1243)\<close>

definition getMessageType :: "message \<Rightarrow> string" where
  "getMessageType m =
     (if has m ''pollCreationMessage'' \<or> has m ''pollCreationMessageV2''
         \<or> has m ''pollCreationMessageV3'' then ''poll''
      else if has m ''eventMessage'' then ''event''
      else ''text'')"

definition getMediaType :: "message \<Rightarrow> string" where
  "getMediaType m =
     (if has m ''imageMessage'' then ''image''
      else if has m ''videoMessage''
        then (if has m ''videoMessage.gifPlayback'' then ''gif'' else ''video'')
      else if has m ''audioMessage''
        then (if has m ''audioMessage.ptt'' then ''ptt'' else ''audio'')
      else if has m ''contactMessage'' then ''vcard''
      else if has m ''documentMessage'' then ''document''
      else if has m ''contactsArrayMessage'' then ''contact_array''
      else if has m ''liveLocationMessage'' then ''livelocation''
      else if has m ''stickerMessage'' then ''sticker''
      else if has m ''listMessage'' then ''list''
      else if has m ''listResponseMessage'' then ''list_response''
      else if has m ''buttonsResponseMessage'' then ''buttons_response''
      else if has m ''orderMessage'' then ''order''
      else if has m ''productMessage'' then ''product''
      else if has m ''interactiveResponseMessage'' then ''native_flow_response''
      else if has m ''groupInviteMessage'' then ''url''
      else [])"

definition getButtonType :: "message \<Rightarrow> string option" where
  "getButtonType m =
     (if has m ''buttonsMessage'' then Some ''buttons''
      else if has m ''buttonsResponseMessage'' then Some ''buttons_response''
      else if has m ''interactiveResponseMessage'' then Some ''interactive_response''
      else if has m ''listMessage'' then Some ''list''
      else if has m ''listResponseMessage'' then Some ''list_response''
      else if has m ''interactiveMessage'' then Some ''interactive''
      else None)"

text \<open>\<open>buttons.some(button => button.name === "payment_info")\<close> is a flag of the message.\<close>

definition hasPaymentInfoButton :: "message \<Rightarrow> bool" where
  "hasPaymentInfoButton m = has m ''interactiveMessage.nativeFlowMessage.buttons.payment_info''"

definition getButtonArgs :: "message \<Rightarrow> string \<Rightarrow> string option" where
  "getButtonArgs m =
     (if has m ''templateMessage'' then Map.empty
      else if has m ''listMessage'' then [''v'' \<mapsto> ''2'', ''type'' \<mapsto> ''product_list'']
      else if has m ''interactiveMessage''
        then (if hasPaymentInfoButton m then [''v'' \<mapsto> ''1'', ''type'' \<mapsto> ''native_flow'']
              else [''type'' \<mapsto> ''native_flow''])
      else Map.empty)"

definition getButtonContent :: "message \<Rightarrow> node list" where
  "getButtonContent m =
     (if has m ''templateMessage'' then []
      else if has m ''interactiveMessage''
        then (if hasPaymentInfoButton m
              then [Node ''native_flow'' [''name'' \<mapsto> ''payment_info''] NoContent]
              else [Node ''native_flow'' [''v'' \<mapsto> ''2'', ''name'' \<mapsto> ''mixed''] NoContent])
      else [])"

subsection \<open>createParticipantNodes (lines 540 to 628)\<close>

definition ctypeString :: "ctype \<Rightarrow> string" where
  "ctypeString t = (case t of Msg \<Rightarrow> ''msg'' | Pkmsg \<Rightarrow> ''pkmsg'')"

text \<open>\<open>meLid ? jidDecode(meLid)?.user : null\<close>.\<close>

definition lidUserOf :: "wabinary \<Rightarrow> string option \<Rightarrow> string option" where
  "lidUserOf W meLid =
     (case meLid of
        None \<Rightarrow> None
      | Some l \<Rightarrow> if truthy l then map_option fj_user (jidDecode W l) else None)"

text \<open>\<open>jid === meId || (meLid && jid === meLid)\<close>.\<close>

definition isExactSenderDevice :: "credsMe \<Rightarrow> string \<Rightarrow> bool" where
  "isExactSenderDevice me jid = (jid = me_id me \<or> (truthyOpt (me_lid me) \<and> Some jid = me_lid me))"

text \<open>
  Lines 564 to 575: the message to encrypt for one recipient. With a \<open>dsmMessage\<close>
  the recipient and the sender are decoded, and a failure to decode is a \<open>TypeError\<close>.
\<close>

definition msgToEncrypt ::
  "wabinary \<Rightarrow> credsMe \<Rightarrow> message option \<Rightarrow> string \<Rightarrow> message \<Rightarrow> error + message" where
  "msgToEncrypt W me dsmMessage jid patchedMessage =
     (case dsmMessage of
        None \<Rightarrow> Inr patchedMessage
      | Some dsm \<Rightarrow>
          (case jidDecode W jid of
             None \<Rightarrow> Inl TypeError
           | Some target \<Rightarrow>
               (case jidDecode W (me_id me) of
                  None \<Rightarrow> Inl TypeError
                | Some own \<Rightarrow>
                    let ownLidUser = lidUserOf W (me_lid me);
                        isOwnUser = (fj_user target = fj_user own
                                     \<or> (truthyOpt ownLidUser \<and> Some (fj_user target) = ownLidUser))
                    in if isOwnUser \<and> \<not> isExactSenderDevice me jid then Inr dsm
                       else Inr patchedMessage)))"

definition toNode :: "string \<Rightarrow> ctype \<Rightarrow> bytes \<Rightarrow> (string \<Rightarrow> string option) \<Rightarrow> node" where
  "toNode jid t ciphertext extraAttrs =
     Node ''to'' [''jid'' \<mapsto> jid]
       (Children [Node ''enc'' ([''v'' \<mapsto> ''2'', ''type'' \<mapsto> ctypeString t] ++ extraAttrs)
                    (Bytes ciphertext)])"

text \<open>
  Lines 561 to 626, one entry of \<open>patchedMessages\<close> after the other: an entry
  without a JID gives no node; an encryption that fails gives no node in the V6 mode and
  ends the call otherwise. The result is the list of nodes and whether some encryption
  returned \<open>pkmsg\<close>.
\<close>

fun encryptEach ::
  "wabinary \<Rightarrow> 'w env \<Rightarrow> credsMe \<Rightarrow> (string \<Rightarrow> string option) \<Rightarrow> message option
     \<Rightarrow> (string \<times> message) list \<Rightarrow> (node list \<times> bool, 'w) io" where
  "encryptEach W E me extraAttrs dsmMessage [] = ret ([], False)"
| "encryptEach W E me extraAttrs dsmMessage ((jid, patchedMessage) # rest) =
     (if \<not> truthy jid then encryptEach W E me extraAttrs dsmMessage rest
      else
        (case msgToEncrypt W me dsmMessage jid patchedMessage of
           Inl e \<Rightarrow> throw e
         | Inr m \<Rightarrow>
             andThen
               (if compatV6GroupSend E
                then tryCatch
                       (andThen (doEncryptMessage E jid (encodeWAMessage E m)) (\<lambda>r. ret (Some r)))
                       (\<lambda>err. ret None)
                else andThen (doEncryptMessage E jid (encodeWAMessage E m)) (\<lambda>r. ret (Some r)))
               (\<lambda>encResult.
                  andThen (encryptEach W E me extraAttrs dsmMessage rest)
                    (\<lambda>more.
                       ret (case encResult of
                              None \<Rightarrow> more
                            | Some r \<Rightarrow>
                                (toNode jid (fst r) (snd r) extraAttrs # fst more,
                                 fst r = Pkmsg \<or> snd more))))))"

definition createParticipantNodes ::
  "wabinary \<Rightarrow> 'w env \<Rightarrow> string list \<Rightarrow> message \<Rightarrow> (string \<Rightarrow> string option)
     \<Rightarrow> message option \<Rightarrow> (node list \<times> bool, 'w) io" where
  "createParticipantNodes W E recipientJids m extraAttrs dsmMessage =
     (if recipientJids = [] then ret ([], False)
      else
        (case patchMessageBeforeSending E of
           None \<Rightarrow> throw TypeError
         | Some patch \<Rightarrow>
             andThen (call (patch m (Some recipientJids)))
               (\<lambda>patched.
                  case creds_me E of
                    None \<Rightarrow> throw TypeError
                  | Some me \<Rightarrow>
                      encryptEach W E me extraAttrs dsmMessage
                        (case patched of
                           PerJid ps \<Rightarrow> ps
                         | Single pm \<Rightarrow> map (\<lambda>jid. (jid, pm)) recipientJids))))"

subsection \<open>The arguments and the local variables of relayMessage\<close>

record relayParticipant =
  rp_jid :: string
  rp_count :: int

record relayOptions =
  o_messageId :: "string option"
  o_participant :: "relayParticipant option"
  o_additionalAttributes :: "(string \<Rightarrow> string option) option"
  o_additionalNodes :: "node list option"
  o_useUserDevicesCache :: "bool option"
  o_useCachedGroupMetadata :: "bool option"
  o_statusJidList :: "string list option"

text \<open>
  The local variables that the group branch and the direct branch leave for the
  assembly of the stanza (line 1032). \<open>additionalAttributes\<close> is an object or
  \<open>undefined\<close>; every use spreads it or reads a key with \<open>?.\<close>, so the model keeps
  the object, empty for \<open>undefined\<close>.
\<close>

record relayLocals =
  l_participants :: "node list"
  l_binaryNodeContent :: "node list"
  l_additionalAttributes :: "string \<Rightarrow> string option"
  l_shouldIncludeDeviceIdentity :: bool

definition spread :: "(string \<Rightarrow> string option) option \<Rightarrow> string \<Rightarrow> string option" where
  "spread a = (case a of None \<Rightarrow> Map.empty | Some m \<Rightarrow> m)"

definition isRetryResend :: "relayParticipant option \<Rightarrow> bool" where
  "isRetryResend participant = (case participant of None \<Rightarrow> False | Some p \<Rightarrow> truthy (rp_jid p))"

text \<open>Lines 690 to 693 and 718 to 720: the attributes added to every \<open>enc\<close> node.\<close>

definition extraAttrsOf :: "'w env \<Rightarrow> message \<Rightarrow> string \<Rightarrow> string option" where
  "extraAttrsOf E m =
     (let a1 = (if truthy (getMediaType m) then [''mediatype'' \<mapsto> getMediaType m] else Map.empty)
      in if (case normalizeMessageContent E m of None \<Rightarrow> False | Some n \<Rightarrow> has n ''pinInChatMessage'')
         then a1(''decrypt-fail'' \<mapsto> ''hide'') else a1)"

subsection \<open>The group and status branch (lines 722 to 930)\<close>

text \<open>
  The code starts the resolution of the group metadata and the read of the sender-key
  memory together (\<open>Promise.all\<close>); the model runs the first to its end, then the
  second. The read of \<open>getLIDMappings\<close> (lines 784 to 789) only feeds a log line and
  is left out.
\<close>

definition truthyNumber :: "int option \<Rightarrow> bool" where
  "truthyNumber n = (case n of None \<Rightarrow> False | Some v \<Rightarrow> v \<noteq> 0)"

definition orZero :: "int option \<Rightarrow> int" where
  "orZero n = (case n of None \<Rightarrow> 0 | Some v \<Rightarrow> v)"

definition CACHE_MAX_AGE :: int where
  "CACHE_MAX_AGE = 5 * 60 * 1000"

text \<open>Lines 757 to 764: group metadata built from the groups socket's own cache.\<close>

definition groupDataOfCache :: "cachedGroup \<Rightarrow> string list \<Rightarrow> groupData" where
  "groupDataOfCache cached ids =
     \<lparr> gd_addressingMode = cg_addressingMode cached,
       gd_participants = Some (map (\<lambda>i. \<lparr> p_id = i, p_lid = None \<rparr>) ids),
       gd_ephemeralDuration = None,
       gd_cachedAt = None \<rparr>"

definition fetchGroupMetadata :: "'w env \<Rightarrow> string \<Rightarrow> (groupData option, 'w) io" where
  "fetchGroupMetadata E jid = andThen (call (groupMetadata E jid)) (\<lambda>g. ret (Some g))"

text \<open>Lines 741 to 772: the groups socket's own cache, then the server.\<close>

definition fromInternalCache :: "'w env \<Rightarrow> string \<Rightarrow> (groupData option, 'w) io" where
  "fromInternalCache E jid =
     andThen
       (case getCachedGroupMetadata E of None \<Rightarrow> ret None | Some f \<Rightarrow> reads (f jid))
       (\<lambda>cached.
          case cached of
            None \<Rightarrow> fetchGroupMetadata E jid
          | Some c \<Rightarrow>
              (case cg_participants c of
                 None \<Rightarrow> fetchGroupMetadata E jid
               | Some ids \<Rightarrow>
                   if ids = [] then fetchGroupMetadata E jid
                   else
                     andThen (reads (dateNow E))
                       (\<lambda>now.
                          if now - orZero (cg_updatedAt c) < CACHE_MAX_AGE
                          then ret (Some (groupDataOfCache c ids))
                          else fetchGroupMetadata E jid)))"

text \<open>Lines 724 to 776.\<close>

definition resolveGroupData :: "'w env \<Rightarrow> string \<Rightarrow> bool \<Rightarrow> bool \<Rightarrow> (groupData option, 'w) io" where
  "resolveGroupData E jid isStatus useCachedGroupMetadata =
     andThen
       (if useCachedGroupMetadata
        then (case cachedGroupMetadata E of Some f \<Rightarrow> call (f jid) | None \<Rightarrow> ret None)
        else ret None)
       (\<lambda>fromUser.
          andThen
            (case fromUser of
               None \<Rightarrow> ret None
             | Some g \<Rightarrow>
                 if truthyNumber (gd_cachedAt g)
                 then andThen (reads (dateNow E))
                        (\<lambda>now. ret (if now - orZero (gd_cachedAt g) > CACHE_MAX_AGE
                                      then None else Some g))
                 else ret (Some g))
            (\<lambda>groupData.
               if (case groupData of None \<Rightarrow> False | Some g \<Rightarrow> gd_participants g \<noteq> None)
               then ret groupData
               else if \<not> isStatus then fromInternalCache E jid
               else ret groupData))"

text \<open>Lines 777 to 795.\<close>

definition loadSenderKeyMap ::
  "'w env \<Rightarrow> string \<Rightarrow> bool \<Rightarrow> relayParticipant option \<Rightarrow> (string \<Rightarrow> bool option, 'w) io" where
  "loadSenderKeyMap E jid isStatus participant =
     (if participant = None \<and> \<not> isStatus
      then andThen (call (keysGetSenderKeyMemory E jid))
             (\<lambda>result. ret (case result of None \<Rightarrow> Map.empty | Some m \<Rightarrow> m))
      else ret Map.empty)"

definition addressingModeOf :: "groupData option \<Rightarrow> string option" where
  "addressingModeOf groupData = (case groupData of None \<Rightarrow> None | Some g \<Rightarrow> gd_addressingMode g)"

text \<open>Line 799: \<open>p.lid || p.id\<close>.\<close>

definition lidOrId :: "participantRef \<Rightarrow> string" where
  "lidOrId p = (case p_lid p of None \<Rightarrow> p_id p | Some l \<Rightarrow> if truthy l then l else p_id p)"

text \<open>Lines 807 and 808: \<open>lidMap.get(p) || p\<close> for the map made of the \<open>(pn, lid)\<close> pairs.\<close>

definition lidMapGetOr :: "(string \<times> string) list \<Rightarrow> string \<Rightarrow> string" where
  "lidMapGetOr lidMappings p =
     (case map_of (rev lidMappings) p of None \<Rightarrow> p | Some l \<Rightarrow> if truthy l then l else p)"

text \<open>Lines 799 to 816: the participants whose devices are to be resolved.\<close>

definition groupParticipantsList ::
  "wabinary \<Rightarrow> 'w env \<Rightarrow> bool \<Rightarrow> groupData option \<Rightarrow> string list option \<Rightarrow> (string list, 'w) io" where
  "groupParticipantsList W E isStatus groupData statusJidList =
     (case (case groupData of
              None \<Rightarrow> Inr []
            | Some g \<Rightarrow>
                if isStatus then Inr []
                else (case gd_participants g of
                        None \<Rightarrow> Inl TypeError
                      | Some ps \<Rightarrow> Inr (map lidOrId ps))) of
        Inl e \<Rightarrow> throw e
      | Inr participantsList \<Rightarrow>
          andThen
            (if \<not> isStatus \<and> addressingModeOf groupData = Some ''lid''
                \<and> filter (isPnUser W) participantsList \<noteq> []
             then andThen (call (lidMapping_getLIDsForPNs E (filter (isPnUser W) participantsList)))
                    (\<lambda>lidMappings.
                       ret (case lidMappings of
                              None \<Rightarrow> participantsList
                            | Some ms \<Rightarrow>
                                if ms \<noteq> [] then map (lidMapGetOr ms) participantsList
                                else participantsList))
             else ret participantsList)
            (\<lambda>participantsList.
               ret (if isStatus
                    then (case statusJidList of
                            None \<Rightarrow> participantsList
                          | Some l \<Rightarrow> participantsList @ l)
                    else participantsList)))"

text \<open>Lines 836 to 843: the sender's own primary device, unless the devices hold it.\<close>

definition ownPrimaryDevice ::
  "wabinary \<Rightarrow> credsMe \<Rightarrow> groupData option \<Rightarrow> device list \<Rightarrow> device list" where
  "ownPrimaryDevice W me groupData additionalDevices =
     (let isLidGroup = (addressingModeOf groupData = Some ''lid'');
          myJid = (if isLidGroup then me_lid me else Some (me_id me));
          myUser = (case myJid of None \<Rightarrow> None | Some j \<Rightarrow> map_option fj_user (jidDecode W j));
          Mephone = list_ex (\<lambda>d. Some (d_user d) = myUser \<and> d_device d = Some 0) additionalDevices
      in case myUser of
           None \<Rightarrow> []
         | Some u \<Rightarrow>
             (case myJid of
                None \<Rightarrow> []
              | Some j \<Rightarrow>
                  if \<not> Mephone \<and> truthy u \<and> truthy j
                  then [\<lparr> d_user = u, d_device = Some 0, d_jid = jidNormalizedUser W j \<rparr>]
                  else []))"

text \<open>
  Lines 798 to 844, run when no \<open>participant\<close> is given: the devices to send to and
  the attributes of the stanza.
\<close>

definition groupDevices ::
  "wabinary \<Rightarrow> 'w env \<Rightarrow> credsMe \<Rightarrow> bool \<Rightarrow> groupData option \<Rightarrow> relayOptions
     \<Rightarrow> (string \<Rightarrow> string option) \<Rightarrow> (device list \<times> (string \<Rightarrow> string option), 'w) io" where
  "groupDevices W E me isStatus groupData opts additionalAttributes =
     andThen (groupParticipantsList W E isStatus groupData (o_statusJidList opts))
       (\<lambda>participantsList.
          andThen (getUSyncDevices W E participantsList (o_useUserDevicesCache opts \<noteq> Some False) False)
            (\<lambda>additionalDevices.
               ret (additionalDevices @ ownPrimaryDevice W me groupData additionalDevices,
                    (if \<not> isStatus
                     then additionalAttributes
                            (''addressing_mode'' \<mapsto>
                               (case addressingModeOf groupData of
                                  None \<Rightarrow> ''pn''
                                | Some a \<Rightarrow> if truthy a then a else ''pn''))
                     else additionalAttributes))))"

text \<open>Lines 880 to 885: the JID the sender key goes to, for one device.\<close>

definition senderId :: "wabinary \<Rightarrow> device \<Rightarrow> string" where
  "senderId W d =
     jidEncode W (Some (d_user d))
       (Some (case jidDecode W (d_jid d) of
                None \<Rightarrow> ''lid''
              | Some decoded \<Rightarrow> if truthy (fj_server decoded) then fj_server decoded else ''lid''))
       (d_device d)"

definition markAll :: "(string \<Rightarrow> bool option) \<Rightarrow> string list \<Rightarrow> (string \<Rightarrow> bool option)" where
  "markAll senderKeyMap senderKeyJids = foldl (\<lambda>m j. m(j \<mapsto> True)) senderKeyMap senderKeyJids"

text \<open>
  Lines 889 to 905: the sender key goes pairwise to the devices of \<open>senderKeyJids\<close>,
  after their sessions are asserted.
\<close>

definition distributeSenderKey ::
  "wabinary \<Rightarrow> 'w env \<Rightarrow> string \<Rightarrow> (string \<Rightarrow> string option) \<Rightarrow> bytes \<Rightarrow> string list
     \<Rightarrow> (node list \<times> bool, 'w) io" where
  "distributeSenderKey W E jid extraAttrs senderKeyDistributionMessage senderKeyJids =
     (if senderKeyJids \<noteq> []
      then andThen (assertSessions E senderKeyJids)
             (\<lambda>fetched.
                createParticipantNodes W E senderKeyJids
                  (SenderKeyDistributionMessage senderKeyDistributionMessage jid) extraAttrs None)
      else ret ([], False))"

text \<open>
  Lines 907 to 930: on a resend the message is encrypted pairwise for the participant
  and the \<open>enc\<close> node carries the count; otherwise the \<open>enc\<close> node carries the group
  ciphertext and the sender-key map goes to the key store.
\<close>

definition groupEncNode ::
  "'w env \<Rightarrow> string \<Rightarrow> relayParticipant option \<Rightarrow> (string \<Rightarrow> string option) \<Rightarrow> bytes \<Rightarrow> bytes
     \<Rightarrow> (string \<Rightarrow> bool option) \<Rightarrow> (node, 'w) io" where
  "groupEncNode E jid participant extraAttrs bytes ciphertext senderKeyMap =
     (if isRetryResend participant
      then (case participant of
              None \<Rightarrow> throw TypeError
            | Some p \<Rightarrow>
                andThen (doEncryptMessage E (rp_jid p) bytes)
                  (\<lambda>enc.
                     ret (Node ''enc''
                            [''v'' \<mapsto> ''2'', ''type'' \<mapsto> ctypeString (fst enc),
                             ''count'' \<mapsto> intToString (rp_count p)]
                            (Bytes (snd enc)))))
      else andThen (call (keysSetSenderKeyMemory E jid senderKeyMap))
             (\<lambda>u. ret (Node ''enc'' ([''v'' \<mapsto> ''2'', ''type'' \<mapsto> ''skmsg''] ++ extraAttrs)
                           (Bytes ciphertext))))"

text \<open>
  Lines 846 to 930: the group message is encrypted once; every device of \<open>devices\<close>
  is put into \<open>senderKeyJids\<close> and marked in the sender-key map; the sender key goes
  to them pairwise; then the \<open>enc\<close> node of the stanza is built.
\<close>

definition sendToGroup ::
  "wabinary \<Rightarrow> 'w env \<Rightarrow> credsMe \<Rightarrow> string \<Rightarrow> message \<Rightarrow> relayParticipant option
     \<Rightarrow> (string \<Rightarrow> string option) \<Rightarrow> (string \<Rightarrow> string option) \<Rightarrow> groupData option
     \<Rightarrow> (string \<Rightarrow> bool option) \<Rightarrow> device list \<Rightarrow> (relayLocals, 'w) io" where
  "sendToGroup W E me jid m participant extraAttrs additionalAttributes groupData senderKeyMap devices =
     (case patchMessageBeforeSending E of
        None \<Rightarrow> throw TypeError
      | Some patch \<Rightarrow>
          andThen (call (patch m None))
            (\<lambda>patched.
               case patched of
                 PerJid ps \<Rightarrow> throw (Boom ''Per-jid patching is not supported in groups'')
               | Single pm \<Rightarrow>
                   andThen
                     (call (encryptGroupMessage E jid (encodeWAMessage E pm)
                              (case me_lid me of
                                 None \<Rightarrow> me_id me
                               | Some l \<Rightarrow>
                                   if addressingModeOf groupData = Some ''lid'' \<and> truthy l
                                   then l else me_id me)))
                     (\<lambda>groupEnc.
                        andThen
                          (distributeSenderKey W E jid extraAttrs (snd groupEnc)
                             (map (senderId W) devices))
                          (\<lambda>result.
                             andThen
                               (groupEncNode E jid participant extraAttrs (encodeWAMessage E pm)
                                  (fst groupEnc)
                                  (markAll senderKeyMap (map (senderId W) devices)))
                               (\<lambda>encNode.
                                  ret \<lparr> l_participants = fst result,
                                        l_binaryNodeContent = [encNode],
                                        l_additionalAttributes =
                                          (case (case groupData of
                                                   None \<Rightarrow> None
                                                 | Some g \<Rightarrow> gd_ephemeralDuration g) of
                                             None \<Rightarrow> additionalAttributes
                                           | Some eph \<Rightarrow>
                                               if eph > 0
                                               then additionalAttributes
                                                      (''expiration'' \<mapsto> intToString eph)
                                               else additionalAttributes),
                                        l_shouldIncludeDeviceIdentity =
                                          (isRetryResend participant \<or> snd result) \<rparr>)))))"

text \<open>Lines 722 to 930 as a whole; \<open>devices\<close> holds the participant's device on a resend.\<close>

definition groupBranch ::
  "wabinary \<Rightarrow> 'w env \<Rightarrow> credsMe \<Rightarrow> string \<Rightarrow> message \<Rightarrow> relayOptions \<Rightarrow> bool
     \<Rightarrow> (string \<Rightarrow> string option) \<Rightarrow> device list \<Rightarrow> (relayLocals, 'w) io" where
  "groupBranch W E me jid m opts isStatus additionalAttributes devices =
     andThen
       (resolveGroupData E jid isStatus (o_useCachedGroupMetadata opts \<noteq> Some False \<and> \<not> isStatus))
       (\<lambda>groupData.
          andThen (loadSenderKeyMap E jid isStatus (o_participant opts))
            (\<lambda>senderKeyMap.
               andThen
                 (if o_participant opts = None
                  then andThen (groupDevices W E me isStatus groupData opts additionalAttributes)
                         (\<lambda>r. ret (devices @ fst r, snd r))
                  else ret (devices, additionalAttributes))
                 (\<lambda>r. sendToGroup W E me jid m (o_participant opts) (extraAttrsOf E m) (snd r)
                          groupData senderKeyMap (fst r))))"

subsection \<open>The direct branch (lines 931 to 1030)\<close>

text \<open>
  Lines 944 to 985, run when no \<open>participant\<close> is given: a peer message goes to the
  placeholder devices (device 0 of the target and, when the target is not the sender,
  of the sender); any other message goes to the devices USync gives for the sender and
  the target. \<open>usr\<close> is the user of the destination, \<open>isLid\<close> says whether its
  server is \<open>lid\<close>.
\<close>

definition directDevices ::
  "wabinary \<Rightarrow> 'w env \<Rightarrow> credsMe \<Rightarrow> string \<Rightarrow> string \<Rightarrow> bool \<Rightarrow> string
     \<Rightarrow> (string \<Rightarrow> string option) \<Rightarrow> (device list, 'w) io" where
  "directDevices W E me jid usr isLid ownUser additionalAttributes =
     (let lidIdentity = (isLid \<and> truthyOpt (me_lid me));
          srv = (if isLid then ''lid'' else ''s.whatsapp.net'');
          meLidDecoded = (case me_lid me of None \<Rightarrow> None | Some l \<Rightarrow> jidDecode W l);
          target = \<lparr> d_user = usr, d_device = Some 0,
                     d_jid = jidEncode W (Some usr) (Some srv) (Some 0) \<rparr>
      in case (if usr \<noteq> ownUser
               then (case (if lidIdentity then meLidDecoded else jidDecode W (me_id me)) of
                       None \<Rightarrow> Inl TypeError
                     | Some own \<Rightarrow>
                         Inr [target,
                              \<lparr> d_user = fj_user own, d_device = Some 0,
                                d_jid = jidEncode W (Some (fj_user own)) (Some srv) (Some 0) \<rparr>])
               else Inr [target]) of
           Inl e \<Rightarrow> throw e
         | Inr placeholders \<Rightarrow>
             if additionalAttributes ''category'' \<noteq> Some ''peer''
             then
               getUSyncDevices W E
                 [(if lidIdentity
                   then jidEncode W (map_option fj_user meLidDecoded) (Some ''lid'') None
                   else jidEncode W (map_option fj_user (jidDecode W (me_id me)))
                          (Some ''s.whatsapp.net'') None),
                  jid]
                 True False
             else ret placeholders)"

text \<open>
  Lines 993 to 1010: the exact sender device is skipped; the other devices are the
  sender's own (\<open>meRecipients\<close>) or not (\<open>otherRecipients\<close>).
\<close>

definition recipientsOf :: "credsMe \<Rightarrow> device list \<Rightarrow> device list" where
  "recipientsOf me devices = filter (\<lambda>d. \<not> isExactSenderDevice me (d_jid d)) devices"

definition isMe :: "string \<Rightarrow> string option \<Rightarrow> device \<Rightarrow> bool" where
  "isMe mePnUser meLidUser d = (d_user d = mePnUser \<or> Some (d_user d) = meLidUser)"

text \<open>
  Lines 987 to 1029: sessions are asserted for all recipients; the sender's own devices
  get the message wrapped as a device-sent message, the others get the message itself
  (and are given the wrapped one as \<open>dsmMessage\<close>).
\<close>

definition sendToRecipients ::
  "wabinary \<Rightarrow> 'w env \<Rightarrow> credsMe \<Rightarrow> string \<Rightarrow> message \<Rightarrow> relayOptions
     \<Rightarrow> (string \<Rightarrow> string option) \<Rightarrow> string \<Rightarrow> string option \<Rightarrow> device list
     \<Rightarrow> (relayLocals, 'w) io" where
  "sendToRecipients W E me jid m opts additionalAttributes mePnUser meLidUser devices =
     andThen (assertSessions E (map d_jid (recipientsOf me devices)))
       (\<lambda>fetched.
          andThen
            (createParticipantNodes W E
               (map d_jid (filter (isMe mePnUser meLidUser) (recipientsOf me devices)))
               (DeviceSentMessage jid m) (extraAttrsOf E m) None)
            (\<lambda>r1.
               andThen
                 (createParticipantNodes W E
                    (map d_jid (filter (\<lambda>d. \<not> isMe mePnUser meLidUser d) (recipientsOf me devices)))
                    m (extraAttrsOf E m) (Some (DeviceSentMessage jid m)))
                 (\<lambda>r2.
                    ret \<lparr> l_participants = fst r1 @ fst r2,
                          l_binaryNodeContent = [],
                          l_additionalAttributes = additionalAttributes,
                          l_shouldIncludeDeviceIdentity =
                            (isRetryResend (o_participant opts) \<or> snd r1 \<or> snd r2) \<rparr>)))"

text \<open>Line 991: \<open>meLid ? jidDecode(meLid)! : { user: null }\<close>.\<close>

definition meLidUserOf :: "wabinary \<Rightarrow> credsMe \<Rightarrow> error + string option" where
  "meLidUserOf W me =
     (case me_lid me of
        None \<Rightarrow> Inr None
      | Some l \<Rightarrow>
          if truthy l
          then (case jidDecode W l of None \<Rightarrow> Inl TypeError | Some d \<Rightarrow> Inr (Some (fj_user d)))
          else Inr None)"

text \<open>Lines 934 to 940: the sender's LID in a LID conversation, else the phone-number id.\<close>

definition ownIdOf :: "credsMe \<Rightarrow> bool \<Rightarrow> string" where
  "ownIdOf me isLid =
     (case me_lid me of
        None \<Rightarrow> me_id me
      | Some l \<Rightarrow> if isLid \<and> truthy l then l else me_id me)"

definition directBranch ::
  "wabinary \<Rightarrow> 'w env \<Rightarrow> credsMe \<Rightarrow> string \<Rightarrow> string \<Rightarrow> bool \<Rightarrow> message \<Rightarrow> relayOptions
     \<Rightarrow> (string \<Rightarrow> string option) \<Rightarrow> device list \<Rightarrow> (relayLocals, 'w) io" where
  "directBranch W E me jid usr isLid m opts additionalAttributes devices0 =
     (case jidDecode W (ownIdOf me isLid) of
        None \<Rightarrow> throw TypeError
      | Some own \<Rightarrow>
          andThen
            (if o_participant opts = None
             then directDevices W E me jid usr isLid (fj_user own) additionalAttributes
             else ret devices0)
            (\<lambda>devices.
               case jidDecode W (me_id me) of
                 None \<Rightarrow> throw TypeError
               | Some mePn \<Rightarrow>
                   (case meLidUserOf W me of
                      Inl e \<Rightarrow> throw e
                    | Inr meLidUser \<Rightarrow>
                        sendToRecipients W E me jid m opts additionalAttributes
                          (fj_user mePn) meLidUser devices)))"

subsection \<open>The stanza (lines 1032 to 1107)\<close>

text \<open>\<open>participants[0]?.content?.[0]\<close>.\<close>

definition peerNode :: "node list \<Rightarrow> node option" where
  "peerNode participants =
     (case participants of
        [] \<Rightarrow> None
      | p # ps \<Rightarrow> (case content p of Children (c # cs) \<Rightarrow> Some c | other \<Rightarrow> None))"

text \<open>Lines 1048 to 1074: the attributes of the stanza and its routing.\<close>

definition stanzaAttrs ::
  "wabinary \<Rightarrow> credsMe \<Rightarrow> string \<Rightarrow> string \<Rightarrow> message \<Rightarrow> relayParticipant option
     \<Rightarrow> (string \<Rightarrow> string option) \<Rightarrow> string \<Rightarrow> string option" where
  "stanzaAttrs W me jid msgId m participant additionalAttributes =
     (let a = [''id'' \<mapsto> msgId, ''to'' \<mapsto> jid, ''type'' \<mapsto> getMessageType m] ++ additionalAttributes
      in case participant of
           Some p \<Rightarrow>
             if isJidGroup W jid then a(''to'' \<mapsto> jid, ''participant'' \<mapsto> rp_jid p)
             else if areJidsSameUser W (rp_jid p) (me_id me)
               then a(''to'' \<mapsto> rp_jid p, ''recipient'' \<mapsto> jid)
               else a(''to'' \<mapsto> rp_jid p)
         | None \<Rightarrow> a(''to'' \<mapsto> jid))"

text \<open>Lines 1087 to 1102: the business node of a message with buttons.\<close>

definition bizNodes :: "message \<Rightarrow> node list" where
  "bizNodes m =
     (case getButtonType m of
        None \<Rightarrow> []
      | Some buttonType \<Rightarrow>
          [Node ''biz'' Map.empty
             (Children
                [Node buttonType (getButtonArgs m)
                   (if buttonType \<noteq> ''list'' then Children (getButtonContent m) else NoContent)])])"

definition buildStanza ::
  "wabinary \<Rightarrow> 'w env \<Rightarrow> credsMe \<Rightarrow> string \<Rightarrow> string \<Rightarrow> message \<Rightarrow> relayOptions
     \<Rightarrow> relayLocals \<Rightarrow> (node, 'w) io" where
  "buildStanza W E me jid msgId m opts L =
     andThen
       (if l_shouldIncludeDeviceIdentity L
        then andThen (call (encodeSignedDeviceIdentity E))
               (\<lambda>b. ret [Node ''device-identity'' Map.empty (Bytes b)])
        else ret [])
       (\<lambda>deviceIdentity.
          ret (Node ''message''
                 (stanzaAttrs W me jid msgId m (o_participant opts) (l_additionalAttributes L))
                 (Children
                    (l_binaryNodeContent L
                     @ (if l_participants L \<noteq> []
                        then (if l_additionalAttributes L ''category'' = Some ''peer''
                              then (case peerNode (l_participants L) of
                                      None \<Rightarrow> [] | Some n \<Rightarrow> [n])
                              else [Node ''participants'' Map.empty (Children (l_participants L))])
                        else [])
                     @ deviceIdentity
                     @ bizNodes m
                     @ (case o_additionalNodes opts of None \<Rightarrow> [] | Some ns \<Rightarrow> ns)))))"

subsection \<open>relayMessage (lines 630 to 1120)\<close>

text \<open>Lines 695 to 716: a newsletter gets the message as plaintext, and nothing else.\<close>

definition newsletterBranch ::
  "'w env \<Rightarrow> string \<Rightarrow> string \<Rightarrow> message \<Rightarrow> (string \<Rightarrow> string option) \<Rightarrow> (unit, 'w) io" where
  "newsletterBranch E jid msgId m additionalAttributes =
     andThen
       (case patchMessageBeforeSending E of
          None \<Rightarrow> ret (Single m)
        | Some patch \<Rightarrow> call (patch m (Some [])))
       (\<lambda>patched.
          doSendNode E
            (Node ''message''
               ([''to'' \<mapsto> jid, ''id'' \<mapsto> msgId, ''type'' \<mapsto> getMessageType m] ++ additionalAttributes)
               (Children [Node ''plaintext'' Map.empty (Bytes (encodeNewsletterMessage E patched))])))"

text \<open>Line 657: \<open>msgId || generateMessageIDV2(meId)\<close>.\<close>

definition messageIdOf :: "'w env \<Rightarrow> credsMe \<Rightarrow> relayOptions \<Rightarrow> (string, 'w) io" where
  "messageIdOf E me opts =
     (case o_messageId opts of
        None \<Rightarrow> call (generateMessageIDV2 E (me_id me))
      | Some i \<Rightarrow> if truthy i then ret i else call (generateMessageIDV2 E (me_id me)))"

text \<open>
  Lines 676 to 687: with a \<open>participant\<close>, a destination that is neither a group nor
  the status feed gets \<open>device_fanout=false\<close>, and the participant's device is the
  first of \<open>devices\<close>; its JID must decode.
\<close>

definition initialAttributes :: "relayOptions \<Rightarrow> fulljid \<Rightarrow> string \<Rightarrow> string \<Rightarrow> string option" where
  "initialAttributes opts decoded jid =
     (if o_participant opts \<noteq> None \<and> fj_server decoded \<noteq> ''g.us'' \<and> jid \<noteq> ''status@broadcast''
      then (spread (o_additionalAttributes opts))(''device_fanout'' \<mapsto> ''false'')
      else spread (o_additionalAttributes opts))"

definition participantDevice :: "wabinary \<Rightarrow> relayParticipant option \<Rightarrow> error + device list" where
  "participantDevice W participant =
     (case participant of
        None \<Rightarrow> Inr []
      | Some p \<Rightarrow>
          (case jidDecode W (rp_jid p) of
             None \<Rightarrow> Inl TypeError
           | Some pd \<Rightarrow> Inr [\<lparr> d_user = fj_user pd, d_device = fj_device pd, d_jid = rp_jid p \<rparr>]))"

text \<open>Line 722: a group (server \<open>g.us\<close>) and the status feed go one way, the rest the other.\<close>

definition relayBranch ::
  "wabinary \<Rightarrow> 'w env \<Rightarrow> credsMe \<Rightarrow> string \<Rightarrow> fulljid \<Rightarrow> message \<Rightarrow> relayOptions \<Rightarrow> device list
     \<Rightarrow> (relayLocals, 'w) io" where
  "relayBranch W E me jid decoded m opts devices =
     (if fj_server decoded = ''g.us'' \<or> jid = ''status@broadcast''
      then groupBranch W E me jid m opts (jid = ''status@broadcast'')
             (initialAttributes opts decoded jid) devices
      else directBranch W E me jid (fj_user decoded) (fj_server decoded = ''lid'') m opts
             (initialAttributes opts decoded jid) devices)"

text \<open>Lines 1113 to 1116: the message is kept for a later resend, unless this is one.\<close>

definition remember :: "'w env \<Rightarrow> string \<Rightarrow> string \<Rightarrow> message \<Rightarrow> relayOptions \<Rightarrow> (unit, 'w) io" where
  "remember E jid msgId m opts =
     (case addRecentMessage E of
        None \<Rightarrow> ret ()
      | Some add \<Rightarrow> if o_participant opts = None then call (add jid msgId m) else ret ())"

text \<open>
  The key-store transaction around lines 690 to 1116 runs its body; what it commits or
  rolls back is the key store's business. The result is the message id. The hash that
  line 1026 puts into \<open>extraAttrs\<close> after the nodes are built reaches no node and is
  left out.
\<close>

definition relayMessage ::
  "wabinary \<Rightarrow> 'w env \<Rightarrow> string \<Rightarrow> message \<Rightarrow> relayOptions \<Rightarrow> (string, 'w) io" where
  "relayMessage W E jid m opts =
     (case creds_me E of
        None \<Rightarrow> throw TypeError
      | Some me \<Rightarrow>
          (case jidDecode W jid of
             None \<Rightarrow> throw TypeError
           | Some decoded \<Rightarrow>
               andThen (messageIdOf E me opts)
                 (\<lambda>msgId.
                    case participantDevice W (o_participant opts) of
                      Inl e \<Rightarrow> throw e
                    | Inr devices \<Rightarrow>
                        if fj_server decoded = ''newsletter''
                        then andThen
                               (newsletterBranch E jid msgId m (initialAttributes opts decoded jid))
                               (\<lambda>u. ret msgId)
                        else
                          andThen (relayBranch W E me jid decoded m opts devices)
                            (\<lambda>L.
                               andThen (buildStanza W E me jid msgId m opts L)
                                 (\<lambda>stanza.
                                    andThen (doSendNode E stanza)
                                      (\<lambda>u. andThen (remember E jid msgId m opts)
                                              (\<lambda>u. ret msgId)))))))"

section \<open>Observations that a run leaves untouched\<close>

text \<open>
  \<open>preserves g m\<close>: no run of \<open>m\<close>, whether it returns or throws, changes the
  observation \<open>g\<close> of the system (the nodes sent, for instance).
\<close>

definition preserves :: "('w sys \<Rightarrow> 'x) \<Rightarrow> ('a, 'w) io \<Rightarrow> bool" where
  "preserves g m = (\<forall>s. g (snd (m s)) = g s)"

section \<open>Observations on a stanza\<close>

text \<open>An \<open>enc\<close> node of type \<open>skmsg\<close>.\<close>

definition isSkmsgEnc :: "node \<Rightarrow> bool" where
  "isSkmsgEnc c = (tag c = ''enc'' \<and> attrs c ''type'' = Some ''skmsg'')"


text \<open>
  No \<open>count\<close> attribute on the given nodes, on their children and on the children of
  those (an \<open>enc\<close> node built by the relay is a child of the stanza or of a \<open>to\<close>
  node under \<open>participants\<close>).
\<close>

definition noCount :: "node list \<Rightarrow> bool" where
  "noCount ns =
     list_all (\<lambda>c. attrs c ''count'' = None
                 \<and> list_all (\<lambda>t. attrs t ''count'' = None
                               \<and> list_all (\<lambda>e. attrs e ''count'' = None) (children t))
                     (children c)) ns"

definition emptyStore :: lidStore where
  "emptyStore = \<lparr> mappingCache = Map.empty, lidMappingKeys = Map.empty, warnings = [] \<rparr>"

text \<open>A store after a restart: the key store holds one mapping, the cache is empty.\<close>

definition storedStore :: lidStore where
  "storedStore =
     \<lparr> mappingCache = Map.empty,
       lidMappingKeys = [''5511'' \<mapsto> ''77'', ''77_reverse'' \<mapsto> ''5511''],
       warnings = [] \<rparr>"

text \<open>
  Collaborators for concrete runs. The sender is device 2 of user 100 (LID user 900).
  The world counts the pairwise encryptions: the first one returns \<open>pkmsg\<close>, the
  others \<open>msg\<close>. The caller's cache knows one group, \<open>g1@g.us\<close>, with the single
  participant device \<open>111:1@s.whatsapp.net\<close>, which the stored sender-key memory of
  the group already holds.
\<close>

definition refGroup :: groupData where
  "refGroup =
     \<lparr> gd_addressingMode = Some ''pn'',
       gd_participants = Some [\<lparr> p_id = ''111:1@s.whatsapp.net'', p_lid = None \<rparr>],
       gd_ephemeralDuration = None,
       gd_cachedAt = None \<rparr>"

definition refMe :: credsMe where
  "refMe = \<lparr> me_id = ''100:2@s.whatsapp.net'', me_lid = Some ''900:2@lid'' \<rparr>"

definition refEnv :: "nat env" where
  "refEnv =
     \<lparr> compatV6GroupSend = True,
       creds_me = Some refMe,
       sendNode = (\<lambda>n w. (Inr (), w)),
       unixTimestampSeconds = (\<lambda>w. 1700000000),
       dateNow = (\<lambda>w. 1700000000000),
       userDevicesCache_mget = None,
       userDevicesCache_get = (\<lambda>u w. (Inr None, w)),
       userDevicesCache_mset = None,
       userDevicesCache_set = (\<lambda>k ds w. (Inr (), w)),
       executeUSyncQuery = (\<lambda>jids w. (Inr (Some []), w)),
       lidMapping_storeLIDPNMappings = (\<lambda>pairs w. (Inr (), w)),
       lidMapping_getLIDsForPNs = (\<lambda>pns w. (Inr None, w)),
       extractDeviceJids = (\<lambda>lst me lid ignoreZero. []),
       keysSetDeviceList = (\<lambda>upd w. (Inr (), w)),
       keysGetSenderKeyMemory = (\<lambda>jid w. (Inr (Some [''111:1@s.whatsapp.net'' \<mapsto> True]), w)),
       keysSetSenderKeyMemory = (\<lambda>jid m w. (Inr (), w)),
       assertSessionsInternal = (\<lambda>jids w. (Inr False, w)),
       encryptMessage = (\<lambda>jid data w. (Inr (if w = 0 then Pkmsg else Msg, data), Suc w)),
       encryptGroupMessage = (\<lambda>g data me w. (Inr (data, [27]), w)),
       patchMessageBeforeSending = Some (\<lambda>m rs w. (Inr (Single m), w)),
       cachedGroupMetadata = Some (\<lambda>jid w. (Inr (Some refGroup), w)),
       getCachedGroupMetadata = None,
       groupMetadata = (\<lambda>jid w. (Inr refGroup, w)),
       generateMessageIDV2 = (\<lambda>me w. (Inr ''3EB0'', w)),
       generateParticipantHashV2 = (\<lambda>jids. ''2:hash''),
       encodeWAMessage = (\<lambda>m. [21]),
       encodeNewsletterMessage = (\<lambda>p. [22]),
       encodeSignedDeviceIdentity = (\<lambda>w. (Inr [23], w)),
       normalizeMessageContent = (\<lambda>m. Some m),
       addRecentMessage = None \<rparr>"

definition sys0 :: "nat sys" where
  "sys0 = \<lparr> world = 0, sent = [], encrypted = [], asserted = [], usync = [] \<rparr>"


section \<open>Inputs and results of concrete runs of relayMessage\<close>

text \<open>
  A text message with no media, no poll, no buttons.
\<close>

definition refMessage :: message where
  "refMessage = Proto [''conversation''] 0"

text \<open>
  A first send: the caller gives the message id and nothing else.
\<close>

definition refOptions :: relayOptions where
  "refOptions =
     \<lparr> o_messageId = Some ''M1'', o_participant = None, o_additionalAttributes = None,
       o_additionalNodes = None, o_useUserDevicesCache = None, o_useCachedGroupMetadata = None,
       o_statusJidList = None \<rparr>"

text \<open>
  The device a message is sent again to, on its second retry.
\<close>

definition refRetry :: relayParticipant where
  "refRetry = \<lparr> rp_jid = ''111:1@s.whatsapp.net'', rp_count = 2 \<rparr>"

text \<open>
  A resend to that device.
\<close>

definition retryOptions :: relayOptions where
  "retryOptions = refOptions\<lparr>o_participant := Some refRetry\<rparr>"

text \<open>
  The reference collaborators with another \<open>patchMessageBeforeSending\<close> hook.
\<close>

definition patchedEnv ::
  "(message \<Rightarrow> string list option \<Rightarrow> nat \<Rightarrow> (error + patched) \<times> nat) \<Rightarrow> nat env" where
  "patchedEnv P = refEnv\<lparr>patchMessageBeforeSending := Some P\<rparr>"


text \<open>
  The stanza of a resend to \<open>111:1@s.whatsapp.net\<close> in the direct chat with
  \<open>111@s.whatsapp.net\<close>, around the given \<open>to\<close> nodes.
\<close>

definition directRetryStanza :: "node list \<Rightarrow> node" where
  "directRetryStanza nodes =
     Node ''message''
       (stanzaAttrs refWABinary refMe ''111@s.whatsapp.net'' ''M1'' refMessage (Some refRetry)
          [''device_fanout'' \<mapsto> ''false''])
       (Children
          [Node ''participants'' Map.empty (Children nodes),
           Node ''device-identity'' Map.empty (Bytes [23])])"

text \<open>
  The stanza of a first send to the group \<open>g1@g.us\<close>.
\<close>

definition groupStanza :: node where
  "groupStanza =
     Node ''message''
       (stanzaAttrs refWABinary refMe ''g1@g.us'' ''M1'' refMessage None
          [''addressing_mode'' \<mapsto> ''pn''])
       (Children
          [Node ''enc'' ([''v'' \<mapsto> ''2'', ''type'' \<mapsto> ''skmsg''] ++ extraAttrsOf refEnv refMessage)
             (Bytes [21]),
           Node ''participants'' Map.empty
             (Children
                [toNode ''111:1@s.whatsapp.net'' Pkmsg [21] (extraAttrsOf refEnv refMessage),
                 toNode ''100@s.whatsapp.net'' Msg [21] (extraAttrsOf refEnv refMessage)]),
           Node ''device-identity'' Map.empty (Bytes [23])])"

text \<open>
  The stanza of a resend to \<open>111:1@s.whatsapp.net\<close> in the group \<open>g1@g.us\<close>.
\<close>

definition groupRetryStanza :: node where
  "groupRetryStanza =
     Node ''message''
       (stanzaAttrs refWABinary refMe ''g1@g.us'' ''M1'' refMessage (Some refRetry) Map.empty)
       (Children
          [Node ''enc'' [''v'' \<mapsto> ''2'', ''type'' \<mapsto> ''msg'', ''count'' \<mapsto> ''2''] (Bytes [21]),
           Node ''participants'' Map.empty
             (Children
                [toNode ''111:1@s.whatsapp.net'' Pkmsg [21] (extraAttrsOf refEnv refMessage)]),
           Node ''device-identity'' Map.empty (Bytes [23])])"


section \<open>Theorems\<close>

subsection \<open>Laws of the effects, and the reference collaborators field by field\<close>





lemma refEnv_sel:
  "compatV6GroupSend refEnv = True"
  "creds_me refEnv = Some refMe"
  "sendNode refEnv = (\<lambda>n w. (Inr (), w))"
  "userDevicesCache_mget refEnv = None"
  "userDevicesCache_get refEnv = (\<lambda>u w. (Inr None, w))"
  "userDevicesCache_mset refEnv = None"
  "userDevicesCache_set refEnv = (\<lambda>k ds w. (Inr (), w))"
  "executeUSyncQuery refEnv = (\<lambda>jids w. (Inr (Some []), w))"
  "extractDeviceJids refEnv = (\<lambda>lst me lid ignoreZero. [])"
  "keysGetSenderKeyMemory refEnv = (\<lambda>jid w. (Inr (Some [''111:1@s.whatsapp.net'' \<mapsto> True]), w))"
  "keysSetSenderKeyMemory refEnv = (\<lambda>jid m w. (Inr (), w))"
  "assertSessionsInternal refEnv = (\<lambda>jids w. (Inr False, w))"
  "encryptMessage refEnv = (\<lambda>jid data w. (Inr (if w = 0 then Pkmsg else Msg, data), Suc w))"
  "encryptGroupMessage refEnv = (\<lambda>g data me w. (Inr (data, [27]), w))"
  "patchMessageBeforeSending refEnv = Some (\<lambda>m rs w. (Inr (Single m), w))"
  "cachedGroupMetadata refEnv = Some (\<lambda>jid w. (Inr (Some refGroup), w))"
  "getCachedGroupMetadata refEnv = None"
  "generateMessageIDV2 refEnv = (\<lambda>me w. (Inr ''3EB0'', w))"
  "generateParticipantHashV2 refEnv = (\<lambda>jids. ''2:hash'')"
  "encodeWAMessage refEnv = (\<lambda>m. [21])"
  "encodeNewsletterMessage refEnv = (\<lambda>p. [22])"
  "encodeSignedDeviceIdentity refEnv = (\<lambda>w. (Inr [23], w))"
  "normalizeMessageContent refEnv = (\<lambda>m. Some m)"
  "lidMapping_storeLIDPNMappings refEnv = (\<lambda>pairs w. (Inr (), w))"
  "lidMapping_getLIDsForPNs refEnv = (\<lambda>pns w. (Inr None, w))"
  "keysSetDeviceList refEnv = (\<lambda>upd w. (Inr (), w))"
  "groupMetadata refEnv = (\<lambda>jid w. (Inr refGroup, w))"
  "dateNow refEnv = (\<lambda>w. 1700000000000)"
  "unixTimestampSeconds refEnv = (\<lambda>w. 1700000000)"
  "addRecentMessage refEnv = None"
  by (simp_all add: refEnv_def)

subsection \<open>sendReceipt\<close>

text \<open>
  C10. \<open>sendReceipt\<close> called with an empty or a missing \<open>messageIds\<close> list throws
  'missing ids in receipt' before it sends anything: the call leaves the whole system
  state as it found it, so no \<open>receipt\<close> node has been handed to \<open>sendNode\<close> (and no
  collaborator has been called).
\<close>

theorem sendReceipt_missing_ids:
  assumes "messageIds = None \<or> messageIds = Some []"
  shows "sendReceipt W E jid participant messageIds rtype s
           = (Inl (Boom ''missing ids in receipt''), s)"
  using assms by (auto simp: sendReceipt_def throw_def)

theorem sendReceipt_missing_ids_witness:
  "sendReceipt refWABinary refEnv ''111@s.whatsapp.net'' None (Some []) (Some ''read'') sys0
     = (Inl (Boom ''missing ids in receipt''), sys0)
   \<and> sent (snd (sendReceipt refWABinary refEnv ''111@s.whatsapp.net'' None None None sys0)) = []"
  using sendReceipt_missing_ids [of "Some []" refWABinary refEnv "''111@s.whatsapp.net''" None "Some ''read''" sys0]
        sendReceipt_missing_ids [of None refWABinary refEnv "''111@s.whatsapp.net''" None None sys0]
  by (simp add: sys0_def)

subsection \<open>extractGroupMetadata\<close>




subsection \<open>LIDMappingStore\<close>

lemma lookupLidUser_warnings:
  "lookupLidUser (st\<lparr>warnings := w\<rparr>) u
     = (fst (lookupLidUser st u), (snd (lookupLidUser st u))\<lparr>warnings := w\<rparr>)"
  by (simp add: lookupLidUser_def Let_def split: option.splits)

lemma storeLoop_warnings:
  "list_all (validPair W) ps \<Longrightarrow>
   storeLoop W ps pm (st\<lparr>warnings := w\<rparr>)
     = (fst (storeLoop W ps pm st), (snd (storeLoop W ps pm st))\<lparr>warnings := w\<rparr>)"
proof (induction ps arbitrary: pm st)
  case Nil
  then show ?case by simp
next
  case (Cons p ps)
  obtain lid pn where p: "p = (lid, pn)" by (cases p)
  from Cons.prems have v: "validPair W (lid, pn)" and rest: "list_all (validPair W) ps"
    by (simp_all add: p)
  show ?case
    using v Cons.IH [OF rest]
    by (simp add: p Let_def lookupLidUser_warnings split: option.splits)
qed

lemma storeLoop_keeps_warnings:
  "list_all (validPair W) ps \<Longrightarrow> warnings (snd (storeLoop W ps pm st)) = warnings st"
proof (induction ps arbitrary: pm st)
  case Nil
  then show ?case by simp
next
  case (Cons p ps)
  obtain lid pn where p: "p = (lid, pn)" by (cases p)
  from Cons.prems have v: "validPair W (lid, pn)" and rest: "list_all (validPair W) ps"
    by (simp_all add: p)
  have lk: "\<And>u. warnings (snd (lookupLidUser st u)) = warnings st"
    by (simp add: lookupLidUser_def Let_def split: option.splits)
  show ?case
    using v Cons.IH [OF rest] lk
    by (simp add: p Let_def split: option.splits)
qed

lemma storeEntries_keeps_warnings: "warnings (storeEntries es st) = warnings st"
  by (induction es st rule: storeEntries.induct) simp_all

lemma storeEntries_cong:
  "mappingCache st = mappingCache st' \<Longrightarrow> lidMappingKeys st = lidMappingKeys st' \<Longrightarrow>
   mappingCache (storeEntries es st) = mappingCache (storeEntries es st')
   \<and> lidMappingKeys (storeEntries es st) = lidMappingKeys (storeEntries es st')"
proof (induction es arbitrary: st st')
  case Nil
  then show ?case by simp
next
  case (Cons e es)
  obtain pnUser lidUser where e: "e = (pnUser, lidUser)" by (cases e)
  show ?case
    unfolding e storeEntries.simps
    by (rule Cons.IH) (simp_all add: Cons.prems)
qed

lemma storeEntries_warnings:
  "storeEntries es (st\<lparr>warnings := w\<rparr>) = (storeEntries es st)\<lparr>warnings := w\<rparr>"
  using storeEntries_cong [of "st\<lparr>warnings := w\<rparr>" st es]
        storeEntries_keeps_warnings [of es "st\<lparr>warnings := w\<rparr>"]
  by (intro lidStore.equality) simp_all

lemma storeLoop_filter:
  assumes dec: "\<forall>j. isLidUser W j \<or> isPnUser W j \<longrightarrow> jidDecode W j \<noteq> None"
  shows "storeLoop W ps pm st
     = (fst (storeLoop W (filter (validPair W) ps) pm st),
        (snd (storeLoop W (filter (validPair W) ps) pm st))
          \<lparr>warnings := warnings st @ map invalidMappingWarning (filter (\<lambda>p. \<not> validPair W p) ps)\<rparr>)"
proof (induction ps arbitrary: pm st)
  case Nil
  then show ?case by simp
next
  case (Cons p ps)
  obtain lid pn where p: "p = (lid, pn)" by (cases p)
  have all: "list_all (validPair W) (filter (validPair W) ps)"
    by (simp add: list_all_iff)
  show ?case
  proof (cases "validPair W (lid, pn)")
    case False
    then show ?thesis
      using Cons.IH [of pm "st\<lparr>warnings := warnings st @ [invalidMappingWarning (lid, pn)]\<rparr>"]
      by (simp add: p storeLoop_warnings [OF all])
  next
    case True
    have lk: "\<And>u. warnings (snd (lookupLidUser st u)) = warnings st"
      by (simp add: lookupLidUser_def Let_def split: option.splits)
    from True have "jidDecode W lid \<noteq> None" "jidDecode W pn \<noteq> None"
      using dec by (auto simp: validPair_def)
    then show ?thesis
      using True
      by (auto simp: p Let_def lk Cons.IH split: option.splits)
  qed
qed

lemma storeLoop_completes:
  assumes dec: "\<forall>j. isLidUser W j \<or> isPnUser W j \<longrightarrow> jidDecode W j \<noteq> None"
  shows "fst (storeLoop W ps pm st) \<noteq> None"
proof (induction ps arbitrary: pm st)
  case Nil
  then show ?case by simp
next
  case (Cons p ps)
  obtain lid pn where p: "p = (lid, pn)" by (cases p)
  show ?case
  proof (cases "validPair W (lid, pn)")
    case False
    then show ?thesis using Cons.IH by (simp add: p)
  next
    case True
    then have "jidDecode W lid \<noteq> None" "jidDecode W pn \<noteq> None"
      using dec by (auto simp: validPair_def)
    then show ?thesis
      using True Cons.IH by (auto simp: p Let_def split: option.splits)
  qed
qed

text \<open>
  C7. \<open>storeLIDPNMappings\<close> never throws on an invalid input pair (the function has
  no throwing path: its result is always a store). A pair in which neither element is a
  LID user matched with a PN user is skipped with a warning, and the remaining pairs are
  processed and stored as if the skipped ones were not in the batch: the resulting store
  is that of the valid pairs alone, with one warning added per invalid pair, in order.
  The loop always reaches the transaction. A pair with a JID that fails to decode is
  always such an invalid pair. The hypothesis is the contract of the helpers of
  \<open>WABinary\<close> that a JID accepted by \<open>isLidUser\<close> or \<open>isPnUser\<close> decodes.
\<close>

theorem storeLIDPNMappings_skips_invalid:
  assumes dec: "\<forall>j. isLidUser W j \<or> isPnUser W j \<longrightarrow> jidDecode W j \<noteq> None"
  shows "storeLIDPNMappings W pairs st
           = (storeLIDPNMappings W (filter (validPair W) pairs) st)
               \<lparr>warnings := warnings st
                  @ map invalidMappingWarning (filter (\<lambda>p. \<not> validPair W p) pairs)\<rparr>
         \<and> fst (storeLoop W pairs [] st) \<noteq> None
         \<and> (\<forall>p \<in> set pairs. jidDecode W (fst p) = None \<or> jidDecode W (snd p) = None
              \<longrightarrow> \<not> validPair W p)"
proof (intro conjI)
  obtain r st' where f: "storeLoop W (filter (validPair W) pairs) [] st = (r, st')"
    by (cases "storeLoop W (filter (validPair W) pairs) [] st")
  have "r \<noteq> None"
    using storeLoop_completes [OF dec, of "filter (validPair W) pairs" "[]" st] f by simp
  then obtain pm where r: "r = Some pm" by auto
  show "storeLIDPNMappings W pairs st
           = (storeLIDPNMappings W (filter (validPair W) pairs) st)
               \<lparr>warnings := warnings st
                  @ map invalidMappingWarning (filter (\<lambda>p. \<not> validPair W p) pairs)\<rparr>"
    unfolding storeLIDPNMappings_def
    by (subst storeLoop_filter [OF dec]) (simp add: f r storeEntries_warnings)
  show "fst (storeLoop W pairs [] st) \<noteq> None"
    by (rule storeLoop_completes [OF dec])
  show "\<forall>p \<in> set pairs. jidDecode W (fst p) = None \<or> jidDecode W (snd p) = None
              \<longrightarrow> \<not> validPair W p"
    using dec by (auto simp: validPair_def)
qed


lemma endsWith_at: "endsWith j (CHR ''@'' # suf) \<Longrightarrow> CHR ''@'' \<in> set j"
proof -
  assume a: "endsWith j (CHR ''@'' # suf)"
  then have "drop (length j - length (CHR ''@'' # suf)) j = CHR ''@'' # suf"
    by (simp add: endsWith_def)
  then have "CHR ''@'' \<in> set (drop (length j - length (CHR ''@'' # suf)) j)"
    by simp
  then show ?thesis by (rule in_set_dropD)
qed

lemma refWABinary_decodes:
  "\<forall>j. isLidUser refWABinary j \<or> isPnUser refWABinary j \<longrightarrow> jidDecode refWABinary j \<noteq> None"
  by (auto simp: refWABinary_def refJidDecode_def Let_def dest: endsWith_at)

theorem storeLIDPNMappings_skips_invalid_witness:
  "storeLIDPNMappings refWABinary
     [(''bad'', ''5511@s.whatsapp.net''), (''77@lid'', ''5511@s.whatsapp.net'')] emptyStore
   = (storeLIDPNMappings refWABinary [(''77@lid'', ''5511@s.whatsapp.net'')] emptyStore)
       \<lparr>warnings := [''Invalid LID-PN mapping: bad, 5511@s.whatsapp.net'']\<rparr>
   \<and> lidMappingKeys (storeLIDPNMappings refWABinary
        [(''bad'', ''5511@s.whatsapp.net''), (''77@lid'', ''5511@s.whatsapp.net'')] emptyStore)
        ''5511'' = Some ''77''"
proof -
  have v1: "\<not> validPair refWABinary (''bad'', ''5511@s.whatsapp.net'')"
    by (simp add: validPair_def refWABinary_def endsWith_def)
  have v2: "validPair refWABinary (''77@lid'', ''5511@s.whatsapp.net'')"
    by (simp add: validPair_def refWABinary_def endsWith_def)
  have d1: "jidDecode refWABinary ''77@lid'' = Some \<lparr>fj_user = ''77'', fj_server = ''lid'', fj_device = None\<rparr>"
    by (simp add: refWABinary_def refJidDecode_def)
  have d2: "jidDecode refWABinary ''5511@s.whatsapp.net''
      = Some \<lparr>fj_user = ''5511'', fj_server = ''s.whatsapp.net'', fj_device = None\<rparr>"
    by (simp add: refWABinary_def refJidDecode_def)
  have l: "isLidUser refWABinary ''77@lid''"
    by (simp add: refWABinary_def endsWith_def)
  have e: "objEntries [(''5511'', ''77'')] = [(''5511'', ''77'')]"
    by (simp add: objEntries_def)
  have k: "lidMappingKeys (storeLIDPNMappings refWABinary [(''77@lid'', ''5511@s.whatsapp.net'')] emptyStore)
        ''5511'' = Some ''77''"
    by (simp add: storeLIDPNMappings_def v2 d1 d2 l lookupLidUser_def emptyStore_def truthyOpt_def e)
  show ?thesis
    using storeLIDPNMappings_skips_invalid [OF refWABinary_decodes, THEN conjunct1,
      of "[(''bad'', ''5511@s.whatsapp.net''), (''77@lid'', ''5511@s.whatsapp.net'')]" emptyStore]
      k
    by (simp add: v1 v2 invalidMappingWarning_def emptyStore_def)
qed

text \<open>
  C6. For a LID JID \<open>x\<close> and a phone user \<open>pu\<close> such that both mapping
  directions are populated (the reverse lookup for the user of \<open>x\<close> gives \<open>pu\<close>,
  the forward lookup for \<open>pu\<close> gives the user of \<open>x\<close>; each lookup is the cache
  first, then the key store), \<open>getPNForLID x\<close> returns \<open>pu@s.whatsapp.net\<close> and
  \<open>getLIDForPN\<close> of that returns the user-level LID JID of \<open>x\<close>. The other
  hypotheses say what the helpers of \<open>WABinary\<close> do on the two JIDs.
\<close>

theorem lid_pn_roundtrip:
  assumes lid: "isLidUser W x" "jidDecode W x = Some dl" "truthy (fj_user dl)"
    and pn: "isPnUser W (pu @ ''@s.whatsapp.net'')"
            "jidDecode W (pu @ ''@s.whatsapp.net'') = Some dp" "fj_user dp = pu"
    and rev: "fst (lookupPnUser st (fj_user dl)) = Some pu"
    and fwd: "fst (lookupLidUser st pu) = Some (fj_user dl)"
  shows "fst (getPNForLID W x st) = Some (pu @ ''@s.whatsapp.net'')
         \<and> fst (getLIDForPN W (pu @ ''@s.whatsapp.net'') (snd (getPNForLID W x st)))
             = Some (fj_user dl @ ''@lid'')"
proof -
  obtain st1 where r: "lookupPnUser st (fj_user dl) = (Some pu, st1)"
    using rev by (cases "lookupPnUser st (fj_user dl)") simp
  have c1: "mappingCache st1 (''pn:'' @ pu) = mappingCache st (''pn:'' @ pu)"
    using r by (auto simp: lookupPnUser_def Let_def split: if_splits option.splits)
  have k1: "lidMappingKeys st1 = lidMappingKeys st"
    using r by (auto simp: lookupPnUser_def Let_def split: if_splits option.splits)
  have "fst (lookupLidUser st1 pu) = fst (lookupLidUser st pu)"
    using c1 k1 by (simp add: lookupLidUser_def Let_def split: option.splits)
  then have f: "fst (lookupLidUser st1 pu) = Some (fj_user dl)"
    using fwd by simp
  have g: "getPNForLID W x st = (Some (pu @ ''@s.whatsapp.net''), st1)"
    by (simp add: getPNForLID_def lid r)
  obtain st2 where "lookupLidUser st1 pu = (Some (fj_user dl), st2)"
    using f by (cases "lookupLidUser st1 pu") simp
  then have "fst (getLIDForPN W (pu @ ''@s.whatsapp.net'') st1) = Some (fj_user dl @ ''@lid'')"
    using lid(3) by (simp add: getLIDForPN_def pn)
  then show ?thesis by (simp add: g)
qed


theorem lid_pn_roundtrip_witness:
  "fst (getPNForLID refWABinary ''77:3@lid'' storedStore) = Some ''5511@s.whatsapp.net''
   \<and> fst (getLIDForPN refWABinary ''5511@s.whatsapp.net''
            (snd (getPNForLID refWABinary ''77:3@lid'' storedStore))) = Some ''77@lid''"
proof -
  have d1: "jidDecode refWABinary ''77:3@lid''
      = Some \<lparr>fj_user = ''77'', fj_server = ''lid'', fj_device = Some 3\<rparr>"
    by (simp add: refWABinary_def refJidDecode_def isDigit_def digitsToNat_def)
  have d2: "jidDecode refWABinary (''5511'' @ ''@s.whatsapp.net'')
      = Some \<lparr>fj_user = ''5511'', fj_server = ''s.whatsapp.net'', fj_device = None\<rparr>"
    by (simp add: refWABinary_def refJidDecode_def)
  have l: "isLidUser refWABinary ''77:3@lid''"
    by (simp add: refWABinary_def endsWith_def)
  have p: "isPnUser refWABinary (''5511'' @ ''@s.whatsapp.net'')"
    by (simp add: refWABinary_def endsWith_def)
  have r: "fst (lookupPnUser storedStore ''77'') = Some ''5511''"
    by (simp add: lookupPnUser_def storedStore_def truthyOpt_def truthy_def)
  have f: "fst (lookupLidUser storedStore ''5511'') = Some ''77''"
    by (simp add: lookupLidUser_def storedStore_def truthyOpt_def truthy_def)
  show ?thesis
    using lid_pn_roundtrip [of refWABinary "''77:3@lid''"
        "\<lparr>fj_user = ''77'', fj_server = ''lid'', fj_device = Some 3\<rparr>" "''5511''"
        "\<lparr>fj_user = ''5511'', fj_server = ''s.whatsapp.net'', fj_device = None\<rparr>" storedStore]
      d1 d2 l p r f
    by (simp add: truthy_def)
qed
subsection \<open>getUSyncDevices\<close>













subsection \<open>Successful runs, step by step\<close>

lemma andThen_Inr:
  "andThen m f s = (Inr y, s'') \<longleftrightarrow> (\<exists>x s'. m s = (Inr x, s') \<and> f x s' = (Inr y, s''))"
  by (auto simp: andThen_def split: prod.splits sum.splits)

lemma ret_Inr: "ret x s = (Inr y, s') \<longleftrightarrow> (y = x \<and> s' = s)"
  by (auto simp: ret_def)

lemma throw_Inr: "throw e s = (Inr y, s') \<longleftrightarrow> False"
  by (simp add: throw_def)

lemma reads_Inr: "reads f s = (Inr y, s') \<longleftrightarrow> (y = f (world s) \<and> s' = s)"
  by (auto simp: reads_def)

lemma call_Inr:
  "call f s = (Inr y, s') \<longleftrightarrow> (\<exists>w'. f (world s) = (Inr y, w') \<and> s' = s\<lparr>world := w'\<rparr>)"
  by (auto simp: call_def split: prod.splits)

lemma tryCatch_Inr:
  "tryCatch m h s = (Inr y, s'') \<longleftrightarrow>
     (m s = (Inr y, s'') \<or> (\<exists>e s'. m s = (Inl e, s') \<and> h e s' = (Inr y, s'')))"
  by (auto simp: tryCatch_def split: prod.splits sum.splits)

lemmas run_Inr = andThen_Inr ret_Inr throw_Inr reads_Inr call_Inr

subsection \<open>What a run leaves untouched\<close>

text \<open>\<open>preserves g m\<close>: no run of \<open>m\<close>, successful or not, changes the observation \<open>g\<close>.\<close>

lemma preserves_ret: "preserves g (ret x)"
  by (simp add: preserves_def ret_def)

lemma preserves_throw: "preserves g (throw e)"
  by (simp add: preserves_def throw_def)

lemma preserves_reads: "preserves g (reads f)"
  by (simp add: preserves_def reads_def)

lemma preserves_call: "(\<And>s w. g (s\<lparr>world := w\<rparr>) = g s) \<Longrightarrow> preserves g (call f)"
  by (simp add: preserves_def call_def split: prod.splits)

lemma preserves_andThen:
  "preserves g m \<Longrightarrow> (\<And>x. preserves g (f x)) \<Longrightarrow> preserves g (andThen m f)"
  unfolding preserves_def andThen_def
  by (auto split: prod.splits sum.splits) (metis snd_conv)+

lemma preserves_tryCatch:
  "preserves g m \<Longrightarrow> (\<And>e. preserves g (h e)) \<Longrightarrow> preserves g (tryCatch m h)"
  unfolding preserves_def tryCatch_def
  by (auto split: prod.splits sum.splits) (metis snd_conv)+

lemma preserves_if:
  "(b \<Longrightarrow> preserves g m1) \<Longrightarrow> (\<not> b \<Longrightarrow> preserves g m2) \<Longrightarrow> preserves g (if b then m1 else m2)"
  by simp

lemma preserves_case_option:
  "(x = None \<Longrightarrow> preserves g m1) \<Longrightarrow> (\<And>y. x = Some y \<Longrightarrow> preserves g (m2 y))
     \<Longrightarrow> preserves g (case x of None \<Rightarrow> m1 | Some y \<Rightarrow> m2 y)"
  by (cases x) simp_all

lemma preserves_case_sum:
  "(\<And>e. x = Inl e \<Longrightarrow> preserves g (m1 e)) \<Longrightarrow> (\<And>y. x = Inr y \<Longrightarrow> preserves g (m2 y))
     \<Longrightarrow> preserves g (case x of Inl e \<Rightarrow> m1 e | Inr y \<Rightarrow> m2 y)"
  by (cases x) simp_all

lemma preserves_case_patched:
  "(\<And>pm. x = Single pm \<Longrightarrow> preserves g (m1 pm)) \<Longrightarrow> (\<And>ps. x = PerJid ps \<Longrightarrow> preserves g (m2 ps))
     \<Longrightarrow> preserves g (case x of Single pm \<Rightarrow> m1 pm | PerJid ps \<Rightarrow> m2 ps)"
  by (cases x) simp_all

lemma preserves_Let: "preserves g (f x) \<Longrightarrow> preserves g (Let x f)"
  by simp

lemmas preserves_intros =
  preserves_ret preserves_throw preserves_reads preserves_andThen preserves_tryCatch
  preserves_if preserves_case_option preserves_case_sum preserves_case_patched preserves_Let

lemma preservesD: "preserves g m \<Longrightarrow> m s = (r, s') \<Longrightarrow> g s' = g s"
  unfolding preserves_def by (metis snd_conv)

lemma preserves_doSendNode:
  assumes "\<And>s w. g (s\<lparr>world := w\<rparr>) = g s" and "\<And>s l. g (s\<lparr>sent := l\<rparr>) = g s"
  shows "preserves g (doSendNode E n)"
  using assms by (simp add: preserves_def doSendNode_def call_def split: prod.splits)

lemma preserves_doUSyncQuery:
  assumes "\<And>s w. g (s\<lparr>world := w\<rparr>) = g s" and "\<And>s l. g (s\<lparr>usync := l\<rparr>) = g s"
  shows "preserves g (doUSyncQuery E js)"
  using assms by (simp add: preserves_def doUSyncQuery_def call_def split: prod.splits)

lemma preserves_doEncryptMessage:
  assumes "\<And>s w. g (s\<lparr>world := w\<rparr>) = g s" and "\<And>s l. g (s\<lparr>encrypted := l\<rparr>) = g s"
  shows "preserves g (doEncryptMessage E j d)"
  using assms by (simp add: preserves_def doEncryptMessage_def call_def split: prod.splits sum.splits)

lemma preserves_assertSessions:
  assumes w: "\<And>s w. g (s\<lparr>world := w\<rparr>) = g s" and a: "\<And>s l. g (s\<lparr>asserted := l\<rparr>) = g s"
  shows "preserves g (assertSessions E js)"
proof -
  have "preserves g (if compatV6GroupSend E
            then tryCatch (call (assertSessionsInternal E js)) (\<lambda>err. ret False)
            else call (assertSessionsInternal E js))"
    by (intro preserves_intros preserves_call w)
  then show ?thesis
    using a by (simp add: preserves_def assertSessions_def)
qed

lemma preserves_cachedOrFetch:
  assumes w: "\<And>s w. g (s\<lparr>world := w\<rparr>) = g s"
  shows "preserves g (cachedOrFetch E useCache mgetDevices js)"
proof (induction js)
  case Nil
  show ?case by (simp add: preserves_ret)
next
  case (Cons j js)
  obtain jid user where j: "j = (jid, user)" by (cases j)
  show ?case
    unfolding j cachedOrFetch.simps
    by (intro preserves_intros preserves_call w Cons.IH)
qed

lemma preserves_cacheSetAll:
  assumes w: "\<And>s w. g (s\<lparr>world := w\<rparr>) = g s"
  shows "preserves g (cacheSetAll E kvs)"
proof (induction kvs)
  case Nil
  show ?case by (simp add: preserves_ret)
next
  case (Cons kv kvs)
  obtain k ds where kv: "kv = (k, ds)" by (cases kv)
  show ?case
    unfolding kv cacheSetAll.simps
    by (intro preserves_intros preserves_call w Cons.IH)
qed

lemma preserves_useUSyncResult:
  assumes w: "\<And>s w. g (s\<lparr>world := w\<rparr>) = g s"
  shows "preserves g (useUSyncResult W E iz lst)"
  unfolding useUSyncResult_def Let_def
  by (intro preserves_intros preserves_call preserves_cacheSetAll w)

lemma preserves_getUSyncDevices:
  assumes w: "\<And>s w. g (s\<lparr>world := w\<rparr>) = g s" and u: "\<And>s l. g (s\<lparr>usync := l\<rparr>) = g s"
  shows "preserves g (getUSyncDevices W E jids uc iz)"
  unfolding getUSyncDevices_def Let_def
  by (intro preserves_intros preserves_call preserves_cachedOrFetch preserves_doUSyncQuery
        preserves_useUSyncResult w u)

lemma preserves_encryptEach:
  assumes w: "\<And>s w. g (s\<lparr>world := w\<rparr>) = g s" and e: "\<And>s l. g (s\<lparr>encrypted := l\<rparr>) = g s"
  shows "preserves g (encryptEach W E me xa dsm ps)"
proof (induction ps)
  case Nil
  show ?case by (simp add: preserves_ret)
next
  case (Cons p ps)
  obtain jid pm where p: "p = (jid, pm)" by (cases p)
  show ?case
    unfolding p encryptEach.simps
    by (intro preserves_intros preserves_doEncryptMessage w e Cons.IH)
qed

lemma preserves_createParticipantNodes:
  assumes w: "\<And>s w. g (s\<lparr>world := w\<rparr>) = g s" and e: "\<And>s l. g (s\<lparr>encrypted := l\<rparr>) = g s"
  shows "preserves g (createParticipantNodes W E rs m xa dsm)"
  unfolding createParticipantNodes_def
  by (intro preserves_intros preserves_call preserves_encryptEach w e)

subsection \<open>createParticipantNodes: nodes, flag and the encryptions noted\<close>

lemma doEncryptMessage_Inr:
  "doEncryptMessage E j d s = (Inr r, s') \<Longrightarrow> encrypted s' = encrypted s @ [(j, fst r)]"
  by (auto simp: doEncryptMessage_def call_def split: prod.splits sum.splits)

lemma doEncryptMessage_Inl:
  "doEncryptMessage E j d s = (Inl e, s') \<Longrightarrow> encrypted s' = encrypted s"
  by (auto simp: doEncryptMessage_def call_def split: prod.splits sum.splits)

lemma encryptStep:
  assumes "(if c
            then tryCatch (andThen (doEncryptMessage E j d) (\<lambda>r. ret (Some r))) (\<lambda>err. ret None)
            else andThen (doEncryptMessage E j d) (\<lambda>r. ret (Some r))) s = (Inr x, s1)"
  shows "encrypted s1 = encrypted s @ (case x of None \<Rightarrow> [] | Some r \<Rightarrow> [(j, fst r)])"
proof (cases "doEncryptMessage E j d s")
  case (Pair res s2)
  show ?thesis
  proof (cases res)
    case (Inl e)
    with Pair assms have "x = None" "s1 = s2"
      by (auto simp: tryCatch_def andThen_def ret_def split: if_splits)
    with Pair Inl show ?thesis
      using doEncryptMessage_Inl [of E j d s e s2] by simp
  next
    case (Inr r)
    with Pair assms have "x = Some r" "s1 = s2"
      by (auto simp: tryCatch_def andThen_def ret_def split: if_splits)
    with Pair Inr show ?thesis
      using doEncryptMessage_Inr [of E j d s r s2] by simp
  qed
qed

lemma encryptEach_spec:
  "encryptEach W E me xa dsm ps s = (Inr r, s') \<Longrightarrow>
     \<exists>log. encrypted s' = encrypted s @ log
       \<and> (snd r \<longleftrightarrow> (\<exists>j. (j, Pkmsg) \<in> set log))
       \<and> list_all (\<lambda>n. \<exists>j t c. n = toNode j t c xa \<and> truthy j \<and> j \<in> fst ` set ps) (fst r)"
proof (induction ps arbitrary: s r)
  case Nil
  then show ?case by (simp add: ret_Inr)
next
  case (Cons p ps)
  obtain jid pm where p: "p = (jid, pm)" by (cases p)
  show ?case
  proof (cases "truthy jid")
    case False
    with Cons.prems have "encryptEach W E me xa dsm ps s = (Inr r, s')"
      by (simp add: p)
    from Cons.IH [OF this] obtain log where
      "encrypted s' = encrypted s @ log" "snd r \<longleftrightarrow> (\<exists>j. (j, Pkmsg) \<in> set log)"
      and n: "list_all (\<lambda>n. \<exists>j t c. n = toNode j t c xa \<and> truthy j \<and> j \<in> fst ` set ps) (fst r)"
      by blast
    moreover from n have
      "list_all (\<lambda>n. \<exists>j t c. n = toNode j t c xa \<and> truthy j \<and> j \<in> fst ` set (p # ps)) (fst r)"
      by (rule list.pred_mono_strong) auto
    ultimately show ?thesis by blast
  next
    case True
    from Cons.prems True obtain m where m: "msgToEncrypt W me dsm jid pm = Inr m"
      by (cases "msgToEncrypt W me dsm jid pm") (simp_all add: p throw_Inr)
    from Cons.prems True m obtain x s1 more where
      step: "(if compatV6GroupSend E
              then tryCatch (andThen (doEncryptMessage E jid (encodeWAMessage E m)) (\<lambda>r. ret (Some r)))
                     (\<lambda>err. ret None)
              else andThen (doEncryptMessage E jid (encodeWAMessage E m)) (\<lambda>r. ret (Some r))) s
             = (Inr x, s1)"
      and rest: "encryptEach W E me xa dsm ps s1 = (Inr more, s')"
      and r: "r = (case x of None \<Rightarrow> more
                   | Some e \<Rightarrow> (toNode jid (fst e) (snd e) xa # fst more, fst e = Pkmsg \<or> snd more))"
      by (auto simp: p andThen_Inr ret_Inr)
    from Cons.IH [OF rest] obtain log where
      log: "encrypted s' = encrypted s1 @ log"
      and flag: "snd more \<longleftrightarrow> (\<exists>j. (j, Pkmsg) \<in> set log)"
      and nodes: "list_all (\<lambda>n. \<exists>j t c. n = toNode j t c xa \<and> truthy j \<and> j \<in> fst ` set ps) (fst more)"
      by blast
    have e1: "encrypted s1 = encrypted s @ (case x of None \<Rightarrow> [] | Some e \<Rightarrow> [(jid, fst e)])"
      by (rule encryptStep [OF step])
    have nodes': "list_all (\<lambda>n. \<exists>j t c. n = toNode j t c xa \<and> truthy j \<and> j \<in> fst ` set (p # ps)) (fst more)"
      using nodes by (rule list.pred_mono_strong) auto
    show ?thesis
    proof (cases x)
      case None
      with r have "r = more" by simp
      moreover from e1 None log have "encrypted s' = encrypted s @ log" by simp
      ultimately show ?thesis using flag nodes' by blast
    next
      case (Some e)
      have "encrypted s' = encrypted s @ ((jid, fst e) # log)"
        using e1 log Some by simp
      moreover have "snd r \<longleftrightarrow> (\<exists>j. (j, Pkmsg) \<in> set ((jid, fst e) # log))"
        using r Some flag by auto
      moreover have "list_all (\<lambda>n. \<exists>j t c. n = toNode j t c xa \<and> truthy j \<and> j \<in> fst ` set (p # ps)) (fst r)"
      proof -
        have "\<exists>j t c. toNode jid (fst e) (snd e) xa = toNode j t c xa \<and> truthy j \<and> j \<in> fst ` set (p # ps)"
          using True by (intro exI [of _ jid] exI [of _ "fst e"] exI [of _ "snd e"]) (simp add: p)
        with nodes' show ?thesis using r Some by simp
      qed
      ultimately show ?thesis by blast
    qed
  qed
qed

lemma createParticipantNodes_spec:
  assumes "createParticipantNodes W E rs m xa dsm s = (Inr r, s')"
  shows "\<exists>log. encrypted s' = encrypted s @ log
       \<and> (snd r \<longleftrightarrow> (\<exists>j. (j, Pkmsg) \<in> set log))
       \<and> list_all (\<lambda>n. \<exists>j t c. n = toNode j t c xa \<and> truthy j) (fst r)"
proof (cases "rs = []")
  case True
  with assms show ?thesis
    by (simp add: createParticipantNodes_def ret_Inr)
next
  case False
  with assms obtain patch patched me s1 ps where
    p: "patchMessageBeforeSending E = Some patch"
    and c: "call (patch m (Some rs)) s = (Inr patched, s1)"
    and e: "encryptEach W E me xa dsm ps s1 = (Inr r, s')"
    by (auto simp: createParticipantNodes_def andThen_Inr throw_Inr split: option.splits)
  from c have c1: "encrypted s1 = encrypted s"
    by (auto simp: call_Inr)
  from encryptEach_spec [OF e] obtain log where
    "encrypted s' = encrypted s1 @ log" "snd r \<longleftrightarrow> (\<exists>j. (j, Pkmsg) \<in> set log)"
    and n: "list_all (\<lambda>n. \<exists>j t c. n = toNode j t c xa \<and> truthy j \<and> j \<in> fst ` set ps) (fst r)"
    by blast
  moreover from n have "list_all (\<lambda>n. \<exists>j t c. n = toNode j t c xa \<and> truthy j) (fst r)"
    by (rule list.pred_mono_strong) auto
  ultimately show ?thesis using c1 by auto
qed


subsection \<open>The group branch\<close>

lemma preserves_resolveGroupData:
  assumes w: "\<And>s w. g (s\<lparr>world := w\<rparr>) = g s"
  shows "preserves g (resolveGroupData E jid isStatus uc)"
  unfolding resolveGroupData_def fromInternalCache_def fetchGroupMetadata_def
  by (intro preserves_intros preserves_call w)

lemma preserves_loadSenderKeyMap:
  assumes w: "\<And>s w. g (s\<lparr>world := w\<rparr>) = g s"
  shows "preserves g (loadSenderKeyMap E jid isStatus p)"
  unfolding loadSenderKeyMap_def
  by (intro preserves_intros preserves_call w)

lemma preserves_groupParticipantsList:
  assumes w: "\<And>s w. g (s\<lparr>world := w\<rparr>) = g s"
  shows "preserves g (groupParticipantsList W E isStatus gd l)"
  unfolding groupParticipantsList_def
  by (intro preserves_intros preserves_call w)

lemma preserves_groupDevices:
  assumes w: "\<And>s w. g (s\<lparr>world := w\<rparr>) = g s" and u: "\<And>s l. g (s\<lparr>usync := l\<rparr>) = g s"
  shows "preserves g (groupDevices W E me isStatus gd opts aa)"
  unfolding groupDevices_def
  by (intro preserves_intros preserves_groupParticipantsList preserves_getUSyncDevices w u)

lemma preserves_distributeSenderKey:
  assumes w: "\<And>s w. g (s\<lparr>world := w\<rparr>) = g s" and e: "\<And>s l. g (s\<lparr>encrypted := l\<rparr>) = g s"
    and a: "\<And>s l. g (s\<lparr>asserted := l\<rparr>) = g s"
  shows "preserves g (distributeSenderKey W E jid xa skdm js)"
  unfolding distributeSenderKey_def
  by (intro preserves_intros preserves_assertSessions preserves_createParticipantNodes w e a)

lemma preserves_groupEncNode:
  assumes w: "\<And>s w. g (s\<lparr>world := w\<rparr>) = g s" and e: "\<And>s l. g (s\<lparr>encrypted := l\<rparr>) = g s"
  shows "preserves g (groupEncNode E jid p xa b c skm)"
  unfolding groupEncNode_def
  by (intro preserves_intros preserves_call preserves_doEncryptMessage w e)

lemma preserves_sendToGroup:
  assumes w: "\<And>s w. g (s\<lparr>world := w\<rparr>) = g s" and e: "\<And>s l. g (s\<lparr>encrypted := l\<rparr>) = g s"
    and a: "\<And>s l. g (s\<lparr>asserted := l\<rparr>) = g s"
  shows "preserves g (sendToGroup W E me jid m p xa aa gd skm devices)"
  unfolding sendToGroup_def
  by (intro preserves_intros preserves_call preserves_distributeSenderKey preserves_groupEncNode w e a)

lemma preserves_groupBranch:
  assumes w: "\<And>s w. g (s\<lparr>world := w\<rparr>) = g s" and e: "\<And>s l. g (s\<lparr>encrypted := l\<rparr>) = g s"
    and a: "\<And>s l. g (s\<lparr>asserted := l\<rparr>) = g s" and u: "\<And>s l. g (s\<lparr>usync := l\<rparr>) = g s"
  shows "preserves g (groupBranch W E me jid m opts isStatus aa devices)"
  unfolding groupBranch_def
  by (intro preserves_intros preserves_resolveGroupData preserves_loadSenderKeyMap
        preserves_groupDevices preserves_sendToGroup w e a u)

lemma distributeSenderKey_spec:
  assumes "distributeSenderKey W E jid xa skdm js s = (Inr r, s')"
  shows "asserted s' = asserted s @ (if js = [] then [] else [js])"
    and "\<exists>log. encrypted s' = encrypted s @ log
           \<and> (snd r \<longleftrightarrow> (\<exists>j. (j, Pkmsg) \<in> set log))
           \<and> list_all (\<lambda>n. \<exists>j t c. n = toNode j t c xa \<and> truthy j) (fst r)"
proof -
  show "asserted s' = asserted s @ (if js = [] then [] else [js])"
  proof (cases "js = []")
    case True
    with assms show ?thesis by (simp add: distributeSenderKey_def ret_Inr)
  next
    case False
    with assms obtain f s1 where
      a: "assertSessions E js s = (Inr f, s1)"
      and c: "createParticipantNodes W E js (SenderKeyDistributionMessage skdm jid) xa None s1 = (Inr r, s')"
      by (auto simp: distributeSenderKey_def andThen_Inr)
    have "preserves asserted
            (if compatV6GroupSend E
             then tryCatch (call (assertSessionsInternal E js)) (\<lambda>err. ret False)
             else call (assertSessionsInternal E js))"
      by (intro preserves_intros preserves_call) simp_all
    from preservesD [OF this] a have "asserted s1 = asserted s @ [js]"
      by (fastforce simp: assertSessions_def)
    moreover have "asserted s' = asserted s1"
      by (rule preservesD [OF preserves_createParticipantNodes c]) simp_all
    ultimately show ?thesis using False by simp
  qed
  show "\<exists>log. encrypted s' = encrypted s @ log
           \<and> (snd r \<longleftrightarrow> (\<exists>j. (j, Pkmsg) \<in> set log))
           \<and> list_all (\<lambda>n. \<exists>j t c. n = toNode j t c xa \<and> truthy j) (fst r)"
  proof (cases "js = []")
    case True
    with assms show ?thesis by (simp add: distributeSenderKey_def ret_Inr)
  next
    case False
    with assms obtain f s1 where
      a: "assertSessions E js s = (Inr f, s1)"
      and c: "createParticipantNodes W E js (SenderKeyDistributionMessage skdm jid) xa None s1 = (Inr r, s')"
      by (auto simp: distributeSenderKey_def andThen_Inr)
    have "encrypted s1 = encrypted s"
      by (rule preservesD [OF preserves_assertSessions a]) simp_all
    with createParticipantNodes_spec [OF c] show ?thesis by simp
  qed
qed

lemma groupEncNode_spec:
  assumes "groupEncNode E jid participant xa b c skm s = (Inr n, s')"
  shows "asserted s' = asserted s"
    and "\<exists>log. encrypted s' = encrypted s @ log
           \<and> ((\<exists>j. (j, Pkmsg) \<in> set log) \<longrightarrow> isRetryResend participant)"
    and "isRetryResend participant \<Longrightarrow>
           \<exists>p t c. participant = Some p
             \<and> n = Node ''enc'' [''v'' \<mapsto> ''2'', ''type'' \<mapsto> ctypeString t,
                                 ''count'' \<mapsto> intToString (rp_count p)] (Bytes c)"
    and "\<not> isRetryResend participant \<Longrightarrow>
           n = Node ''enc'' ([''v'' \<mapsto> ''2'', ''type'' \<mapsto> ''skmsg''] ++ xa) (Bytes c)"
proof -
  show "asserted s' = asserted s"
    by (rule preservesD [OF preserves_groupEncNode assms]) simp_all
  show "\<exists>log. encrypted s' = encrypted s @ log
           \<and> ((\<exists>j. (j, Pkmsg) \<in> set log) \<longrightarrow> isRetryResend participant)"
  proof (cases "isRetryResend participant")
    case True
    with assms obtain p :: relayParticipant and enc
      where "doEncryptMessage E (rp_jid p) b s = (Inr enc, s')"
      by (auto simp: groupEncNode_def andThen_Inr ret_Inr throw_Inr split: option.splits)
    from doEncryptMessage_Inr [OF this] True show ?thesis by blast
  next
    case False
    with assms have "encrypted s' = encrypted s"
      by (auto simp: groupEncNode_def andThen_Inr ret_Inr call_Inr)
    then show ?thesis by simp
  qed
  show "\<exists>p t c. participant = Some p
             \<and> n = Node ''enc'' [''v'' \<mapsto> ''2'', ''type'' \<mapsto> ctypeString t,
                                 ''count'' \<mapsto> intToString (rp_count p)] (Bytes c)"
    if "isRetryResend participant"
    using that assms
    by (auto simp: groupEncNode_def andThen_Inr ret_Inr throw_Inr split: option.splits)
  show "n = Node ''enc'' ([''v'' \<mapsto> ''2'', ''type'' \<mapsto> ''skmsg''] ++ xa) (Bytes c)"
    if "\<not> isRetryResend participant"
    using that assms
    by (auto simp: groupEncNode_def andThen_Inr ret_Inr)
qed

lemma sendToGroup_spec:
  assumes "sendToGroup W E me jid m participant xa aa gd skm devices s = (Inr L, s')"
  shows "asserted s' = asserted s @ (if devices = [] then [] else [map (senderId W) devices])"
    and "\<exists>log. encrypted s' = encrypted s @ log
           \<and> ((\<exists>j. (j, Pkmsg) \<in> set log) \<longrightarrow> l_shouldIncludeDeviceIdentity L)"
    and "list_all (\<lambda>n. \<exists>j t c. n = toNode j t c xa \<and> truthy j) (l_participants L)"
    and "isRetryResend participant \<Longrightarrow>
           l_shouldIncludeDeviceIdentity L
           \<and> (\<exists>p t c. participant = Some p
                \<and> l_binaryNodeContent L
                    = [Node ''enc'' [''v'' \<mapsto> ''2'', ''type'' \<mapsto> ctypeString t,
                                     ''count'' \<mapsto> intToString (rp_count p)] (Bytes c)])"
    and "\<not> isRetryResend participant \<Longrightarrow>
           \<exists>c. l_binaryNodeContent L
                  = [Node ''enc'' ([''v'' \<mapsto> ''2'', ''type'' \<mapsto> ''skmsg''] ++ xa) (Bytes c)]"
proof -
  from assms obtain patch pm s1 groupEnc s2 result s3 encNode where
    p: "call (patch m None) s = (Inr (Single pm), s1)"
    and g: "call (encryptGroupMessage E jid (encodeWAMessage E pm)
                    (case me_lid me of None \<Rightarrow> me_id me
                     | Some l \<Rightarrow> if addressingModeOf gd = Some ''lid'' \<and> truthy l then l else me_id me))
              s1 = (Inr groupEnc, s2)"
    and d: "distributeSenderKey W E jid xa (snd groupEnc) (map (senderId W) devices) s2
              = (Inr result, s3)"
    and n: "groupEncNode E jid participant xa (encodeWAMessage E pm) (fst groupEnc)
              (markAll skm (map (senderId W) devices)) s3 = (Inr encNode, s')"
    and Lp: "l_participants L = fst result"
    and Lb: "l_binaryNodeContent L = [encNode]"
    and Lf: "l_shouldIncludeDeviceIdentity L = (isRetryResend participant \<or> snd result)"
    by (auto simp: sendToGroup_def andThen_Inr ret_Inr throw_Inr
          split: option.splits patched.splits)
  have a1: "asserted s1 = asserted s" "encrypted s1 = encrypted s"
    using p by (auto simp: call_Inr)
  have a2: "asserted s2 = asserted s1" "encrypted s2 = encrypted s1"
    using g by (auto simp: call_Inr)
  note ds = distributeSenderKey_spec [OF d]
  note gs = groupEncNode_spec [OF n]
  show "asserted s' = asserted s @ (if devices = [] then [] else [map (senderId W) devices])"
    using a1 a2 ds(1) gs(1) by simp
  from ds(2) obtain log1 where
    l1: "encrypted s3 = encrypted s2 @ log1" and f1: "snd result \<longleftrightarrow> (\<exists>j. (j, Pkmsg) \<in> set log1)"
    and ns: "list_all (\<lambda>n. \<exists>j t c. n = toNode j t c xa \<and> truthy j) (fst result)"
    by blast
  from gs(2) obtain log2 where
    l2: "encrypted s' = encrypted s3 @ log2"
    and f2: "(\<exists>j. (j, Pkmsg) \<in> set log2) \<longrightarrow> isRetryResend participant"
    by blast
  have "encrypted s' = encrypted s @ (log1 @ log2)"
    using a1 a2 l1 l2 by simp
  moreover have "(\<exists>j. (j, Pkmsg) \<in> set (log1 @ log2)) \<longrightarrow> l_shouldIncludeDeviceIdentity L"
    using f1 f2 Lf by auto
  ultimately show "\<exists>log. encrypted s' = encrypted s @ log
           \<and> ((\<exists>j. (j, Pkmsg) \<in> set log) \<longrightarrow> l_shouldIncludeDeviceIdentity L)"
    by blast
  show "list_all (\<lambda>n. \<exists>j t c. n = toNode j t c xa \<and> truthy j) (l_participants L)"
    using ns Lp by simp
  show "l_shouldIncludeDeviceIdentity L
           \<and> (\<exists>p t c. participant = Some p
                \<and> l_binaryNodeContent L
                    = [Node ''enc'' [''v'' \<mapsto> ''2'', ''type'' \<mapsto> ctypeString t,
                                     ''count'' \<mapsto> intToString (rp_count p)] (Bytes c)])"
    if "isRetryResend participant"
    using gs(3) [OF that] Lf Lb that by simp
  show "\<exists>c. l_binaryNodeContent L
                  = [Node ''enc'' ([''v'' \<mapsto> ''2'', ''type'' \<mapsto> ''skmsg''] ++ xa) (Bytes c)]"
    if "\<not> isRetryResend participant"
    using gs(4) [OF that] Lb by simp
qed

lemma groupBranch_decompose:
  assumes "groupBranch W E me jid m opts isStatus aa devices s = (Inr L, s')"
  obtains gd skm s1 devs aa' s2 where
    "asserted s2 = asserted s" "encrypted s2 = encrypted s" "sent s2 = sent s"
    "sendToGroup W E me jid m (o_participant opts) (extraAttrsOf E m) aa' gd skm devs s2 = (Inr L, s')"
    "o_participant opts \<noteq> None \<Longrightarrow> devs = devices"
    "o_participant opts = None \<Longrightarrow>
       \<exists>r. groupDevices W E me isStatus gd opts aa s1 = (Inr r, s2) \<and> devs = devices @ fst r
            \<and> asserted s1 = asserted s"
proof -
  from assms obtain gd s0 skm s1 r s2 where
    r0: "resolveGroupData E jid isStatus (o_useCachedGroupMetadata opts \<noteq> Some False \<and> \<not> isStatus) s
           = (Inr gd, s0)"
    and r1: "loadSenderKeyMap E jid isStatus (o_participant opts) s0 = (Inr skm, s1)"
    and r2: "(if o_participant opts = None
              then andThen (groupDevices W E me isStatus gd opts aa) (\<lambda>r. ret (devices @ fst r, snd r))
              else ret (devices, aa)) s1 = (Inr r, s2)"
    and r3: "sendToGroup W E me jid m (o_participant opts) (extraAttrsOf E m) (snd r) gd skm (fst r) s2
           = (Inr L, s')"
    by (auto simp: groupBranch_def andThen_Inr)
  have p0: "asserted s0 = asserted s" "encrypted s0 = encrypted s" "sent s0 = sent s"
    by (rule preservesD [OF preserves_resolveGroupData r0], simp)+
  have p1: "asserted s1 = asserted s0" "encrypted s1 = encrypted s0" "sent s1 = sent s0"
    by (rule preservesD [OF preserves_loadSenderKeyMap r1], simp)+
  have "preserves g (if o_participant opts = None
              then andThen (groupDevices W E me isStatus gd opts aa) (\<lambda>r. ret (devices @ fst r, snd r))
              else ret (devices, aa))"
    if "\<And>s w. g (s\<lparr>world := w\<rparr>) = g s" "\<And>s l. g (s\<lparr>usync := l\<rparr>) = g s"
    for g :: "'a sys \<Rightarrow> 'x"
    by (intro preserves_intros preserves_groupDevices that)
  note pg = preservesD [OF this r2]
  have p2: "asserted s2 = asserted s1" "encrypted s2 = encrypted s1" "sent s2 = sent s1"
    by (rule pg; simp)+
  show ?thesis
  proof (rule that [of s2 "snd r" gd skm "fst r" s1])
    show "asserted s2 = asserted s" "encrypted s2 = encrypted s" "sent s2 = sent s"
      using p0 p1 p2 by simp_all
    show "sendToGroup W E me jid m (o_participant opts) (extraAttrsOf E m) (snd r) gd skm (fst r) s2
           = (Inr L, s')"
      by (rule r3)
    show "fst r = devices" if "o_participant opts \<noteq> None"
      using r2 that by (simp add: ret_Inr)
    show "\<exists>r'. groupDevices W E me isStatus gd opts aa s1 = (Inr r', s2) \<and> fst r = devices @ fst r'
            \<and> asserted s1 = asserted s"
      if "o_participant opts = None"
      using r2 that p0 p1 by (auto simp: andThen_Inr ret_Inr)
  qed
qed

subsection \<open>The direct branch\<close>

lemma preserves_directDevices:
  assumes w: "\<And>s w. g (s\<lparr>world := w\<rparr>) = g s" and u: "\<And>s l. g (s\<lparr>usync := l\<rparr>) = g s"
  shows "preserves g (directDevices W E me jid usr isLid ownUser aa)"
  unfolding directDevices_def Let_def
  by (intro preserves_intros preserves_getUSyncDevices w u)

lemma preserves_sendToRecipients:
  assumes w: "\<And>s w. g (s\<lparr>world := w\<rparr>) = g s" and e: "\<And>s l. g (s\<lparr>encrypted := l\<rparr>) = g s"
    and a: "\<And>s l. g (s\<lparr>asserted := l\<rparr>) = g s"
  shows "preserves g (sendToRecipients W E me jid m opts aa mePnUser meLidUser devices)"
  unfolding sendToRecipients_def
  by (intro preserves_intros preserves_assertSessions preserves_createParticipantNodes w e a)

lemma preserves_directBranch:
  assumes w: "\<And>s w. g (s\<lparr>world := w\<rparr>) = g s" and e: "\<And>s l. g (s\<lparr>encrypted := l\<rparr>) = g s"
    and a: "\<And>s l. g (s\<lparr>asserted := l\<rparr>) = g s" and u: "\<And>s l. g (s\<lparr>usync := l\<rparr>) = g s"
  shows "preserves g (directBranch W E me jid usr isLid m opts aa devices0)"
  unfolding directBranch_def
  by (intro preserves_intros preserves_directDevices preserves_sendToRecipients w e a u)

lemma sendToRecipients_spec:
  assumes "sendToRecipients W E me jid m opts aa mePnUser meLidUser devices s = (Inr L, s')"
  shows "l_binaryNodeContent L = []" and "l_additionalAttributes L = aa"
    and "\<exists>log. encrypted s' = encrypted s @ log
           \<and> ((\<exists>j. (j, Pkmsg) \<in> set log) \<longrightarrow> l_shouldIncludeDeviceIdentity L)"
    and "list_all (\<lambda>n. \<exists>j t c. n = toNode j t c (extraAttrsOf E m) \<and> truthy j) (l_participants L)"
    and "isRetryResend (o_participant opts) \<Longrightarrow> l_shouldIncludeDeviceIdentity L"
proof -
  from assms obtain f s1 r1 s2 r2 where
    a: "assertSessions E (map d_jid (recipientsOf me devices)) s = (Inr f, s1)"
    and c1: "createParticipantNodes W E
               (map d_jid (filter (isMe mePnUser meLidUser) (recipientsOf me devices)))
               (DeviceSentMessage jid m) (extraAttrsOf E m) None s1 = (Inr r1, s2)"
    and c2: "createParticipantNodes W E
               (map d_jid (filter (\<lambda>d. \<not> isMe mePnUser meLidUser d) (recipientsOf me devices)))
               m (extraAttrsOf E m) (Some (DeviceSentMessage jid m)) s2 = (Inr r2, s')"
    and Lp: "l_participants L = fst r1 @ fst r2"
    and Lb: "l_binaryNodeContent L = []"
    and La: "l_additionalAttributes L = aa"
    and Lf: "l_shouldIncludeDeviceIdentity L = (isRetryResend (o_participant opts) \<or> snd r1 \<or> snd r2)"
    by (auto simp: sendToRecipients_def andThen_Inr ret_Inr)
  show "l_binaryNodeContent L = []" by (rule Lb)
  show "l_additionalAttributes L = aa" by (rule La)
  have e0: "encrypted s1 = encrypted s"
    by (rule preservesD [OF preserves_assertSessions a]) simp_all
  from createParticipantNodes_spec [OF c1] obtain log1 where
    l1: "encrypted s2 = encrypted s1 @ log1" and f1: "snd r1 \<longleftrightarrow> (\<exists>j. (j, Pkmsg) \<in> set log1)"
    and n1: "list_all (\<lambda>n. \<exists>j t c. n = toNode j t c (extraAttrsOf E m) \<and> truthy j) (fst r1)"
    by blast
  from createParticipantNodes_spec [OF c2] obtain log2 where
    l2: "encrypted s' = encrypted s2 @ log2" and f2: "snd r2 \<longleftrightarrow> (\<exists>j. (j, Pkmsg) \<in> set log2)"
    and n2: "list_all (\<lambda>n. \<exists>j t c. n = toNode j t c (extraAttrsOf E m) \<and> truthy j) (fst r2)"
    by blast
  have "encrypted s' = encrypted s @ (log1 @ log2)"
    using e0 l1 l2 by simp
  moreover have "(\<exists>j. (j, Pkmsg) \<in> set (log1 @ log2)) \<longrightarrow> l_shouldIncludeDeviceIdentity L"
    using f1 f2 Lf by auto
  ultimately show "\<exists>log. encrypted s' = encrypted s @ log
           \<and> ((\<exists>j. (j, Pkmsg) \<in> set log) \<longrightarrow> l_shouldIncludeDeviceIdentity L)"
    by blast
  show "list_all (\<lambda>n. \<exists>j t c. n = toNode j t c (extraAttrsOf E m) \<and> truthy j) (l_participants L)"
    using n1 n2 Lp by simp
  show "l_shouldIncludeDeviceIdentity L" if "isRetryResend (o_participant opts)"
    using that Lf by simp
qed


lemma directBranch_decompose:
  assumes "directBranch W E me jid usr isLid m opts aa devices0 s = (Inr L, s')"
  obtains devices s1 mePnUser meLidUser where
    "asserted s1 = asserted s" "encrypted s1 = encrypted s" "sent s1 = sent s"
    "sendToRecipients W E me jid m opts aa mePnUser meLidUser devices s1 = (Inr L, s')"
proof -
  from assms obtain own :: fulljid where
    r0: "andThen
            (if o_participant opts = None
             then directDevices W E me jid usr isLid (fj_user own) aa
             else ret devices0)
            (\<lambda>devices.
               case jidDecode W (me_id me) of
                 None \<Rightarrow> throw TypeError
               | Some mePn \<Rightarrow>
                   (case meLidUserOf W me of
                      Inl e \<Rightarrow> throw e
                    | Inr meLidUser \<Rightarrow>
                        sendToRecipients W E me jid m opts aa (fj_user mePn) meLidUser devices)) s
          = (Inr L, s')"
    unfolding directBranch_def
    by (cases "jidDecode W (ownIdOf me isLid)") (simp_all add: throw_Inr)
  then obtain devices s1 where
    d: "(if o_participant opts = None
         then directDevices W E me jid usr isLid (fj_user own) aa
         else ret devices0) s = (Inr devices, s1)"
    and r1: "(case jidDecode W (me_id me) of
                 None \<Rightarrow> throw TypeError
               | Some mePn \<Rightarrow>
                   (case meLidUserOf W me of
                      Inl e \<Rightarrow> throw e
                    | Inr meLidUser \<Rightarrow>
                        sendToRecipients W E me jid m opts aa (fj_user mePn) meLidUser devices)) s1
          = (Inr L, s')"
    by (auto simp: andThen_Inr)
  from r1 obtain mePn :: fulljid and meLidUser where
    r2: "sendToRecipients W E me jid m opts aa (fj_user mePn) meLidUser devices s1 = (Inr L, s')"
    by (cases "jidDecode W (me_id me)"; cases "meLidUserOf W me") (simp_all add: throw_Inr)
  have "preserves g (if o_participant opts = None
         then directDevices W E me jid usr isLid (fj_user own) aa
         else ret devices0)"
    if "\<And>s w. g (s\<lparr>world := w\<rparr>) = g s" "\<And>s l. g (s\<lparr>usync := l\<rparr>) = g s"
    for g :: "'a sys \<Rightarrow> 'x"
    by (intro preserves_intros preserves_directDevices that)
  note pd = preservesD [OF this d]
  have "asserted s1 = asserted s" "encrypted s1 = encrypted s" "sent s1 = sent s"
    by (rule pd; simp)+
  then show ?thesis
    using r2 by (rule that)
qed

subsection \<open>Both branches, the stanza, and relayMessage as a whole\<close>

lemma relayBranch_spec:
  assumes "relayBranch W E me jid decoded m opts devices s = (Inr L, s')"
  shows "sent s' = sent s"
    and "\<exists>log. encrypted s' = encrypted s @ log
           \<and> ((\<exists>j. (j, Pkmsg) \<in> set log) \<longrightarrow> l_shouldIncludeDeviceIdentity L)"
    and "list_all (\<lambda>n. \<exists>j t c. n = toNode j t c (extraAttrsOf E m) \<and> truthy j) (l_participants L)"
    and "isRetryResend (o_participant opts) \<Longrightarrow> l_shouldIncludeDeviceIdentity L"
    and "fj_server decoded = ''g.us'' \<or> jid = ''status@broadcast'' \<Longrightarrow>
           isRetryResend (o_participant opts) \<Longrightarrow>
           \<exists>p t c. o_participant opts = Some p
             \<and> l_binaryNodeContent L
                 = [Node ''enc'' [''v'' \<mapsto> ''2'', ''type'' \<mapsto> ctypeString t,
                                  ''count'' \<mapsto> intToString (rp_count p)] (Bytes c)]"
    and "fj_server decoded = ''g.us'' \<or> jid = ''status@broadcast'' \<Longrightarrow>
           \<not> isRetryResend (o_participant opts) \<Longrightarrow>
           \<exists>c. l_binaryNodeContent L
                  = [Node ''enc'' ([''v'' \<mapsto> ''2'', ''type'' \<mapsto> ''skmsg''] ++ extraAttrsOf E m)
                       (Bytes c)]"
    and "\<not> (fj_server decoded = ''g.us'' \<or> jid = ''status@broadcast'') \<Longrightarrow>
           l_binaryNodeContent L = []"
proof -
  have sent_keep: "sent s' = sent s"
  proof (cases "fj_server decoded = ''g.us'' \<or> jid = ''status@broadcast''")
    case True
    with assms have g: "groupBranch W E me jid m opts (jid = ''status@broadcast'')
        (initialAttributes opts decoded jid) devices s = (Inr L, s')"
      by (simp add: relayBranch_def)
    show ?thesis by (rule preservesD [OF preserves_groupBranch g]) simp_all
  next
    case False
    with assms have d: "directBranch W E me jid (fj_user decoded) (fj_server decoded = ''lid'') m opts
        (initialAttributes opts decoded jid) devices s = (Inr L, s')"
      by (simp add: relayBranch_def)
    show ?thesis by (rule preservesD [OF preserves_directBranch d]) simp_all
  qed
  show "sent s' = sent s" by (rule sent_keep)
  consider (grp) "fj_server decoded = ''g.us'' \<or> jid = ''status@broadcast''"
    | (dir) "\<not> (fj_server decoded = ''g.us'' \<or> jid = ''status@broadcast'')"
    by blast
  then have
    "(\<exists>log. encrypted s' = encrypted s @ log
           \<and> ((\<exists>j. (j, Pkmsg) \<in> set log) \<longrightarrow> l_shouldIncludeDeviceIdentity L))
     \<and> list_all (\<lambda>n. \<exists>j t c. n = toNode j t c (extraAttrsOf E m) \<and> truthy j) (l_participants L)
     \<and> (isRetryResend (o_participant opts) \<longrightarrow> l_shouldIncludeDeviceIdentity L)
     \<and> (fj_server decoded = ''g.us'' \<or> jid = ''status@broadcast'' \<longrightarrow>
           isRetryResend (o_participant opts) \<longrightarrow>
           (\<exists>p t c. o_participant opts = Some p
             \<and> l_binaryNodeContent L
                 = [Node ''enc'' [''v'' \<mapsto> ''2'', ''type'' \<mapsto> ctypeString t,
                                  ''count'' \<mapsto> intToString (rp_count p)] (Bytes c)]))
     \<and> (fj_server decoded = ''g.us'' \<or> jid = ''status@broadcast'' \<longrightarrow>
           \<not> isRetryResend (o_participant opts) \<longrightarrow>
           (\<exists>c. l_binaryNodeContent L
                  = [Node ''enc'' ([''v'' \<mapsto> ''2'', ''type'' \<mapsto> ''skmsg''] ++ extraAttrsOf E m)
                       (Bytes c)]))
     \<and> (\<not> (fj_server decoded = ''g.us'' \<or> jid = ''status@broadcast'') \<longrightarrow>
           l_binaryNodeContent L = [])"
  proof cases
    case grp
    with assms have g: "groupBranch W E me jid m opts (jid = ''status@broadcast'')
        (initialAttributes opts decoded jid) devices s = (Inr L, s')"
      by (simp add: relayBranch_def)
    from groupBranch_decompose [OF g] obtain gd skm devs aa' s2 where
      e2: "encrypted s2 = encrypted s"
      and st: "sendToGroup W E me jid m (o_participant opts) (extraAttrsOf E m) aa' gd skm devs s2
                = (Inr L, s')"
      by metis
    note sp = sendToGroup_spec [OF st]
    show ?thesis
      using sp(2) sp(3) sp(4) sp(5) e2 grp by auto
  next
    case dir
    with assms have d: "directBranch W E me jid (fj_user decoded) (fj_server decoded = ''lid'') m opts
        (initialAttributes opts decoded jid) devices s = (Inr L, s')"
      by (simp add: relayBranch_def)
    from directBranch_decompose [OF d] obtain devs s1 mePnUser meLidUser where
      e1: "encrypted s1 = encrypted s"
      and sr: "sendToRecipients W E me jid m opts (initialAttributes opts decoded jid)
                 mePnUser meLidUser devs s1 = (Inr L, s')"
      by metis
    note sp = sendToRecipients_spec [OF sr]
    show ?thesis
      using sp(1) sp(3) sp(4) sp(5) e1 dir by auto
  qed
  then show "\<exists>log. encrypted s' = encrypted s @ log
           \<and> ((\<exists>j. (j, Pkmsg) \<in> set log) \<longrightarrow> l_shouldIncludeDeviceIdentity L)"
    and "list_all (\<lambda>n. \<exists>j t c. n = toNode j t c (extraAttrsOf E m) \<and> truthy j) (l_participants L)"
    and "isRetryResend (o_participant opts) \<Longrightarrow> l_shouldIncludeDeviceIdentity L"
    and "fj_server decoded = ''g.us'' \<or> jid = ''status@broadcast'' \<Longrightarrow>
           isRetryResend (o_participant opts) \<Longrightarrow>
           \<exists>p t c. o_participant opts = Some p
             \<and> l_binaryNodeContent L
                 = [Node ''enc'' [''v'' \<mapsto> ''2'', ''type'' \<mapsto> ctypeString t,
                                  ''count'' \<mapsto> intToString (rp_count p)] (Bytes c)]"
    and "fj_server decoded = ''g.us'' \<or> jid = ''status@broadcast'' \<Longrightarrow>
           \<not> isRetryResend (o_participant opts) \<Longrightarrow>
           \<exists>c. l_binaryNodeContent L
                  = [Node ''enc'' ([''v'' \<mapsto> ''2'', ''type'' \<mapsto> ''skmsg''] ++ extraAttrsOf E m)
                       (Bytes c)]"
    and "\<not> (fj_server decoded = ''g.us'' \<or> jid = ''status@broadcast'') \<Longrightarrow>
           l_binaryNodeContent L = []"
    by blast+
qed

text \<open>What the relay itself puts into the stanza, before the caller's additional nodes.\<close>

lemma buildStanza_spec:
  assumes "buildStanza W E me jid msgId m opts L s = (Inr stanza, s')"
  shows "sent s' = sent s" and "encrypted s' = encrypted s" and "asserted s' = asserted s"
    and "tag stanza = ''message''"
    and "attrs stanza = stanzaAttrs W me jid msgId m (o_participant opts) (l_additionalAttributes L)"
    and "\<exists>di. children stanza
            = l_binaryNodeContent L
              @ (if l_participants L \<noteq> []
                 then (if l_additionalAttributes L ''category'' = Some ''peer''
                       then (case peerNode (l_participants L) of None \<Rightarrow> [] | Some n \<Rightarrow> [n])
                       else [Node ''participants'' Map.empty (Children (l_participants L))])
                 else [])
              @ di @ bizNodes m
              @ (case o_additionalNodes opts of None \<Rightarrow> [] | Some ns \<Rightarrow> ns)
          \<and> (if l_shouldIncludeDeviceIdentity L
              then \<exists>b. di = [Node ''device-identity'' Map.empty (Bytes b)] else di = [])"
proof -
  have p: "preserves g (buildStanza W E me jid msgId m opts L)"
    if "\<And>s w. g (s\<lparr>world := w\<rparr>) = g s" for g :: "'a sys \<Rightarrow> 'x"
    unfolding buildStanza_def
    by (intro preserves_intros preserves_call that)
  show "sent s' = sent s" "encrypted s' = encrypted s" "asserted s' = asserted s"
    by (rule preservesD [OF p assms]; simp)+
  from assms obtain di s1 where
    d: "(if l_shouldIncludeDeviceIdentity L
         then andThen (call (encodeSignedDeviceIdentity E))
                (\<lambda>b. ret [Node ''device-identity'' Map.empty (Bytes b)])
         else ret []) s = (Inr di, s1)"
    and st: "stanza = Node ''message''
                 (stanzaAttrs W me jid msgId m (o_participant opts) (l_additionalAttributes L))
                 (Children
                    (l_binaryNodeContent L
                     @ (if l_participants L \<noteq> []
                        then (if l_additionalAttributes L ''category'' = Some ''peer''
                              then (case peerNode (l_participants L) of
                                      None \<Rightarrow> [] | Some n \<Rightarrow> [n])
                              else [Node ''participants'' Map.empty (Children (l_participants L))])
                        else [])
                     @ di
                     @ bizNodes m
                     @ (case o_additionalNodes opts of None \<Rightarrow> [] | Some ns \<Rightarrow> ns)))"
    by (auto simp: buildStanza_def andThen_Inr ret_Inr)
  show "tag stanza = ''message''" by (simp add: st)
  show "attrs stanza = stanzaAttrs W me jid msgId m (o_participant opts) (l_additionalAttributes L)"
    by (simp add: st)
  have "if l_shouldIncludeDeviceIdentity L
        then \<exists>b. di = [Node ''device-identity'' Map.empty (Bytes b)] else di = []"
    using d by (auto simp: andThen_Inr ret_Inr split: if_splits)
  then show "\<exists>di. children stanza
            = l_binaryNodeContent L
              @ (if l_participants L \<noteq> []
                 then (if l_additionalAttributes L ''category'' = Some ''peer''
                       then (case peerNode (l_participants L) of None \<Rightarrow> [] | Some n \<Rightarrow> [n])
                       else [Node ''participants'' Map.empty (Children (l_participants L))])
                 else [])
              @ di @ bizNodes m
              @ (case o_additionalNodes opts of None \<Rightarrow> [] | Some ns \<Rightarrow> ns)
          \<and> (if l_shouldIncludeDeviceIdentity L
              then \<exists>b. di = [Node ''device-identity'' Map.empty (Bytes b)] else di = [])"
    by (intro exI [of _ di]) (simp add: st children_def)
qed

lemma relayMessage_head:
  assumes "relayMessage W E jid m opts s = (Inr r, s')"
  obtains me decoded msgId devices s1 where
    "creds_me E = Some me" "jidDecode W jid = Some decoded"
    "messageIdOf E me opts s = (Inr msgId, s1)"
    "participantDevice W (o_participant opts) = Inr devices"
    "sent s1 = sent s" "encrypted s1 = encrypted s" "asserted s1 = asserted s"
    "(if fj_server decoded = ''newsletter''
      then andThen (newsletterBranch E jid msgId m (initialAttributes opts decoded jid))
             (\<lambda>u. ret msgId)
      else andThen (relayBranch W E me jid decoded m opts devices)
             (\<lambda>L. andThen (buildStanza W E me jid msgId m opts L)
                (\<lambda>stanza. andThen (doSendNode E stanza)
                   (\<lambda>u. andThen (remember E jid msgId m opts) (\<lambda>u. ret msgId))))) s1
       = (Inr r, s')"
proof -
  from assms obtain me :: credsMe where me: "creds_me E = Some me"
    by (cases "creds_me E") (simp_all add: relayMessage_def throw_Inr)
  from assms me obtain decoded :: fulljid where dec: "jidDecode W jid = Some decoded"
    by (cases "jidDecode W jid") (simp_all add: relayMessage_def throw_Inr)
  from assms me dec obtain msgId s1 where
    i: "messageIdOf E me opts s = (Inr msgId, s1)"
    and k: "(case participantDevice W (o_participant opts) of
               Inl e \<Rightarrow> throw e
             | Inr devices \<Rightarrow>
                 if fj_server decoded = ''newsletter''
                 then andThen (newsletterBranch E jid msgId m (initialAttributes opts decoded jid))
                        (\<lambda>u. ret msgId)
                 else andThen (relayBranch W E me jid decoded m opts devices)
                        (\<lambda>L. andThen (buildStanza W E me jid msgId m opts L)
                           (\<lambda>stanza. andThen (doSendNode E stanza)
                              (\<lambda>u. andThen (remember E jid msgId m opts) (\<lambda>u. ret msgId))))) s1
           = (Inr r, s')"
    by (auto simp: relayMessage_def andThen_Inr)
  from k obtain devices where
    pd: "participantDevice W (o_participant opts) = Inr devices" and
    k': "(if fj_server decoded = ''newsletter''
          then andThen (newsletterBranch E jid msgId m (initialAttributes opts decoded jid))
                 (\<lambda>u. ret msgId)
          else andThen (relayBranch W E me jid decoded m opts devices)
                 (\<lambda>L. andThen (buildStanza W E me jid msgId m opts L)
                    (\<lambda>stanza. andThen (doSendNode E stanza)
                       (\<lambda>u. andThen (remember E jid msgId m opts) (\<lambda>u. ret msgId))))) s1
           = (Inr r, s')"
    by (cases "participantDevice W (o_participant opts)") (simp_all add: throw_Inr)
  have "preserves g (messageIdOf E me opts)"
    if "\<And>s w. g (s\<lparr>world := w\<rparr>) = g s" for g :: "'a sys \<Rightarrow> 'x"
    unfolding messageIdOf_def
    by (intro preserves_intros preserves_call that)
  note pm = preservesD [OF this i]
  have "sent s1 = sent s" "encrypted s1 = encrypted s" "asserted s1 = asserted s"
    by (rule pm; simp)+
  with me dec i pd show ?thesis
    using k' by (rule that)
qed

lemma relayMessage_tail:
  assumes "andThen (relayBranch W E me jid decoded m opts devices)
             (\<lambda>L. andThen (buildStanza W E me jid msgId m opts L)
                (\<lambda>stanza. andThen (doSendNode E stanza)
                   (\<lambda>u. andThen (remember E jid msgId m opts) (\<lambda>u. ret msgId)))) s1
           = (Inr r, s')"
  obtains L s2 stanza s3 where
    "relayBranch W E me jid decoded m opts devices s1 = (Inr L, s2)"
    "buildStanza W E me jid msgId m opts L s2 = (Inr stanza, s3)"
    "sent s' = sent s3 @ [stanza]" "encrypted s' = encrypted s3" "asserted s' = asserted s3"
proof -
  from assms obtain L s2 stanza s3 s4 where
    b: "relayBranch W E me jid decoded m opts devices s1 = (Inr L, s2)"
    and st: "buildStanza W E me jid msgId m opts L s2 = (Inr stanza, s3)"
    and sn: "doSendNode E stanza s3 = (Inr (), s4)"
    and rm: "remember E jid msgId m opts s4 = (Inr (), s')"
    by (auto simp: andThen_Inr ret_Inr)
  from sn have s4: "sent s4 = sent s3 @ [stanza]" "encrypted s4 = encrypted s3" "asserted s4 = asserted s3"
    by (auto simp: doSendNode_def call_Inr)
  have "preserves g (remember E jid msgId m opts)"
    if "\<And>s w. g (s\<lparr>world := w\<rparr>) = g s" for g :: "'a sys \<Rightarrow> 'x"
    unfolding remember_def
    by (intro preserves_intros preserves_call that)
  note pr = preservesD [OF this rm]
  have "sent s' = sent s4" "encrypted s' = encrypted s4" "asserted s' = asserted s4"
    by (rule pr; simp)+
  with s4 have "sent s' = sent s3 @ [stanza]" "encrypted s' = encrypted s3" "asserted s' = asserted s3"
    by simp_all
  with b st show ?thesis by (rule that)
qed

subsection \<open>Claims on relayMessage\<close>

lemma preserves_newsletterBranch:
  assumes w: "\<And>s w. g (s\<lparr>world := w\<rparr>) = g s" and e: "\<And>s l. g (s\<lparr>sent := l\<rparr>) = g s"
  shows "preserves g (newsletterBranch E jid msgId m aa)"
  unfolding newsletterBranch_def
  by (intro preserves_intros preserves_call preserves_doSendNode w e)

lemma extraAttrsOf_type: "extraAttrsOf E m ''type'' = None"
  by (simp add: extraAttrsOf_def Let_def)

lemma extraAttrsOf_count: "extraAttrsOf E m ''count'' = None"
  by (simp add: extraAttrsOf_def Let_def)

lemma ctypeString_not_skmsg: "ctypeString t \<noteq> ''skmsg''"
  by (cases t) (simp_all add: ctypeString_def)

text \<open>
  C3. If a pairwise encryption made during a \<open>relayMessage\<close> call that returns gave
  the ciphertext type \<open>pkmsg\<close> (the call added an entry of type \<open>Pkmsg\<close> to the
  encryptions noted), then the call handed exactly one stanza to \<open>sendNode\<close> and this
  stanza has a \<open>device-identity\<close> child.
\<close>

theorem relayMessage_pkmsg_device_identity:
  assumes "relayMessage W E jid m opts s = (Inr msgId, s')"
    and "(j, Pkmsg) \<in> set (drop (length (encrypted s)) (encrypted s'))"
  shows "\<exists>stanza. sent s' = sent s @ [stanza]
           \<and> list_ex (\<lambda>c. tag c = ''device-identity'') (children stanza)"
proof -
  from relayMessage_head [OF assms(1)] obtain me decoded mid devices s1 where
    s1: "sent s1 = sent s" "encrypted s1 = encrypted s"
    and k: "(if fj_server decoded = ''newsletter''
      then andThen (newsletterBranch E jid mid m (initialAttributes opts decoded jid))
             (\<lambda>u. ret mid)
      else andThen (relayBranch W E me jid decoded m opts devices)
             (\<lambda>L. andThen (buildStanza W E me jid mid m opts L)
                (\<lambda>stanza. andThen (doSendNode E stanza)
                   (\<lambda>u. andThen (remember E jid mid m opts) (\<lambda>u. ret mid))))) s1
       = (Inr msgId, s')"
    by metis
  show ?thesis
  proof (cases "fj_server decoded = ''newsletter''")
    case True
    with k obtain u where "newsletterBranch E jid mid m (initialAttributes opts decoded jid) s1 = (Inr u, s')"
      by (auto simp: andThen_Inr ret_Inr)
    from preservesD [OF preserves_newsletterBranch this, of encrypted]
    have "encrypted s' = encrypted s1" by simp
    with s1 assms(2) show ?thesis by simp
  next
    case False
    with k have "andThen (relayBranch W E me jid decoded m opts devices)
             (\<lambda>L. andThen (buildStanza W E me jid mid m opts L)
                (\<lambda>stanza. andThen (doSendNode E stanza)
                   (\<lambda>u. andThen (remember E jid mid m opts) (\<lambda>u. ret mid)))) s1
       = (Inr msgId, s')"
      by simp
    from relayMessage_tail [OF this] obtain L s2 stanza s3 where
      b: "relayBranch W E me jid decoded m opts devices s1 = (Inr L, s2)"
      and st: "buildStanza W E me jid mid m opts L s2 = (Inr stanza, s3)"
      and e: "sent s' = sent s3 @ [stanza]" "encrypted s' = encrypted s3"
      by metis
    note bs = relayBranch_spec [OF b]
    note ss = buildStanza_spec [OF st]
    from bs(2) obtain log where
      l: "encrypted s2 = encrypted s1 @ log"
      and f: "(\<exists>j. (j, Pkmsg) \<in> set log) \<longrightarrow> l_shouldIncludeDeviceIdentity L"
      by blast
    have "encrypted s' = encrypted s @ log"
      using e ss(2) l s1 by simp
    with assms(2) have "(j, Pkmsg) \<in> set log" by simp
    with f have flag: "l_shouldIncludeDeviceIdentity L" by blast
    from ss(6) flag obtain di b where
      "children stanza
            = l_binaryNodeContent L
              @ (if l_participants L \<noteq> []
                 then (if l_additionalAttributes L ''category'' = Some ''peer''
                       then (case peerNode (l_participants L) of None \<Rightarrow> [] | Some n \<Rightarrow> [n])
                       else [Node ''participants'' Map.empty (Children (l_participants L))])
                 else [])
              @ di @ bizNodes m
              @ (case o_additionalNodes opts of None \<Rightarrow> [] | Some ns \<Rightarrow> ns)"
      and "di = [Node ''device-identity'' Map.empty (Bytes b)]"
      by auto
    then have "list_ex (\<lambda>c. tag c = ''device-identity'') (children stanza)"
      by (simp add: list_ex_iff)
    moreover have "sent s' = sent s @ [stanza]"
      using e ss(1) bs(1) s1 by simp
    ultimately show ?thesis by blast
  qed
qed

lemma relayMessage_stanza:
  assumes "relayMessage W E jid m opts s = (Inr msgId, s')"
    and "creds_me E = Some me" and "jidDecode W jid = Some decoded"
    and "fj_server decoded \<noteq> ''newsletter''"
  obtains mid devices s1 L s2 stanza s3 where
    "asserted s1 = asserted s" "participantDevice W (o_participant opts) = Inr devices"
    "relayBranch W E me jid decoded m opts devices s1 = (Inr L, s2)"
    "buildStanza W E me jid mid m opts L s2 = (Inr stanza, s3)"
    "sent s' = sent s @ [stanza]" "asserted s' = asserted s2"
proof -
  from relayMessage_head [OF assms(1)] obtain me' decoded' mid devices s1 where
    "creds_me E = Some me'" "jidDecode W jid = Some decoded'"
    and pd: "participantDevice W (o_participant opts) = Inr devices"
    and s1: "sent s1 = sent s" "asserted s1 = asserted s"
    and k: "(if fj_server decoded' = ''newsletter''
      then andThen (newsletterBranch E jid mid m (initialAttributes opts decoded' jid))
             (\<lambda>u. ret mid)
      else andThen (relayBranch W E me' jid decoded' m opts devices)
             (\<lambda>L. andThen (buildStanza W E me' jid mid m opts L)
                (\<lambda>stanza. andThen (doSendNode E stanza)
                   (\<lambda>u. andThen (remember E jid mid m opts) (\<lambda>u. ret mid))))) s1
       = (Inr msgId, s')"
    by metis
  with assms have "me' = me" "decoded' = decoded" by simp_all
  with k assms(4) have "andThen (relayBranch W E me jid decoded m opts devices)
             (\<lambda>L. andThen (buildStanza W E me jid mid m opts L)
                (\<lambda>stanza. andThen (doSendNode E stanza)
                   (\<lambda>u. andThen (remember E jid mid m opts) (\<lambda>u. ret mid)))) s1
       = (Inr msgId, s')"
    by simp
  from relayMessage_tail [OF this] obtain L s2 stanza s3 where
    b: "relayBranch W E me jid decoded m opts devices s1 = (Inr L, s2)"
    and st: "buildStanza W E me jid mid m opts L s2 = (Inr stanza, s3)"
    and e: "sent s' = sent s3 @ [stanza]" "asserted s' = asserted s3"
    by metis
  note bs = relayBranch_spec [OF b]
  note ss = buildStanza_spec [OF st]
  have "sent s' = sent s @ [stanza]" using e ss(1) bs(1) s1 by simp
  moreover have "asserted s' = asserted s2" using e ss(3) by simp
  ultimately show ?thesis using s1(2) pd b st by (intro that [of s1 devices L s2 mid stanza s3])
qed

lemma toNode_noCount: "noCount [toNode j t c (extraAttrsOf E m)]"
  by (simp add: noCount_def toNode_def children_def extraAttrsOf_count map_add_def)





lemma participants_no_skmsg:
  assumes "list_all (\<lambda>n. \<exists>j t c. n = toNode j t c (extraAttrsOf E m) \<and> truthy j) ps"
  shows "filter isSkmsgEnc
           (if ps \<noteq> []
            then (if aa ''category'' = Some ''peer''
                  then (case peerNode ps of None \<Rightarrow> [] | Some n \<Rightarrow> [n])
                  else [Node ''participants'' Map.empty (Children ps)])
            else []) = []"
proof -
  have "\<not> isSkmsgEnc e" if "peerNode ps = Some e" for e
  proof -
    from that obtain p ps' where ps: "ps = p # ps'" and e: "e \<in> set (children p)"
      by (auto simp: peerNode_def children_def split: list.splits ncontent.splits)
    from assms ps obtain j t c where "p = toNode j t c (extraAttrsOf E m)"
      by auto
    with e have "attrs e ''type'' = Some (ctypeString t)"
      by (auto simp: toNode_def children_def map_add_def extraAttrsOf_type)
    then show ?thesis
      using ctypeString_not_skmsg [of t] by (simp add: isSkmsgEnc_def)
  qed
  then show ?thesis
    by (auto simp: isSkmsgEnc_def split: option.splits)
qed

lemma bizNodes_no_skmsg: "filter isSkmsgEnc (bizNodes m) = []"
  by (simp add: bizNodes_def isSkmsgEnc_def split: option.splits)

text \<open>
  C2, amended. The stanza that a successful \<open>relayMessage\<close> call sends has, among its
  children, this number of \<open>enc\<close> nodes of type \<open>skmsg\<close>: none for a newsletter;
  otherwise one when the destination is a group (server \<open>g.us\<close>) or the status feed
  and the call is not a retry resend (no participant with a non-empty JID), none when it
  is one or when the destination is direct; plus, in each case, those that the caller
  passed in \<open>additionalNodes\<close>.
\<close>

theorem relayMessage_skmsg_count:
  assumes "relayMessage W E jid m opts s = (Inr msgId, s')"
    and "jidDecode W jid = Some decoded"
  shows "\<exists>stanza. sent s' = sent s @ [stanza]
           \<and> length (filter isSkmsgEnc (children stanza))
               = (if fj_server decoded = ''newsletter'' then 0
                  else (if (fj_server decoded = ''g.us'' \<or> jid = ''status@broadcast'')
                           \<and> \<not> isRetryResend (o_participant opts) then 1 else 0)
                       + length (filter isSkmsgEnc
                           (case o_additionalNodes opts of None \<Rightarrow> [] | Some ns \<Rightarrow> ns)))"
proof (cases "fj_server decoded = ''newsletter''")
  case True
  from relayMessage_head [OF assms(1)] obtain me decoded' mid devices s1 where
    "jidDecode W jid = Some decoded'"
    and s1: "sent s1 = sent s"
    and k: "(if fj_server decoded' = ''newsletter''
      then andThen (newsletterBranch E jid mid m (initialAttributes opts decoded' jid))
             (\<lambda>u. ret mid)
      else andThen (relayBranch W E me jid decoded' m opts devices)
             (\<lambda>L. andThen (buildStanza W E me jid mid m opts L)
                (\<lambda>stanza. andThen (doSendNode E stanza)
                   (\<lambda>u. andThen (remember E jid mid m opts) (\<lambda>u. ret mid))))) s1
       = (Inr msgId, s')"
    by metis
  with assms(2) True have
    "newsletterBranch E jid mid m (initialAttributes opts decoded jid) s1 = (Inr (), s')"
    by (auto simp: andThen_Inr ret_Inr)
  then obtain patched s2 where
    p: "(case patchMessageBeforeSending E of
          None \<Rightarrow> ret (Single m)
        | Some patch \<Rightarrow> call (patch m (Some []))) s1 = (Inr patched, s2)"
    and sn: "doSendNode E
            (Node ''message''
               ([''to'' \<mapsto> jid, ''id'' \<mapsto> mid, ''type'' \<mapsto> getMessageType m]
                  ++ initialAttributes opts decoded jid)
               (Children [Node ''plaintext'' Map.empty (Bytes (encodeNewsletterMessage E patched))]))
            s2 = (Inr (), s')"
    by (auto simp: newsletterBranch_def andThen_Inr)
  have "preserves sent (case patchMessageBeforeSending E of
          None \<Rightarrow> ret (Single m)
        | Some patch \<Rightarrow> call (patch m (Some [])))"
    by (intro preserves_intros preserves_call) simp
  from preservesD [OF this p] have s2: "sent s2 = sent s1" .
  from sn have "sent s' = sent s2 @
      [Node ''message''
               ([''to'' \<mapsto> jid, ''id'' \<mapsto> mid, ''type'' \<mapsto> getMessageType m]
                  ++ initialAttributes opts decoded jid)
               (Children [Node ''plaintext'' Map.empty (Bytes (encodeNewsletterMessage E patched))])]"
    by (auto simp: doSendNode_def call_Inr)
  with s1 s2 True show ?thesis
    by (simp add: children_def isSkmsgEnc_def)
next
  case False
  from relayMessage_head [OF assms(1)] obtain me :: credsMe where me: "creds_me E = Some me"
    by metis
  from relayMessage_stanza [OF assms(1) me assms(2) False] obtain mid devices s1 L s2 stanza s3 where
    b: "relayBranch W E me jid decoded m opts devices s1 = (Inr L, s2)"
    and st: "buildStanza W E me jid mid m opts L s2 = (Inr stanza, s3)"
    and sent: "sent s' = sent s @ [stanza]"
    by metis
  note bs = relayBranch_spec [OF b]
  note ss = buildStanza_spec [OF st]
  from ss(6) obtain di where
    ch: "children stanza
            = l_binaryNodeContent L
              @ (if l_participants L \<noteq> []
                 then (if l_additionalAttributes L ''category'' = Some ''peer''
                       then (case peerNode (l_participants L) of None \<Rightarrow> [] | Some n \<Rightarrow> [n])
                       else [Node ''participants'' Map.empty (Children (l_participants L))])
                 else [])
              @ di @ bizNodes m
              @ (case o_additionalNodes opts of None \<Rightarrow> [] | Some ns \<Rightarrow> ns)"
    and di: "if l_shouldIncludeDeviceIdentity L
             then \<exists>b. di = [Node ''device-identity'' Map.empty (Bytes b)] else di = []"
    by blast
  have n_di: "filter isSkmsgEnc di = []"
    using di by (auto simp: isSkmsgEnc_def split: if_splits)
  have n_c: "length (filter isSkmsgEnc (l_binaryNodeContent L))
      = (if (fj_server decoded = ''g.us'' \<or> jid = ''status@broadcast'')
            \<and> \<not> isRetryResend (o_participant opts) then 1 else 0)"
  proof (cases "fj_server decoded = ''g.us'' \<or> jid = ''status@broadcast''")
    case dir: False
    with bs(7) show ?thesis by simp
  next
    case grp: True
    show ?thesis
    proof (cases "isRetryResend (o_participant opts)")
      case True
      from bs(5) [OF grp True] obtain p :: relayParticipant and t c where
        "l_binaryNodeContent L
           = [Node ''enc'' [''v'' \<mapsto> ''2'', ''type'' \<mapsto> ctypeString t,
                            ''count'' \<mapsto> intToString (rp_count p)] (Bytes c)]"
        by blast
      with True show ?thesis
        using ctypeString_not_skmsg [of t] by (simp add: isSkmsgEnc_def)
    next
      case False
      from bs(6) [OF grp False] obtain c where
        "l_binaryNodeContent L
           = [Node ''enc'' ([''v'' \<mapsto> ''2'', ''type'' \<mapsto> ''skmsg''] ++ extraAttrsOf E m) (Bytes c)]"
        by blast
      with False grp show ?thesis
        by (simp add: isSkmsgEnc_def map_add_def extraAttrsOf_type)
    qed
  qed
  have "length (filter isSkmsgEnc (children stanza))
      = (if (fj_server decoded = ''g.us'' \<or> jid = ''status@broadcast'')
            \<and> \<not> isRetryResend (o_participant opts) then 1 else 0)
        + length (filter isSkmsgEnc (case o_additionalNodes opts of None \<Rightarrow> [] | Some ns \<Rightarrow> ns))"
    unfolding ch filter_append length_append
    using participants_no_skmsg [OF bs(3), of "l_additionalAttributes L"]
    by (simp only: n_di n_c bizNodes_no_skmsg list.size add_0_right add_0_left)
  with sent False show ?thesis by auto
qed








subsection \<open>Concrete runs of relayMessage\<close>

lemma ref_decode:
  "jidDecode refWABinary ''111@s.whatsapp.net''
     = Some \<lparr> fj_user = ''111'', fj_server = ''s.whatsapp.net'', fj_device = None \<rparr>"
  "jidDecode refWABinary ''111:1@s.whatsapp.net''
     = Some \<lparr> fj_user = ''111'', fj_server = ''s.whatsapp.net'', fj_device = Some 1 \<rparr>"
  "jidDecode refWABinary ''100:2@s.whatsapp.net''
     = Some \<lparr> fj_user = ''100'', fj_server = ''s.whatsapp.net'', fj_device = Some 2 \<rparr>"
  "jidDecode refWABinary ''100@s.whatsapp.net''
     = Some \<lparr> fj_user = ''100'', fj_server = ''s.whatsapp.net'', fj_device = None \<rparr>"
  "jidDecode refWABinary ''900:2@lid''
     = Some \<lparr> fj_user = ''900'', fj_server = ''lid'', fj_device = Some 2 \<rparr>"
  "jidDecode refWABinary ''g1@g.us''
     = Some \<lparr> fj_user = ''g1'', fj_server = ''g.us'', fj_device = None \<rparr>"
  by (simp_all add: refWABinary_def refJidDecode_def isDigit_def digitsToNat_def)

lemma refMe_sel: "me_id refMe = ''100:2@s.whatsapp.net''" "me_lid refMe = Some ''900:2@lid''"
  by (simp_all add: refMe_def)

lemma sys0_sel:
  "world sys0 = 0" "sent sys0 = []" "encrypted sys0 = []" "asserted sys0 = []" "usync sys0 = []"
  by (simp_all add: sys0_def)

lemma retryOptions_sel:
  "o_participant retryOptions = Some refRetry"
  "o_messageId retryOptions = Some ''M1''"
  "o_additionalAttributes retryOptions = None"
  "o_additionalNodes retryOptions = None"
  "o_useCachedGroupMetadata retryOptions = None"
  by (simp_all add: retryOptions_def refOptions_def)

lemma refOptions_sel:
  "o_participant refOptions = None"
  "o_messageId refOptions = Some ''M1''"
  "o_additionalAttributes refOptions = None"
  "o_additionalNodes refOptions = None"
  "o_useCachedGroupMetadata refOptions = None"
  "o_useUserDevicesCache refOptions = None"
  "o_statusJidList refOptions = None"
  by (simp_all add: refOptions_def)

lemma patchedEnv_sel:
  "compatV6GroupSend (patchedEnv P) = True"
  "creds_me (patchedEnv P) = Some refMe"
  "sendNode (patchedEnv P) = (\<lambda>n w. (Inr (), w))"
  "assertSessionsInternal (patchedEnv P) = (\<lambda>jids w. (Inr False, w))"
  "encryptMessage (patchedEnv P) = (\<lambda>jid data w. (Inr (if w = 0 then Pkmsg else Msg, data), Suc w))"
  "patchMessageBeforeSending (patchedEnv P) = Some P"
  "encodeWAMessage (patchedEnv P) = (\<lambda>m. [21])"
  "encodeSignedDeviceIdentity (patchedEnv P) = (\<lambda>w. (Inr [23], w))"
  "addRecentMessage (patchedEnv P) = None"
  by (simp_all add: patchedEnv_def refEnv_sel)

lemma patchedEnv_extraAttrs: "extraAttrsOf (patchedEnv P) m = extraAttrsOf refEnv m"
  by (simp add: extraAttrsOf_def patchedEnv_def)

lemma patchedEnv_refEnv: "patchedEnv (\<lambda>m rs w. (Inr (Single m), w)) = refEnv"
  by (simp add: patchedEnv_def refEnv_def)

lemma assertSessions_ok:
  assumes "assertSessionsInternal E = (\<lambda>jids w. (Inr False, w))"
  shows "assertSessions E js s = (Inr False, s\<lparr>asserted := asserted s @ [js]\<rparr>)"
  by (simp add: assertSessions_def assms tryCatch_def call_def ret_def)

lemma doEncryptMessage_ok:
  assumes "encryptMessage E = (\<lambda>jid data w. (Inr (if w = 0 then Pkmsg else Msg, data), Suc w))"
  shows "doEncryptMessage E j d s
           = (Inr (if world s = 0 then Pkmsg else Msg, d),
              s\<lparr>world := Suc (world s),
                encrypted := encrypted s @ [(j, if world s = 0 then Pkmsg else Msg)]\<rparr>)"
  by (simp add: doEncryptMessage_def assms call_def)

lemma encryptEach_ok:
  assumes "encryptMessage E = (\<lambda>jid data w. (Inr (if w = 0 then Pkmsg else Msg, data), Suc w))"
    and "truthy j"
  shows "encryptEach W E me xa dsm ((j, pm) # rest) s
           = (case msgToEncrypt W me dsm j pm of
                Inl e \<Rightarrow> (Inl e, s)
              | Inr em \<Rightarrow>
                  (case encryptEach W E me xa dsm rest
                          (s\<lparr>world := Suc (world s),
                             encrypted := encrypted s @ [(j, if world s = 0 then Pkmsg else Msg)]\<rparr>) of
                     (Inl e, s') \<Rightarrow> (Inl e, s')
                   | (Inr r, s') \<Rightarrow>
                       (Inr (toNode j (if world s = 0 then Pkmsg else Msg) (encodeWAMessage E em) xa
                               # fst r,
                             world s = 0 \<or> snd r), s')))"
  using assms(2)
  by (simp add: doEncryptMessage_ok [OF assms(1)] andThen_def tryCatch_def ret_def throw_def
      split: sum.splits prod.splits)

lemma createParticipantNodes_nil: "createParticipantNodes W E [] m xa dsm = ret ([], False)"
  by (simp add: createParticipantNodes_def)

lemma bizNodes_refMessage: "bizNodes refMessage = []"
  by (simp add: bizNodes_def getButtonType_def refMessage_def has_def)

subsection \<open>A resend to one device of a direct chat\<close>

lemma direct_retry_run:
  assumes c: "createParticipantNodes refWABinary (patchedEnv P) [''111:1@s.whatsapp.net''] refMessage
           (extraAttrsOf refEnv refMessage)
           (Some (DeviceSentMessage ''111@s.whatsapp.net'' refMessage))
           (sys0\<lparr>asserted := [[''111:1@s.whatsapp.net'']]\<rparr>) = (Inr (nodes, b), s1)"
    and n: "nodes \<noteq> []"
  shows "relayMessage refWABinary (patchedEnv P) ''111@s.whatsapp.net'' refMessage retryOptions sys0
           = (Inr ''M1'', s1\<lparr>sent := sent s1 @ [directRetryStanza nodes]\<rparr>)"
proof -
  have i: "initialAttributes retryOptions
             \<lparr> fj_user = ''111'', fj_server = ''s.whatsapp.net'', fj_device = None \<rparr>
             ''111@s.whatsapp.net'' = [''device_fanout'' \<mapsto> ''false'']"
    by (simp add: initialAttributes_def retryOptions_sel spread_def)
  have p: "participantDevice refWABinary (Some refRetry)
             = Inr [\<lparr> d_user = ''111'', d_device = Some 1, d_jid = ''111:1@s.whatsapp.net'' \<rparr>]"
    by (simp add: participantDevice_def refRetry_def ref_decode)
  have r: "isRetryResend (Some refRetry)"
    by (simp add: isRetryResend_def refRetry_def truthy_def)
  have sr: "sendToRecipients refWABinary (patchedEnv P) refMe ''111@s.whatsapp.net'' refMessage
              retryOptions [''device_fanout'' \<mapsto> ''false''] ''100'' (Some ''900'')
              [\<lparr> d_user = ''111'', d_device = Some 1, d_jid = ''111:1@s.whatsapp.net'' \<rparr>] sys0
            = (Inr \<lparr> l_participants = nodes, l_binaryNodeContent = [],
                     l_additionalAttributes = [''device_fanout'' \<mapsto> ''false''],
                     l_shouldIncludeDeviceIdentity = True \<rparr>, s1)"
    by (simp add: sendToRecipients_def recipientsOf_def isExactSenderDevice_def refMe_sel isMe_def
        assertSessions_ok [OF patchedEnv_sel(4)] sys0_sel createParticipantNodes_nil
        patchedEnv_extraAttrs c andThen_def ret_def retryOptions_sel r)
  have d: "directBranch refWABinary (patchedEnv P) refMe ''111@s.whatsapp.net'' ''111'' False
             refMessage retryOptions [''device_fanout'' \<mapsto> ''false'']
             [\<lparr> d_user = ''111'', d_device = Some 1, d_jid = ''111:1@s.whatsapp.net'' \<rparr>] sys0
           = (Inr \<lparr> l_participants = nodes, l_binaryNodeContent = [],
                     l_additionalAttributes = [''device_fanout'' \<mapsto> ''false''],
                     l_shouldIncludeDeviceIdentity = True \<rparr>, s1)"
    by (simp add: directBranch_def ownIdOf_def refMe_sel ref_decode meLidUserOf_def truthy_def
        andThen_def ret_def sr retryOptions_sel)
  have st: "buildStanza refWABinary (patchedEnv P) refMe ''111@s.whatsapp.net'' ''M1'' refMessage
              retryOptions
              \<lparr> l_participants = nodes, l_binaryNodeContent = [],
                l_additionalAttributes = [''device_fanout'' \<mapsto> ''false''],
                l_shouldIncludeDeviceIdentity = True \<rparr> s
            = (Inr (directRetryStanza nodes), s)" for s :: "nat sys"
    using n
    by (simp add: buildStanza_def patchedEnv_sel andThen_def call_def ret_def bizNodes_refMessage
        retryOptions_sel directRetryStanza_def)
  show ?thesis
    by (simp add: relayMessage_def patchedEnv_sel ref_decode messageIdOf_def retryOptions_sel
        truthy_def p andThen_def ret_def relayBranch_def i d st doSendNode_def call_def
        remember_def)
qed

lemma direct_retry_msgToEncrypt:
  "msgToEncrypt refWABinary refMe (Some (DeviceSentMessage ''111@s.whatsapp.net'' refMessage))
     ''111:1@s.whatsapp.net'' refMessage = Inr refMessage"
  "msgToEncrypt refWABinary refMe (Some (DeviceSentMessage ''111@s.whatsapp.net'' refMessage))
     ''100:2@s.whatsapp.net'' refMessage = Inr refMessage"
  by (simp_all add: msgToEncrypt_def ref_decode refMe_sel lidUserOf_def truthy_def truthyOpt_def
      isExactSenderDevice_def Let_def)

lemma direct_retry_single:
  "relayMessage refWABinary refEnv ''111@s.whatsapp.net'' refMessage retryOptions sys0
     = (Inr ''M1'',
        \<lparr> world = 1,
          sent = [directRetryStanza
                    [toNode ''111:1@s.whatsapp.net'' Pkmsg [21] (extraAttrsOf refEnv refMessage)]],
          encrypted = [(''111:1@s.whatsapp.net'', Pkmsg)],
          asserted = [[''111:1@s.whatsapp.net'']], usync = [] \<rparr>)"
proof -
  have "createParticipantNodes refWABinary (patchedEnv (\<lambda>m rs w. (Inr (Single m), w)))
           [''111:1@s.whatsapp.net''] refMessage
           (extraAttrsOf refEnv refMessage)
           (Some (DeviceSentMessage ''111@s.whatsapp.net'' refMessage))
           (sys0\<lparr>asserted := [[''111:1@s.whatsapp.net'']]\<rparr>)
        = (Inr ([toNode ''111:1@s.whatsapp.net'' Pkmsg [21] (extraAttrsOf refEnv refMessage)], True),
           \<lparr> world = 1, sent = [], encrypted = [(''111:1@s.whatsapp.net'', Pkmsg)],
             asserted = [[''111:1@s.whatsapp.net'']], usync = [] \<rparr>)"
    by (simp add: createParticipantNodes_def patchedEnv_sel andThen_def call_def ret_def
        encryptEach_ok [OF patchedEnv_sel(5)] truthy_def direct_retry_msgToEncrypt sys0_def
        del: encryptEach.simps(2))
  from direct_retry_run [OF this] show ?thesis
    by (simp add: patchedEnv_refEnv)
qed



subsection \<open>A send to the group, in both modes\<close>

lemma flagEnv_sel:
  "compatV6GroupSend (refEnv\<lparr>compatV6GroupSend := flag\<rparr>) = flag"
  "creds_me (refEnv\<lparr>compatV6GroupSend := flag\<rparr>) = Some refMe"
  "sendNode (refEnv\<lparr>compatV6GroupSend := flag\<rparr>) = (\<lambda>n w. (Inr (), w))"
  "assertSessionsInternal (refEnv\<lparr>compatV6GroupSend := flag\<rparr>) = (\<lambda>jids w. (Inr False, w))"
  "encryptMessage (refEnv\<lparr>compatV6GroupSend := flag\<rparr>)
     = (\<lambda>jid data w. (Inr (if w = 0 then Pkmsg else Msg, data), Suc w))"
  "patchMessageBeforeSending (refEnv\<lparr>compatV6GroupSend := flag\<rparr>)
     = Some (\<lambda>m rs w. (Inr (Single m), w))"
  "encodeWAMessage (refEnv\<lparr>compatV6GroupSend := flag\<rparr>) = (\<lambda>m. [21])"
  "encodeSignedDeviceIdentity (refEnv\<lparr>compatV6GroupSend := flag\<rparr>) = (\<lambda>w. (Inr [23], w))"
  "addRecentMessage (refEnv\<lparr>compatV6GroupSend := flag\<rparr>) = None"
  "cachedGroupMetadata (refEnv\<lparr>compatV6GroupSend := flag\<rparr>)
     = Some (\<lambda>jid w. (Inr (Some refGroup), w))"
  "keysGetSenderKeyMemory (refEnv\<lparr>compatV6GroupSend := flag\<rparr>)
     = (\<lambda>jid w. (Inr (Some [''111:1@s.whatsapp.net'' \<mapsto> True]), w))"
  "keysSetSenderKeyMemory (refEnv\<lparr>compatV6GroupSend := flag\<rparr>) = (\<lambda>jid m w. (Inr (), w))"
  "encryptGroupMessage (refEnv\<lparr>compatV6GroupSend := flag\<rparr>) = (\<lambda>g data me w. (Inr (data, [27]), w))"
  "userDevicesCache_mget (refEnv\<lparr>compatV6GroupSend := flag\<rparr>) = None"
  by (simp_all add: refEnv_sel)

lemma flagEnv_extraAttrs:
  "extraAttrsOf (refEnv\<lparr>compatV6GroupSend := flag\<rparr>) m = extraAttrsOf refEnv m"
  by (simp add: extraAttrsOf_def)

lemma refEnv_flag: "refEnv\<lparr>compatV6GroupSend := True\<rparr> = refEnv"
  by (simp add: refEnv_def)

lemma group_resolve:
  "resolveGroupData (refEnv\<lparr>compatV6GroupSend := flag\<rparr>) ''g1@g.us'' False True s
     = (Inr (Some refGroup), s)"
  by (simp add: resolveGroupData_def flagEnv_sel andThen_def call_def ret_def truthyNumber_def
      refGroup_def)

lemma group_memory:
  "loadSenderKeyMap (refEnv\<lparr>compatV6GroupSend := flag\<rparr>) ''g1@g.us'' False None s
     = (Inr [''111:1@s.whatsapp.net'' \<mapsto> True], s)"
  "loadSenderKeyMap (refEnv\<lparr>compatV6GroupSend := flag\<rparr>) ''g1@g.us'' False (Some refRetry) s
     = (Inr Map.empty, s)"
  by (simp_all add: loadSenderKeyMap_def flagEnv_sel andThen_def call_def ret_def)

lemma group_participants:
  "groupParticipantsList refWABinary (refEnv\<lparr>compatV6GroupSend := flag\<rparr>) False (Some refGroup)
     None s = (Inr [''111:1@s.whatsapp.net''], s)"
  by (simp add: groupParticipantsList_def refGroup_def lidOrId_def addressingModeOf_def
      andThen_def ret_def)

lemma group_usync:
  "getUSyncDevices refWABinary (refEnv\<lparr>compatV6GroupSend := flag\<rparr>) [''111:1@s.whatsapp.net'']
     True False s
     = (Inr [\<lparr> d_user = ''111'', d_device = Some 1, d_jid = ''111:1@s.whatsapp.net'' \<rparr>], s)"
proof -
  have e: "explicitDevice refWABinary ''111:1@s.whatsapp.net''
      = Some \<lparr> d_user = ''111'', d_device = Some 1, d_jid = ''111:1@s.whatsapp.net'' \<rparr>"
    by (simp add: explicitDevice_def ref_decode truthy_def)
  show ?thesis
    by (simp add: getUSyncDevices_def e List.map_filter_simps andThen_def ret_def flagEnv_sel)
qed

lemma group_own_device:
  "ownPrimaryDevice refWABinary refMe (Some refGroup)
     [\<lparr> d_user = ''111'', d_device = Some 1, d_jid = ''111:1@s.whatsapp.net'' \<rparr>]
     = [\<lparr> d_user = ''100'', d_device = Some 0, d_jid = ''100@s.whatsapp.net'' \<rparr>]"
proof -
  have "jidNormalizedUser refWABinary ''100:2@s.whatsapp.net'' = ''100@s.whatsapp.net''"
    using ref_decode(3)
    by (simp add: refWABinary_def refJidNormalizedUser_def refJidEncode_def)
  then show ?thesis
    by (simp add: ownPrimaryDevice_def addressingModeOf_def refGroup_def refMe_sel ref_decode
        truthy_def Let_def)
qed

lemma group_devices:
  "groupDevices refWABinary (refEnv\<lparr>compatV6GroupSend := flag\<rparr>) refMe False (Some refGroup)
     refOptions Map.empty s
     = (Inr ([\<lparr> d_user = ''111'', d_device = Some 1, d_jid = ''111:1@s.whatsapp.net'' \<rparr>,
              \<lparr> d_user = ''100'', d_device = Some 0, d_jid = ''100@s.whatsapp.net'' \<rparr>],
             [''addressing_mode'' \<mapsto> ''pn'']), s)"
proof -
  have a: "addressingModeOf (Some refGroup) = Some ''pn''"
    by (simp add: addressingModeOf_def refGroup_def)
  show ?thesis
    by (simp add: groupDevices_def group_participants refOptions_sel group_usync group_own_device
        andThen_def ret_def a truthy_def)
qed

lemma group_senderIds:
  "senderId refWABinary \<lparr> d_user = ''111'', d_device = Some 1, d_jid = ''111:1@s.whatsapp.net'' \<rparr>
     = ''111:1@s.whatsapp.net''"
  "senderId refWABinary \<lparr> d_user = ''100'', d_device = Some 0, d_jid = ''100@s.whatsapp.net'' \<rparr>
     = ''100@s.whatsapp.net''"
proof -
  have e: "jidEncode refWABinary = refJidEncode"
    by (simp add: refWABinary_def)
  show "senderId refWABinary \<lparr> d_user = ''111'', d_device = Some 1, d_jid = ''111:1@s.whatsapp.net'' \<rparr>
     = ''111:1@s.whatsapp.net''"
    by (simp add: senderId_def ref_decode truthy_def e refJidEncode_def intToString_def)
  show "senderId refWABinary \<lparr> d_user = ''100'', d_device = Some 0, d_jid = ''100@s.whatsapp.net'' \<rparr>
     = ''100@s.whatsapp.net''"
    by (simp add: senderId_def ref_decode truthy_def e refJidEncode_def)
qed

lemma msgToEncrypt_plain: "msgToEncrypt W me None j pm = Inr pm"
  by (simp add: msgToEncrypt_def)

lemma group_distribute:
  "distributeSenderKey refWABinary (refEnv\<lparr>compatV6GroupSend := flag\<rparr>) ''g1@g.us''
     (extraAttrsOf refEnv refMessage) [27] [''111:1@s.whatsapp.net'', ''100@s.whatsapp.net''] sys0
   = (Inr ([toNode ''111:1@s.whatsapp.net'' Pkmsg [21] (extraAttrsOf refEnv refMessage),
            toNode ''100@s.whatsapp.net'' Msg [21] (extraAttrsOf refEnv refMessage)], True),
      \<lparr> world = 2, sent = [],
        encrypted = [(''111:1@s.whatsapp.net'', Pkmsg), (''100@s.whatsapp.net'', Msg)],
        asserted = [[''111:1@s.whatsapp.net'', ''100@s.whatsapp.net'']], usync = [] \<rparr>)"
  by (simp add: distributeSenderKey_def assertSessions_ok [OF flagEnv_sel(4)]
      createParticipantNodes_def flagEnv_sel andThen_def call_def ret_def
      encryptEach_ok [OF flagEnv_sel(5)] truthy_def msgToEncrypt_plain sys0_def
      del: encryptEach.simps(2))

lemma group_distribute_retry:
  "distributeSenderKey refWABinary (refEnv\<lparr>compatV6GroupSend := flag\<rparr>) ''g1@g.us''
     (extraAttrsOf refEnv refMessage) [27] [''111:1@s.whatsapp.net''] sys0
   = (Inr ([toNode ''111:1@s.whatsapp.net'' Pkmsg [21] (extraAttrsOf refEnv refMessage)], True),
      \<lparr> world = 1, sent = [],
        encrypted = [(''111:1@s.whatsapp.net'', Pkmsg)],
        asserted = [[''111:1@s.whatsapp.net'']], usync = [] \<rparr>)"
  by (simp add: distributeSenderKey_def assertSessions_ok [OF flagEnv_sel(4)]
      createParticipantNodes_def flagEnv_sel andThen_def call_def ret_def
      encryptEach_ok [OF flagEnv_sel(5)] truthy_def msgToEncrypt_plain sys0_def
      del: encryptEach.simps(2))

lemma group_send:
  "sendToGroup refWABinary (refEnv\<lparr>compatV6GroupSend := flag\<rparr>) refMe ''g1@g.us'' refMessage None
     (extraAttrsOf refEnv refMessage) [''addressing_mode'' \<mapsto> ''pn''] (Some refGroup)
     [''111:1@s.whatsapp.net'' \<mapsto> True]
     [\<lparr> d_user = ''111'', d_device = Some 1, d_jid = ''111:1@s.whatsapp.net'' \<rparr>,
      \<lparr> d_user = ''100'', d_device = Some 0, d_jid = ''100@s.whatsapp.net'' \<rparr>] sys0
   = (Inr \<lparr> l_participants =
              [toNode ''111:1@s.whatsapp.net'' Pkmsg [21] (extraAttrsOf refEnv refMessage),
               toNode ''100@s.whatsapp.net'' Msg [21] (extraAttrsOf refEnv refMessage)],
            l_binaryNodeContent =
              [Node ''enc'' ([''v'' \<mapsto> ''2'', ''type'' \<mapsto> ''skmsg''] ++ extraAttrsOf refEnv refMessage)
                 (Bytes [21])],
            l_additionalAttributes = [''addressing_mode'' \<mapsto> ''pn''],
            l_shouldIncludeDeviceIdentity = True \<rparr>,
      \<lparr> world = 2, sent = [],
        encrypted = [(''111:1@s.whatsapp.net'', Pkmsg), (''100@s.whatsapp.net'', Msg)],
        asserted = [[''111:1@s.whatsapp.net'', ''100@s.whatsapp.net'']], usync = [] \<rparr>)"
proof -
  have p: "call (\<lambda>w. (Inr (Single refMessage), w)) sys0 = (Inr (Single refMessage), sys0)"
    by (simp add: call_def)
  have g: "call (\<lambda>w. (Inr ([21], [27]), w)) sys0 = (Inr ([21], [27]), sys0)"
    by (simp add: call_def)
  show ?thesis
    by (simp add: sendToGroup_def flagEnv_sel andThen_def p g group_senderIds group_distribute
        groupEncNode_def isRetryResend_def call_def ret_def refGroup_def)
qed

lemma group_send_retry:
  "sendToGroup refWABinary (refEnv\<lparr>compatV6GroupSend := flag\<rparr>) refMe ''g1@g.us'' refMessage
     (Some refRetry) (extraAttrsOf refEnv refMessage) Map.empty (Some refGroup) Map.empty
     [\<lparr> d_user = ''111'', d_device = Some 1, d_jid = ''111:1@s.whatsapp.net'' \<rparr>] sys0
   = (Inr \<lparr> l_participants =
              [toNode ''111:1@s.whatsapp.net'' Pkmsg [21] (extraAttrsOf refEnv refMessage)],
            l_binaryNodeContent =
              [Node ''enc'' [''v'' \<mapsto> ''2'', ''type'' \<mapsto> ''msg'', ''count'' \<mapsto> ''2''] (Bytes [21])],
            l_additionalAttributes = Map.empty,
            l_shouldIncludeDeviceIdentity = True \<rparr>,
      \<lparr> world = 2, sent = [],
        encrypted = [(''111:1@s.whatsapp.net'', Pkmsg), (''111:1@s.whatsapp.net'', Msg)],
        asserted = [[''111:1@s.whatsapp.net'']], usync = [] \<rparr>)"
proof -
  have p: "call (\<lambda>w. (Inr (Single refMessage), w)) sys0 = (Inr (Single refMessage), sys0)"
    by (simp add: call_def)
  have g: "call (\<lambda>w. (Inr ([21], [27]), w)) sys0 = (Inr ([21], [27]), sys0)"
    by (simp add: call_def)
  have c: "intToString 2 = ''2''"
    by (simp add: intToString_def)
  show ?thesis
    by (simp add: sendToGroup_def flagEnv_sel andThen_def p g group_senderIds
        group_distribute_retry groupEncNode_def isRetryResend_def refRetry_def truthy_def
        doEncryptMessage_ok [OF flagEnv_sel(5)] ret_def refGroup_def ctypeString_def c)
qed

lemma group_run:
  "relayMessage refWABinary (refEnv\<lparr>compatV6GroupSend := flag\<rparr>) ''g1@g.us'' refMessage
     refOptions sys0
   = (Inr ''M1'',
      \<lparr> world = 2, sent = [groupStanza],
        encrypted = [(''111:1@s.whatsapp.net'', Pkmsg), (''100@s.whatsapp.net'', Msg)],
        asserted = [[''111:1@s.whatsapp.net'', ''100@s.whatsapp.net'']], usync = [] \<rparr>)"
proof -
  have i: "initialAttributes refOptions
             \<lparr> fj_user = ''g1'', fj_server = ''g.us'', fj_device = None \<rparr> ''g1@g.us'' = Map.empty"
    by (simp add: initialAttributes_def refOptions_sel spread_def)
  have b: "groupBranch refWABinary (refEnv\<lparr>compatV6GroupSend := flag\<rparr>) refMe ''g1@g.us''
             refMessage refOptions False Map.empty [] sys0
           = (Inr \<lparr> l_participants =
              [toNode ''111:1@s.whatsapp.net'' Pkmsg [21] (extraAttrsOf refEnv refMessage),
               toNode ''100@s.whatsapp.net'' Msg [21] (extraAttrsOf refEnv refMessage)],
            l_binaryNodeContent =
              [Node ''enc'' ([''v'' \<mapsto> ''2'', ''type'' \<mapsto> ''skmsg''] ++ extraAttrsOf refEnv refMessage)
                 (Bytes [21])],
            l_additionalAttributes = [''addressing_mode'' \<mapsto> ''pn''],
            l_shouldIncludeDeviceIdentity = True \<rparr>,
      \<lparr> world = 2, sent = [],
        encrypted = [(''111:1@s.whatsapp.net'', Pkmsg), (''100@s.whatsapp.net'', Msg)],
        asserted = [[''111:1@s.whatsapp.net'', ''100@s.whatsapp.net'']], usync = [] \<rparr>)"
    by (simp add: groupBranch_def refOptions_sel group_resolve group_memory group_devices
        andThen_def ret_def flagEnv_extraAttrs group_send)
  have st: "buildStanza refWABinary (refEnv\<lparr>compatV6GroupSend := flag\<rparr>) refMe ''g1@g.us'' ''M1''
              refMessage refOptions
              \<lparr> l_participants =
              [toNode ''111:1@s.whatsapp.net'' Pkmsg [21] (extraAttrsOf refEnv refMessage),
               toNode ''100@s.whatsapp.net'' Msg [21] (extraAttrsOf refEnv refMessage)],
            l_binaryNodeContent =
              [Node ''enc'' ([''v'' \<mapsto> ''2'', ''type'' \<mapsto> ''skmsg''] ++ extraAttrsOf refEnv refMessage)
                 (Bytes [21])],
            l_additionalAttributes = [''addressing_mode'' \<mapsto> ''pn''],
            l_shouldIncludeDeviceIdentity = True \<rparr> s
            = (Inr groupStanza, s)" for s :: "nat sys"
    by (simp add: buildStanza_def flagEnv_sel andThen_def call_def ret_def bizNodes_refMessage
        refOptions_sel groupStanza_def)
  show ?thesis
    by (simp add: relayMessage_def flagEnv_sel ref_decode messageIdOf_def refOptions_sel
        truthy_def participantDevice_def andThen_def ret_def relayBranch_def i b st
        doSendNode_def call_def remember_def)
qed

lemma group_retry_run:
  "relayMessage refWABinary (refEnv\<lparr>compatV6GroupSend := flag\<rparr>) ''g1@g.us'' refMessage
     retryOptions sys0
   = (Inr ''M1'',
      \<lparr> world = 2, sent = [groupRetryStanza],
        encrypted = [(''111:1@s.whatsapp.net'', Pkmsg), (''111:1@s.whatsapp.net'', Msg)],
        asserted = [[''111:1@s.whatsapp.net'']], usync = [] \<rparr>)"
proof -
  have i: "initialAttributes retryOptions
             \<lparr> fj_user = ''g1'', fj_server = ''g.us'', fj_device = None \<rparr> ''g1@g.us'' = Map.empty"
    by (simp add: initialAttributes_def retryOptions_sel spread_def)
  have p: "participantDevice refWABinary (Some refRetry)
             = Inr [\<lparr> d_user = ''111'', d_device = Some 1, d_jid = ''111:1@s.whatsapp.net'' \<rparr>]"
    by (simp add: participantDevice_def refRetry_def ref_decode)
  have b: "groupBranch refWABinary (refEnv\<lparr>compatV6GroupSend := flag\<rparr>) refMe ''g1@g.us''
             refMessage retryOptions False Map.empty
             [\<lparr> d_user = ''111'', d_device = Some 1, d_jid = ''111:1@s.whatsapp.net'' \<rparr>] sys0
           = (Inr \<lparr> l_participants =
              [toNode ''111:1@s.whatsapp.net'' Pkmsg [21] (extraAttrsOf refEnv refMessage)],
            l_binaryNodeContent =
              [Node ''enc'' [''v'' \<mapsto> ''2'', ''type'' \<mapsto> ''msg'', ''count'' \<mapsto> ''2''] (Bytes [21])],
            l_additionalAttributes = Map.empty,
            l_shouldIncludeDeviceIdentity = True \<rparr>,
      \<lparr> world = 2, sent = [],
        encrypted = [(''111:1@s.whatsapp.net'', Pkmsg), (''111:1@s.whatsapp.net'', Msg)],
        asserted = [[''111:1@s.whatsapp.net'']], usync = [] \<rparr>)"
    by (simp add: groupBranch_def retryOptions_sel group_resolve group_memory
        andThen_def ret_def flagEnv_extraAttrs group_send_retry)
  have st: "buildStanza refWABinary (refEnv\<lparr>compatV6GroupSend := flag\<rparr>) refMe ''g1@g.us'' ''M1''
              refMessage retryOptions
              \<lparr> l_participants =
              [toNode ''111:1@s.whatsapp.net'' Pkmsg [21] (extraAttrsOf refEnv refMessage)],
            l_binaryNodeContent =
              [Node ''enc'' [''v'' \<mapsto> ''2'', ''type'' \<mapsto> ''msg'', ''count'' \<mapsto> ''2''] (Bytes [21])],
            l_additionalAttributes = Map.empty,
            l_shouldIncludeDeviceIdentity = True \<rparr> s
            = (Inr groupRetryStanza, s)" for s :: "nat sys"
    by (simp add: buildStanza_def flagEnv_sel andThen_def call_def ret_def bizNodes_refMessage
        retryOptions_sel groupRetryStanza_def)
  show ?thesis
    by (simp add: relayMessage_def flagEnv_sel ref_decode messageIdOf_def retryOptions_sel
        truthy_def p andThen_def ret_def relayBranch_def i b st
        doSendNode_def call_def remember_def)
qed

subsection \<open>The claims on concrete runs\<close>


text \<open>
  A first send to the group \<open>g1@g.us\<close>: the sender key goes pairwise to two
  devices, the first of these encryptions returns \<open>pkmsg\<close>, and the stanza sent has
  a \<open>device-identity\<close> child.
\<close>

theorem relayMessage_pkmsg_device_identity_witness:
  "(''111:1@s.whatsapp.net'', Pkmsg)
     \<in> set (encrypted (snd (relayMessage refWABinary refEnv ''g1@g.us'' refMessage refOptions sys0)))
   \<and> (\<exists>stanza.
         sent (snd (relayMessage refWABinary refEnv ''g1@g.us'' refMessage refOptions sys0)) = [stanza]
         \<and> list_ex (\<lambda>c. tag c = ''device-identity'') (children stanza))"
proof -
  note r = group_run [of True, unfolded refEnv_flag]
  from relayMessage_pkmsg_device_identity [OF r, of "''111:1@s.whatsapp.net''"]
  show ?thesis
    by (simp add: r sys0_sel)
qed



text \<open>
  A first send to the group \<open>g1@g.us\<close> sends a stanza with one \<open>enc\<close> child of
  type \<open>skmsg\<close>; a resend in a direct chat sends a stanza with none.
\<close>

theorem relayMessage_skmsg_count_witness:
  "(\<exists>stanza.
      sent (snd (relayMessage refWABinary refEnv ''g1@g.us'' refMessage refOptions sys0)) = [stanza]
      \<and> length (filter isSkmsgEnc (children stanza)) = 1)
   \<and> (\<exists>stanza.
      sent (snd (relayMessage refWABinary refEnv ''111@s.whatsapp.net'' refMessage retryOptions sys0))
        = [stanza]
      \<and> length (filter isSkmsgEnc (children stanza)) = 0)"
proof -
  note r = group_run [of True, unfolded refEnv_flag]
  have i: "\<not> isRetryResend None"
    by (simp add: isRetryResend_def)
  from relayMessage_skmsg_count [OF r ref_decode(6)]
    relayMessage_skmsg_count [OF direct_retry_single ref_decode(1)]
  show ?thesis
    by (simp add: r direct_retry_single sys0_sel refOptions_sel retryOptions_sel i)
qed

text \<open>
  C2 as stated fails for a resend to a group: on a resend the message is encrypted
  pairwise for the participant (lines 907 to 921), so the \<open>enc\<close> child of the stanza
  has the type that this encryption returned, here \<open>msg\<close>, and the stanza for the
  group \<open>g1@g.us\<close> has no \<open>enc\<close> child of type \<open>skmsg\<close>.
\<close>

theorem relayMessage_group_retry_counterexample:
  "relayMessage refWABinary refEnv ''g1@g.us'' refMessage retryOptions sys0
     = (Inr ''M1'',
        \<lparr> world = 2, sent = [groupRetryStanza],
          encrypted = [(''111:1@s.whatsapp.net'', Pkmsg), (''111:1@s.whatsapp.net'', Msg)],
          asserted = [[''111:1@s.whatsapp.net'']], usync = [] \<rparr>)
   \<and> jidDecode refWABinary ''g1@g.us''
       = Some \<lparr> fj_user = ''g1'', fj_server = ''g.us'', fj_device = None \<rparr>
   \<and> map tag (children groupRetryStanza) = [''enc'', ''participants'', ''device-identity'']
   \<and> map (\<lambda>c. attrs c ''type'') (children groupRetryStanza) = [Some ''msg'', None, None]
   \<and> filter isSkmsgEnc (children groupRetryStanza) = []"
  by (simp add: group_retry_run [of True, unfolded refEnv_flag] ref_decode groupRetryStanza_def
      children_def isSkmsgEnc_def)






end
